(* ===== verification/Prelude.thy ===== *)
theory Prelude
  imports Main "HOL-Library.Word" "HOL-Library.Code_Target_Nat"
begin

unbundle bit_operations_syntax

text \<open>
  What every component of the development shares: results of Rust code (a value, an error or a
  panic), the computations that carry a state and return such a result, machine arithmetic on
  \<open>usize\<close>, the page macros of \<open>sgx_trts\<close> and \<open>sgx_rsrvmm\<close>, and generic list lemmas.

  Computations are reasoned about with their outcomes (\<open>Ok_iffs\<close>, \<open>Err_iffs\<close>) or with weakest
  preconditions (\<open>wp\<close>).

  Rust integers of type \<open>usize\<close> and \<open>u64\<close> are natural numbers below \<open>2 ^ 64\<close>; the wrap-around of
  a release build is written out with \<open>wrapping_add\<close> where a sum can leave that range, and
  \<open>checked_add\<close> is Rust's checked addition. Flag sets are words.
\<close>

named_theorems rust_simps \<open>unfolding rules for computations with a result\<close>
named_theorems wp \<open>weakest preconditions of the combinators\<close>
named_theorems page_simps \<open>arithmetic on page aligned addresses\<close>

section \<open>Results and computations\<close>

type_synonym usize = nat
type_synonym byte = "8 word"

text \<open>
  \<open>Ok\<close> and \<open>Err\<close> are Rust's \<open>Result\<close>. \<open>Panic\<close> is a failed \<open>assert!\<close>, an \<open>unwrap\<close> of an
  error or a slice index out of range: in an enclave the runtime aborts.
\<close>

datatype ('e, 'a) res = Ok 'a | Err 'e | Panic

fun is_ok :: "('e, 'a) res \<Rightarrow> bool" where
  "is_ok (Ok _) = True"
| "is_ok _ = False"

text \<open>A computation over a state \<open>'s\<close>: \<open>&mut self\<close> and everything reached through it.\<close>

type_synonym ('s, 'e, 'a) rust = "'s \<Rightarrow> ('e, 'a) res \<times> 's"

definition ret :: "'a \<Rightarrow> ('s, 'e, 'a) rust" where
  "ret a s = (Ok a, s)"

definition bail :: "'e \<Rightarrow> ('s, 'e, 'a) rust" where
  "bail e s = (Err e, s)"

definition panic :: "('s, 'e, 'a) rust" where
  "panic s = (Panic, s)"

text \<open>Sequencing: the \<open>?\<close> operator, with a panic propagating as well.\<close>

definition and_then :: "('s, 'e, 'a) rust \<Rightarrow> ('a \<Rightarrow> ('s, 'e, 'b) rust) \<Rightarrow> ('s, 'e, 'b) rust" where
  "and_then m f s =
     (case m s of
        (Ok a, s') \<Rightarrow> f a s'
      | (Err e, s') \<Rightarrow> (Err e, s')
      | (Panic, s') \<Rightarrow> (Panic, s'))"

definition seq :: "('s, 'e, 'a) rust \<Rightarrow> ('s, 'e, 'b) rust \<Rightarrow> ('s, 'e, 'b) rust" where
  "seq m n = and_then m (\<lambda>_. n)"

text \<open>\<open>ensure!(b, e)\<close> and \<open>assert!(b)\<close>.\<close>

definition ensure :: "bool \<Rightarrow> 'e \<Rightarrow> ('s, 'e, unit) rust" where
  "ensure b e = (if b then ret () else bail e)"

definition rassert :: "bool \<Rightarrow> ('s, 'e, unit) rust" where
  "rassert b = (if b then ret () else panic)"

text \<open>\<open>opt.ok_or(e)?\<close>.\<close>

definition ok_or :: "'a option \<Rightarrow> 'e \<Rightarrow> ('s, 'e, 'a) rust" where
  "ok_or x e = (case x of Some a \<Rightarrow> ret a | None \<Rightarrow> bail e)"

definition gets :: "('s \<Rightarrow> 'a) \<Rightarrow> ('s, 'e, 'a) rust" where
  "gets f s = (Ok (f s), s)"

definition modify :: "('s \<Rightarrow> 's) \<Rightarrow> ('s, 'e, unit) rust" where
  "modify f s = (Ok (), f s)"

text \<open>\<open>let r = m;\<close> without \<open>?\<close>: the result becomes a value, a panic still propagates.\<close>

definition attempt :: "('s, 'e, 'a) rust \<Rightarrow> ('s, 'f, 'e + 'a) rust" where
  "attempt m s =
     (case m s of
        (Ok a, s') \<Rightarrow> (Ok (Inr a), s')
      | (Err e, s') \<Rightarrow> (Ok (Inl e), s')
      | (Panic, s') \<Rightarrow> (Panic, s'))"

text \<open>\<open>m.unwrap()\<close>, \<open>m.map_err(f)\<close>, and a computation on a part of the state.\<close>

definition unwrap :: "('s, 'e, 'a) rust \<Rightarrow> ('s, 'f, 'a) rust" where
  "unwrap m s =
     (case m s of
        (Ok a, s') \<Rightarrow> (Ok a, s')
      | (Err e, s') \<Rightarrow> (Panic, s')
      | (Panic, s') \<Rightarrow> (Panic, s'))"

definition map_err :: "('e \<Rightarrow> 'f) \<Rightarrow> ('s, 'e, 'a) rust \<Rightarrow> ('s, 'f, 'a) rust" where
  "map_err f m s =
     (case m s of
        (Ok a, s') \<Rightarrow> (Ok a, s')
      | (Err e, s') \<Rightarrow> (Err (f e), s')
      | (Panic, s') \<Rightarrow> (Panic, s'))"

definition zoom :: "('s \<Rightarrow> 't) \<Rightarrow> ('t \<Rightarrow> 's \<Rightarrow> 's) \<Rightarrow> ('t, 'e, 'a) rust \<Rightarrow> ('s, 'e, 'a) rust" where
  "zoom get_part put_part m s = (case m (get_part s) of (r, t) \<Rightarrow> (r, put_part t s))"

text \<open>\<open>for x in xs { f(x)?; }\<close>.\<close>

fun for_each :: "('a \<Rightarrow> ('s, 'e, unit) rust) \<Rightarrow> 'a list \<Rightarrow> ('s, 'e, unit) rust" where
  "for_each f [] = ret ()"
| "for_each f (x # xs) = and_then (f x) (\<lambda>_. for_each f xs)"

text \<open>\<open>xs.into_iter().flat_map(f).collect()\<close>, with \<open>f\<close> run left to right.\<close>

fun flat_map :: "('a \<Rightarrow> ('s, 'e, 'b list) rust) \<Rightarrow> 'a list \<Rightarrow> ('s, 'e, 'b list) rust" where
  "flat_map f [] = ret []"
| "flat_map f (x # xs) =
     and_then (f x) (\<lambda>ys. and_then (flat_map f xs) (\<lambda>zs. ret (ys @ zs)))"

text \<open>\<open>xs.iter().find_map(f)\<close>: nested loops that return at the first hit.\<close>

fun find_map :: "('a \<Rightarrow> 'b option) \<Rightarrow> 'a list \<Rightarrow> 'b option" where
  "find_map f [] = None"
| "find_map f (x # xs) = (case f x of Some y \<Rightarrow> Some y | None \<Rightarrow> find_map f xs)"

lemma find_map_SomeD: "find_map f xs = Some y \<Longrightarrow> \<exists>x \<in> set xs. f x = Some y"
  by (induction xs) (auto split: option.splits)

lemma find_map_None_iff: "find_map f xs = None \<longleftrightarrow> (\<forall>x \<in> set xs. f x = None)"
  by (induction xs) (auto split: option.splits)

lemmas rust_defs [rust_simps] =
  ret_def bail_def panic_def and_then_def seq_def ensure_def rassert_def ok_or_def gets_def
  modify_def attempt_def unwrap_def map_err_def zoom_def

lemma and_then_ret [simp]: "and_then (ret a) f = f a"
  by (simp add: fun_eq_iff rust_defs)

lemma and_then_bail [simp]: "and_then (bail e) f = bail e"
  by (simp add: fun_eq_iff rust_defs)

lemma and_then_panic [simp]: "and_then panic f = panic"
  by (simp add: fun_eq_iff rust_defs)

lemma and_then_gets [simp]: "and_then (gets f) g s = g (f s) s"
  by (simp add: rust_defs)

lemma and_then_modify [simp]: "and_then (modify f) g s = g () (f s)" "seq (modify f) n s = n (f s)"
  by (simp_all add: rust_defs)

lemma seq_simps [simp]: "seq (ret a) n = n" "seq (bail e) n = bail e" "seq panic n = panic"
  by (simp_all add: seq_def)

lemma and_then_assoc:
  "and_then (and_then m f) g = and_then m (\<lambda>x. and_then (f x) g)"
  by (auto simp: fun_eq_iff and_then_def split: prod.splits res.splits)

lemma and_then_OkE:
  assumes "and_then m f s = (Ok b, s')"
  obtains a t where "m s = (Ok a, t)" "f a t = (Ok b, s')"
  using assms by (auto simp: and_then_def split: prod.splits res.splits)

lemma and_then_Ok_iff:
  "and_then m f s = (Ok b, s') \<longleftrightarrow> (\<exists>a t. m s = (Ok a, t) \<and> f a t = (Ok b, s'))"
  by (auto simp: and_then_def split: prod.splits res.splits)

lemma seq_Ok_iff:
  "seq m n s = (Ok b, s') \<longleftrightarrow> (\<exists>a t. m s = (Ok a, t) \<and> n t = (Ok b, s'))"
  by (simp add: seq_def and_then_Ok_iff)

lemma ensure_Ok_iff [simp]: "ensure b e s = (Ok u, s') \<longleftrightarrow> b \<and> s' = s"
  by (auto simp: ensure_def ret_def bail_def)

lemma rassert_Ok_iff [simp]: "rassert b s = (Ok u, s') \<longleftrightarrow> b \<and> s' = s"
  by (auto simp: rassert_def ret_def panic_def)

lemma ret_Ok_iff [simp]: "ret a s = (Ok b, s') \<longleftrightarrow> b = a \<and> s' = s"
  by (auto simp: ret_def)

lemma bail_Ok_iff [simp]: "bail e s = (Ok b, s') \<longleftrightarrow> False"
  by (simp add: bail_def)

lemma panic_Ok_iff [simp]: "panic s = (Ok b, s') \<longleftrightarrow> False"
  by (simp add: panic_def)

lemma ok_or_Ok_iff [simp]: "ok_or x e s = (Ok a, s') \<longleftrightarrow> x = Some a \<and> s' = s"
  by (auto simp: ok_or_def ret_def bail_def split: option.splits)

lemma gets_Ok_iff [simp]: "gets f s = (Ok a, s') \<longleftrightarrow> a = f s \<and> s' = s"
  by (auto simp: gets_def)

lemma modify_Ok_iff [simp]: "modify f s = (Ok u, s') \<longleftrightarrow> s' = f s"
  by (auto simp: modify_def)

lemma map_err_Ok_iff [simp]: "map_err f m s = (Ok a, s') \<longleftrightarrow> m s = (Ok a, s')"
  by (auto simp: map_err_def split: prod.splits res.splits)

lemma unwrap_Ok_iff [simp]: "unwrap m s = (Ok a, s') \<longleftrightarrow> m s = (Ok a, s')"
  by (auto simp: unwrap_def split: prod.splits res.splits)

lemma attempt_Ok_iff:
  "attempt m s = (Ok r, s') \<longleftrightarrow>
     (case r of Inl e \<Rightarrow> m s = (Err e, s') | Inr a \<Rightarrow> m s = (Ok a, s'))"
  by (auto simp: attempt_def split: prod.splits res.splits sum.splits)

lemmas Ok_iffs = and_then_Ok_iff seq_Ok_iff attempt_Ok_iff

text \<open>A \<open>flat_map\<close> whose body returns a fixed list returns the concatenation.\<close>

lemma flat_map_Ok_set:
  assumes "\<And>x s ys s'. x \<in> set xs \<Longrightarrow> f x s = (Ok ys, s') \<Longrightarrow> ys = g x"
    and "flat_map f xs s = (Ok zs, s')"
  shows "zs = concat (map g xs)"
  using assms by (induction xs arbitrary: s zs s') (auto simp: and_then_Ok_iff)

lemma for_each_map: "for_each f (map g xs) = for_each (\<lambda>x. f (g x)) xs"
  by (induction xs) simp_all

lemma for_each_cong: "xs = ys \<Longrightarrow> (\<And>x. x \<in> set ys \<Longrightarrow> f x = g x) \<Longrightarrow> for_each f xs = for_each g ys"
  by (induction xs arbitrary: ys) auto

lemma for_each_append:
  "for_each f (xs @ ys) = and_then (for_each f xs) (\<lambda>_. for_each f ys)"
  by (induction xs) (simp_all add: and_then_assoc)

text \<open>A computation that returns or panics, but never reports an error.\<close>

definition never_err :: "('s, 'e, 'a) rust \<Rightarrow> bool" where
  "never_err m \<longleftrightarrow> (\<forall>s. case m s of (Err e, s') \<Rightarrow> False | _ \<Rightarrow> True)"

lemma never_errI: "(\<And>s e s'. m s \<noteq> (Err e, s')) \<Longrightarrow> never_err m"
  by (auto simp: never_err_def split: prod.splits res.splits)

lemma never_errD: "never_err m \<Longrightarrow> m s \<noteq> (Err e, s')"
  by (auto simp: never_err_def split: prod.splits res.splits dest: spec [of _ s])

lemma never_err_intros [simp, intro]:
  "never_err (ret a)" "never_err panic" "never_err (rassert b)" "never_err (gets f)" "never_err (modify g)"
  "never_err (attempt m)" "never_err (unwrap m)"
  by (auto intro!: never_errI simp: rust_defs split: prod.splits res.splits)

lemma never_err_and_then [intro]:
  assumes "never_err m" "\<And>a. never_err (f a)"
  shows "never_err (and_then m f)"
  using never_errD [OF assms(1)] never_errD [OF assms(2)]
  by (auto intro!: never_errI simp: and_then_def split: prod.splits res.splits)

lemma never_err_seq [intro]: "never_err m \<Longrightarrow> never_err n \<Longrightarrow> never_err (seq m n)"
  by (auto simp: seq_def)

lemma never_err_flat_map [intro]: "(\<And>x. never_err (f x)) \<Longrightarrow> never_err (flat_map f xs)"
  by (induction xs) auto

lemma never_err_zoom [intro]: "never_err m \<Longrightarrow> never_err (zoom g p m)"
  by (auto intro!: never_errI simp: zoom_def split: prod.splits dest: never_errD)

lemma and_then_Err_iff:
  "and_then m f s = (Err e, s') \<longleftrightarrow>
     m s = (Err e, s') \<or> (\<exists>a t. m s = (Ok a, t) \<and> f a t = (Err e, s'))"
  by (auto simp: and_then_def split: prod.splits res.splits)

lemma seq_Err_iff:
  "seq m n s = (Err e, s') \<longleftrightarrow>
     m s = (Err e, s') \<or> (\<exists>a t. m s = (Ok a, t) \<and> n t = (Err e, s'))"
  by (simp add: seq_def and_then_Err_iff)

lemma simple_Err_iffs [simp]:
  "ensure b x s = (Err e, s') \<longleftrightarrow> \<not> b \<and> e = x \<and> s' = s"
  "bail x s = (Err e, s') \<longleftrightarrow> e = x \<and> s' = s"
  "ret a s = (Err e, s') \<longleftrightarrow> False"
  "rassert b s = (Err e, s') \<longleftrightarrow> False"
  "panic s = (Err e, s') \<longleftrightarrow> False"
  "gets f s = (Err e, s') \<longleftrightarrow> False"
  "modify g s = (Err e, s') \<longleftrightarrow> False"
  "unwrap m s = (Err e, s') \<longleftrightarrow> False"
  "attempt m s = (Err e, s') \<longleftrightarrow> False"
  "ok_or x' x s = (Err e, s') \<longleftrightarrow> x' = None \<and> e = x \<and> s' = s"
  by (auto simp: rust_defs split: prod.splits res.splits option.splits)

lemmas Err_iffs = and_then_Err_iff seq_Err_iff

text \<open>
  Weakest preconditions: \<open>P\<close> holds after a normal return, \<open>Q\<close> after an error. A panic aborts the
  enclave and satisfies every postcondition; where the absence of panics matters it is stated.
\<close>

definition wp :: "('s, 'e, 'a) rust \<Rightarrow> ('a \<Rightarrow> 's \<Rightarrow> bool) \<Rightarrow> ('e \<Rightarrow> 's \<Rightarrow> bool) \<Rightarrow> 's \<Rightarrow> bool" where
  "wp m P Q s =
     (case m s of (Ok a, s') \<Rightarrow> P a s' | (Err e, s') \<Rightarrow> Q e s' | (Panic, s') \<Rightarrow> True)"

lemma wpI:
  assumes "\<And>a s'. m s = (Ok a, s') \<Longrightarrow> P a s'" "\<And>e s'. m s = (Err e, s') \<Longrightarrow> Q e s'"
  shows "wp m P Q s"
  using assms by (auto simp: wp_def split: prod.splits res.splits)

lemma wp_Ok: "wp m P Q s \<Longrightarrow> m s = (Ok a, s') \<Longrightarrow> P a s'"
  by (simp add: wp_def)

lemma wp_Err: "wp m P Q s \<Longrightarrow> m s = (Err e, s') \<Longrightarrow> Q e s'"
  by (simp add: wp_def)

lemma wp_conseq:
  assumes "wp m P Q s" "\<And>a s'. P a s' \<Longrightarrow> P' a s'" "\<And>e s'. Q e s' \<Longrightarrow> Q' e s'"
  shows "wp m P' Q' s"
  using assms by (auto simp: wp_def split: prod.splits res.splits)

lemma wp_ret [wp]: "wp (ret a) P Q s \<longleftrightarrow> P a s"
  by (auto simp: wp_def rust_defs split: prod.splits res.splits)

lemma wp_bail [wp]: "wp (bail e) P Q s \<longleftrightarrow> Q e s"
  by (auto simp: wp_def rust_defs split: prod.splits res.splits)

lemma wp_panic [wp]: "wp panic P Q s"
  by (auto simp: wp_def rust_defs split: prod.splits res.splits)

lemma wp_and_then [wp]: "wp (and_then m f) P Q s \<longleftrightarrow> wp m (\<lambda>a. wp (f a) P Q) Q s"
  by (auto simp: wp_def rust_defs split: prod.splits res.splits)

lemma wp_seq [wp]: "wp (seq m n) P Q s \<longleftrightarrow> wp m (\<lambda>_. wp n P Q) Q s"
  by (auto simp: wp_def rust_defs split: prod.splits res.splits)

lemma wp_ensure [wp]: "wp (ensure b e) P Q s \<longleftrightarrow> (if b then P () s else Q e s)"
  by (auto simp: wp_def rust_defs split: prod.splits res.splits)

lemma wp_rassert [wp]: "wp (rassert b) P Q s \<longleftrightarrow> (b \<longrightarrow> P () s)"
  by (auto simp: wp_def rust_defs split: prod.splits res.splits)

lemma wp_gets [wp]: "wp (gets f) P Q s \<longleftrightarrow> P (f s) s"
  by (auto simp: wp_def rust_defs split: prod.splits res.splits)

lemma wp_modify [wp]: "wp (modify g) P Q s \<longleftrightarrow> P () (g s)"
  by (auto simp: wp_def rust_defs split: prod.splits res.splits)

lemma wp_attempt [wp]: "wp (attempt m) P Q s \<longleftrightarrow> wp m (\<lambda>a. P (Inr a)) (\<lambda>e. P (Inl e)) s"
  by (auto simp: wp_def rust_defs split: prod.splits res.splits)

lemma wp_map_err [wp]: "wp (map_err h m) P Q s \<longleftrightarrow> wp m P (\<lambda>e. Q (h e)) s"
  by (auto simp: wp_def rust_defs split: prod.splits res.splits)

lemma wp_unwrap [wp]: "wp (unwrap m) P Q s \<longleftrightarrow> wp m P (\<lambda>_ _. True) s"
  by (auto simp: wp_def rust_defs split: prod.splits res.splits)

lemma wp_ok_or [wp]:
  "wp (ok_or x e) P Q s \<longleftrightarrow> (case x of Some a \<Rightarrow> P a s | None \<Rightarrow> Q e s)"
  by (auto simp: wp_def rust_defs split: option.splits)

lemma wp_zoom [wp]:
  "wp (zoom g p m) P Q s \<longleftrightarrow> wp m (\<lambda>a t. P a (p t s)) (\<lambda>e t. Q e (p t s)) (g s)"
  by (auto simp: wp_def zoom_def split: prod.splits res.splits)

lemma wp_if [wp]: "wp (if b then m else n) P Q s \<longleftrightarrow> (if b then wp m P Q s else wp n P Q s)"
  by simp

section \<open>Machine arithmetic\<close>

definition USIZE_LIMIT :: nat where
  "USIZE_LIMIT = 2 ^ 64"

definition checked_add :: "usize \<Rightarrow> usize \<Rightarrow> usize option" where
  "checked_add a b = (if a + b < USIZE_LIMIT then Some (a + b) else None)"

definition wrapping_add :: "usize \<Rightarrow> usize \<Rightarrow> usize" where
  "wrapping_add a b = (a + b) mod USIZE_LIMIT"

definition wrapping_mul :: "usize \<Rightarrow> usize \<Rightarrow> usize" where
  "wrapping_mul a b = (a * b) mod USIZE_LIMIT"

text \<open>A subtraction of a release build: it wraps when the result would be negative.\<close>

definition wrapping_sub :: "usize \<Rightarrow> usize \<Rightarrow> usize" where
  "wrapping_sub a b = (a + (USIZE_LIMIT - b mod USIZE_LIMIT)) mod USIZE_LIMIT"

definition saturating_sub :: "usize \<Rightarrow> usize \<Rightarrow> usize" where
  "saturating_sub a b = (if a < b then 0 else a - b)"

lemma checked_add_Some [simp]:
  "checked_add a b = Some c \<longleftrightarrow> c = a + b \<and> a + b < USIZE_LIMIT"
  by (auto simp: checked_add_def)

lemma checked_add_None: "checked_add a b = None \<longleftrightarrow> USIZE_LIMIT \<le> a + b"
  by (auto simp: checked_add_def)

lemma wrapping_add_small: "a + b < USIZE_LIMIT \<Longrightarrow> wrapping_add a b = a + b"
  by (simp add: wrapping_add_def)

lemma wrapping_add_lt: "wrapping_add a b < USIZE_LIMIT"
  by (simp add: wrapping_add_def USIZE_LIMIT_def)

lemma wrapping_sub_small:
  assumes "b \<le> a" "a < USIZE_LIMIT"
  shows "wrapping_sub a b = a - b"
proof -
  have "b mod USIZE_LIMIT = b" using assms by simp
  moreover have "a + (USIZE_LIMIT - b) = (a - b) + USIZE_LIMIT" using assms by simp
  moreover have "((a - b) + USIZE_LIMIT) mod USIZE_LIMIT = a - b"
    unfolding mod_add_self2 using assms by (intro mod_less) simp
  ultimately show ?thesis unfolding wrapping_sub_def by presburger
qed

lemma saturating_sub_eq [simp]: "saturating_sub a b = a - b"
  by (simp add: saturating_sub_def)

section \<open>Pages\<close>

definition SE_PAGE_SHIFT :: nat where
  "SE_PAGE_SHIFT = 12"

definition SE_PAGE_SIZE :: usize where
  "SE_PAGE_SIZE = 4096"

definition is_page_aligned :: "usize \<Rightarrow> bool" where
  "is_page_aligned n \<longleftrightarrow> n AND (SE_PAGE_SIZE - 1) = 0"

text \<open>The complement of the page mask on 64 bits.\<close>

definition page_mask :: usize where
  "page_mask = USIZE_LIMIT - SE_PAGE_SIZE"

definition trim_to_page :: "usize \<Rightarrow> usize" where
  "trim_to_page n = n AND page_mask"

definition round_to_page :: "usize \<Rightarrow> usize" where
  "round_to_page n = wrapping_add n (SE_PAGE_SIZE - 1) AND page_mask"

lemma is_page_aligned_iff [page_simps]: "is_page_aligned n \<longleftrightarrow> n mod 4096 = 0"
proof -
  have "n AND mask 12 = n mod 4096"
    by (simp only: take_bit_eq_mask [symmetric] take_bit_eq_mod) simp
  then show ?thesis by (simp add: is_page_aligned_def SE_PAGE_SIZE_def mask_eq_exp_minus_1)
qed

lemma page_aligned_dvd: "is_page_aligned n \<longleftrightarrow> 4096 dvd n"
  by (simp add: is_page_aligned_iff mod_eq_0_iff_dvd)

lemma trim_to_page_eq:
  assumes "n < USIZE_LIMIT"
  shows "trim_to_page n = n div 4096 * 4096"
proof -
  have m: "page_mask = push_bit 12 (mask 52)"
    by (simp add: page_mask_def USIZE_LIMIT_def SE_PAGE_SIZE_def push_bit_eq_mult
        mask_eq_exp_minus_1)
  have "n div 4096 < 2 ^ 52" using assms by (simp add: USIZE_LIMIT_def)
  then have t: "take_bit 52 (drop_bit 12 n) = n div 4096"
    by (simp add: drop_bit_eq_div take_bit_nat_eq_self)
  have "n AND push_bit 12 (mask 52) = push_bit 12 (drop_bit 12 n AND mask 52)"
    by (rule bit_eqI) (auto simp: bit_and_iff bit_push_bit_iff bit_drop_bit_eq)
  also have "\<dots> = n div 4096 * 4096"
    by (simp add: take_bit_eq_mask [symmetric] t push_bit_eq_mult)
  finally show ?thesis by (simp add: trim_to_page_def m)
qed

lemma round_to_page_eq:
  assumes "n + 4095 < USIZE_LIMIT"
  shows "round_to_page n = (n + 4095) div 4096 * 4096"
  using trim_to_page_eq [OF assms] wrapping_add_small [OF assms]
  by (simp add: round_to_page_def trim_to_page_def SE_PAGE_SIZE_def)

lemma round_to_page_aligned: "is_page_aligned (round_to_page n)"
proof -
  have "round_to_page n = trim_to_page (wrapping_add n 4095)"
    by (simp add: round_to_page_def trim_to_page_def SE_PAGE_SIZE_def)
  then show ?thesis by (simp add: trim_to_page_eq [OF wrapping_add_lt] is_page_aligned_iff)
qed

lemma trim_to_page_aligned: "n < USIZE_LIMIT \<Longrightarrow> is_page_aligned (trim_to_page n)"
  by (simp add: trim_to_page_eq is_page_aligned_iff)

lemma page_aligned_add [intro]:
  "is_page_aligned a \<Longrightarrow> is_page_aligned b \<Longrightarrow> is_page_aligned (a + b)"
  by (simp add: page_aligned_dvd)

lemma page_aligned_diff [intro]:
  "is_page_aligned a \<Longrightarrow> is_page_aligned b \<Longrightarrow> is_page_aligned (a - b)"
  by (simp add: page_aligned_dvd)

text \<open>
  Rounding up gives a multiple of the page size that covers the request, except within the last
  page of the address space, where the release build wraps to zero.
\<close>

lemma round_to_page_cases:
  assumes "n < USIZE_LIMIT"
  shows "round_to_page n = 0 \<or> n \<le> round_to_page n \<and> round_to_page n < n + 4096"
proof (cases "n + 4095 < USIZE_LIMIT")
  case True
  moreover have "n \<le> (n + 4095) div 4096 * 4096 \<and> (n + 4095) div 4096 * 4096 < n + 4096"
    by arith
  ultimately show ?thesis by (simp add: round_to_page_eq)
next
  case False
  have "wrapping_add n 4095 = n + 4095 - USIZE_LIMIT"
    using False assms by (simp add: wrapping_add_def mod_if USIZE_LIMIT_def)
  then have "wrapping_add n 4095 < 4096" using assms by simp
  then have "trim_to_page (wrapping_add n 4095) = 0"
    by (simp add: trim_to_page_eq [OF wrapping_add_lt])
  then show ?thesis
    by (simp add: round_to_page_def trim_to_page_def SE_PAGE_SIZE_def)
qed

end
