(* ===== verification/Status.thy ===== *)
theory Status
  imports Prelude
begin

text \<open>
  The error vocabulary of \<open>sgx_types/src/error\<close>. A status is its \<open>u32\<close> discriminant; the statuses
  the modelled code names have a constant each, and \<open>sgx_status_codes\<close> lists the discriminants
  of the whole enumeration. An errno is its \<open>i32\<close> value.
\<close>

section \<open>Status codes\<close>

datatype SgxStatus = SgxStatus (sgx_status_code: nat)

abbreviation Sgx_Success :: SgxStatus where
  "Sgx_Success \<equiv> SgxStatus 0"

abbreviation Sgx_Unexpected :: SgxStatus where
  "Sgx_Unexpected \<equiv> SgxStatus 1"

abbreviation Sgx_InvalidParameter :: SgxStatus where
  "Sgx_InvalidParameter \<equiv> SgxStatus 0x2"

abbreviation Sgx_OutOfMemory :: SgxStatus where
  "Sgx_OutOfMemory \<equiv> SgxStatus 0x3"

abbreviation Sgx_InvalidState :: SgxStatus where
  "Sgx_InvalidState \<equiv> SgxStatus 0x5"

abbreviation Sgx_InvalidFunction :: SgxStatus where
  "Sgx_InvalidFunction \<equiv> SgxStatus 0x1001"

abbreviation Sgx_MacMismatch :: SgxStatus where
  "Sgx_MacMismatch \<equiv> SgxStatus 0x3001"

abbreviation Sgx_KdfMismatch :: SgxStatus where
  "Sgx_KdfMismatch \<equiv> SgxStatus 0x4011"

abbreviation Sgx_BadStatus :: SgxStatus where
  "Sgx_BadStatus \<equiv> SgxStatus 0x7001"

abbreviation Sgx_NameMismatch :: SgxStatus where
  "Sgx_NameMismatch \<equiv> SgxStatus 0x7003"

abbreviation Sgx_NotSgxFile :: SgxStatus where
  "Sgx_NotSgxFile \<equiv> SgxStatus 0x7004"

abbreviation Sgx_CantOpenRecoveryFile :: SgxStatus where
  "Sgx_CantOpenRecoveryFile \<equiv> SgxStatus 0x7005"

abbreviation Sgx_CantWriteRecoveryFile :: SgxStatus where
  "Sgx_CantWriteRecoveryFile \<equiv> SgxStatus 0x7006"

abbreviation Sgx_RecoveryNeeded :: SgxStatus where
  "Sgx_RecoveryNeeded \<equiv> SgxStatus 0x7007"

abbreviation Sgx_FluchFailed :: SgxStatus where
  "Sgx_FluchFailed \<equiv> SgxStatus 0x7008"

abbreviation Sgx_CloseFailed :: SgxStatus where
  "Sgx_CloseFailed \<equiv> SgxStatus 0x7009"

abbreviation Sgx_InvalidAttribute :: SgxStatus where
  "Sgx_InvalidAttribute \<equiv> SgxStatus 0x3002"

definition sgx_status_codes :: "nat list" where
  "sgx_status_codes =
     [0, 1, 0x2, 0x3, 0x4, 0x5, 0x8, 0x9, 0xA, 0x1001, 0x1003, 0x1006, 0x1007, 0x1008,
      0x1009, 0x2000, 0x2001, 0x2002, 0x2003, 0x2004, 0x2005, 0x2006, 0x2007, 0x2009,
      0x200C, 0x200D, 0x200E, 0x200F, 0x2010, 0x2011, 0x3001, 0x3002, 0x3003, 0x3004,
      0x3005, 0x4001, 0x4002, 0x4003, 0x4004, 0x4005, 0x4006, 0x4007, 0x4008, 0x400A,
      0x400C, 0x400D, 0x400E, 0x400F, 0x4011, 0x4012, 0x4013, 0x5002, 0x6001, 0x6002,
      0x6003, 0x6004, 0x6005, 0x7001, 0x7002, 0x7003, 0x7004, 0x7005, 0x7006, 0x7007,
      0x7008, 0x7009, 0x8001, 0x8002, 0x8003, 0x8004, 0x8005, 0xF001]"

text \<open>\<open>SgxStatus::try_from(code)\<close>: the status with that discriminant, if there is one.\<close>

definition sgx_status_try_from :: "nat \<Rightarrow> SgxStatus option" where
  "sgx_status_try_from code =
     (if code \<in> set sgx_status_codes then Some (SgxStatus code) else None)"

definition sgx_is_success :: "SgxStatus \<Rightarrow> bool" where
  "sgx_is_success st \<longleftrightarrow> st = Sgx_Success"

lemma sgx_status_try_from_success [simp]: "sgx_status_try_from 0 = Some Sgx_Success"
  by (simp add: sgx_status_try_from_def sgx_status_codes_def)

section \<open>Error numbers\<close>

datatype errno = Errno (errno_code: int)

abbreviation EPERM :: errno where
  "EPERM \<equiv> Errno 1"

abbreviation ENOENT :: errno where
  "ENOENT \<equiv> Errno 2"

abbreviation EIO :: errno where
  "EIO \<equiv> Errno 5"

abbreviation ENOMEM :: errno where
  "ENOMEM \<equiv> Errno 12"

abbreviation EACCES :: errno where
  "EACCES \<equiv> Errno 13"

abbreviation EFAULT :: errno where
  "EFAULT \<equiv> Errno 14"

abbreviation EINVAL :: errno where
  "EINVAL \<equiv> Errno 22"

abbreviation ENAMETOOLONG :: errno where
  "ENAMETOOLONG \<equiv> Errno 36"

abbreviation ENOTSUP :: errno where
  "ENOTSUP \<equiv> Errno 95"

end
