(* ===== verification/Enclave_Mem.thy ===== *)
theory Enclave_Mem
  imports Status
begin

unbundle bit_operations_syntax

text \<open>
  The enclave's address space: the global data the loader patches in (\<open>sgx_trts/src/arch.rs\<close>),
  the memory layout derived from it and the two range checks every pointer crossing the enclave
  boundary goes through (\<open>sgx_trts/src/enclave/mem.rs\<close>), and the table of the ranges that may be
  extended at run time (\<open>sgx_trts/src/edmm/layout.rs\<close>).

  The hardware and the host are parameters: the record \<open>platform\<close> holds the linker symbol of
  the image base, the loader's global data, the feature flags, the \<open>ENCLU\<close> leaf functions and the
  exit to the host, the last four over an arbitrary type \<open>'w\<close> of states of the outside world.
\<close>

section \<open>Global data\<close>

text \<open>
  The union \<open>Layout\<close> of \<open>LayoutEntry\<close> and \<open>LayoutGroup\<close>: both views start with a \<open>u16\<close> id, a
  \<open>u16\<close>, a \<open>u32\<close> and a \<open>u64\<close>, so a group is read from the fields of the entry.
\<close>

record Layout =
  ly_id :: "16 word"
  ly_attributes :: "16 word"
  ly_page_count :: nat
  ly_rva :: nat
  ly_content_size :: nat
  ly_content_offset :: nat
  ly_si_flags :: "64 word"

definition grp_load_times :: "Layout \<Rightarrow> nat" where
  "grp_load_times l = ly_page_count l"

definition grp_load_step :: "Layout \<Rightarrow> nat" where
  "grp_load_step l = ly_rva l"

definition LAYOUT_ID_HEAP_MIN :: "16 word" where "LAYOUT_ID_HEAP_MIN = 1"
definition LAYOUT_ID_HEAP_MAX :: "16 word" where "LAYOUT_ID_HEAP_MAX = 3"
definition LAYOUT_ID_STACK_MAX :: "16 word" where "LAYOUT_ID_STACK_MAX = 7"
definition LAYOUT_ID_TCS_DYN :: "16 word" where "LAYOUT_ID_TCS_DYN = 14"
definition LAYOUT_ID_STACK_DYN_MIN :: "16 word" where "LAYOUT_ID_STACK_DYN_MIN = 18"
definition LAYOUT_ID_THREAD_GROUP_DYN :: "16 word" where
  "LAYOUT_ID_THREAD_GROUP_DYN = push_bit 12 1 OR 19"
definition LAYOUT_ID_RSRV_MIN :: "16 word" where "LAYOUT_ID_RSRV_MIN = 20"
definition LAYOUT_ID_RSRV_MAX :: "16 word" where "LAYOUT_ID_RSRV_MAX = 22"

definition PAGE_ATTR_POST_ADD :: "16 word" where "PAGE_ATTR_POST_ADD = push_bit 3 1"
definition PAGE_DIR_GROW_DOWN :: "16 word" where "PAGE_DIR_GROW_DOWN = push_bit 6 1"

definition SI_FLAGS_RW :: "64 word" where
  "SI_FLAGS_RW = 0x1 OR 0x2 OR push_bit 8 0x02"

record Global =
  g_enclave_size :: usize
  g_heap_offset :: usize
  g_heap_size :: usize
  g_rsrv_offset :: usize
  g_rsrv_size :: usize
  g_rsrv_executable :: usize
  g_layout_num :: nat
  g_layouts :: "Layout list"
  g_enclave_image_base :: nat
  g_elrange_start_base :: nat
  g_elrange_size :: nat

definition layout_table :: "Global \<Rightarrow> Layout list" where
  "layout_table g = take (g_layout_num g) (g_layouts g)"

text \<open>The payloads of the memory management ocalls (\<open>edmm/perm.rs\<close>, \<open>edmm/trim.rs\<close>).\<close>

datatype ocall_ms =
    ChangePermOcall usize usize nat
  | TrimRangeOcall usize usize
  | TrimRangeCommitOcall usize

record 'w platform =
  image_base :: usize
  global :: Global
  is_supported_edmm :: bool
  nr_ocall :: nat
  eaccept :: "64 word \<Rightarrow> usize \<Rightarrow> 'w \<Rightarrow> nat \<times> 'w"
  emodpe :: "64 word \<Rightarrow> usize \<Rightarrow> 'w \<Rightarrow> 'w"
  oc_allocate :: "'w \<Rightarrow> bool \<times> 'w"
  do_ocall :: "int \<Rightarrow> ocall_ms \<Rightarrow> 'w \<Rightarrow> nat \<times> 'w"

section \<open>Memory layout\<close>

definition layout_by_id :: "Layout list \<Rightarrow> 16 word \<Rightarrow> Layout option" where
  "layout_by_id table i = find (\<lambda>l. ly_id l = i) table"

text \<open>\<open>n << SE_PAGE_SHIFT\<close> on a 64 bit integer.\<close>

definition shl_page :: "nat \<Rightarrow> usize" where
  "shl_page n = (n * 2 ^ SE_PAGE_SHIFT) mod USIZE_LIMIT"

definition pages_of_id :: "'w platform \<Rightarrow> 16 word \<Rightarrow> usize" where
  "pages_of_id pf i =
     (case layout_by_id (layout_table (global pf)) i of
        Some l \<Rightarrow> shl_page (ly_page_count l)
      | None \<Rightarrow> 0)"

text \<open>
  \<open>Image::elrange_base\<close>: the loader may place the image inside a larger range; a mismatch with
  the linked address aborts the enclave.
\<close>

definition elrange_base :: "'w platform \<Rightarrow> usize option" where
  "elrange_base pf =
     (if g_enclave_image_base (global pf) \<noteq> 0 then
        if g_enclave_image_base (global pf) \<noteq> image_base pf then None
        else Some (g_elrange_start_base (global pf))
      else Some (image_base pf))"

definition elrange_size :: "'w platform \<Rightarrow> usize" where
  "elrange_size pf = g_elrange_size (global pf)"

definition heap_base :: "'w platform \<Rightarrow> usize" where
  "heap_base pf = wrapping_add (image_base pf) (g_heap_offset (global pf))"

definition heap_size :: "'w platform \<Rightarrow> usize" where
  "heap_size pf =
     (if is_supported_edmm pf
      then wrapping_add (g_heap_size (global pf)) (pages_of_id pf LAYOUT_ID_HEAP_MAX)
      else g_heap_size (global pf))"

definition heap_min_size :: "'w platform \<Rightarrow> usize" where
  "heap_min_size pf = pages_of_id pf LAYOUT_ID_HEAP_MIN"

definition rsrvmem_base :: "'w platform \<Rightarrow> usize" where
  "rsrvmem_base pf =
     (if g_rsrv_offset (global pf) \<noteq> 0
      then wrapping_add (image_base pf) (g_rsrv_offset (global pf)) else 0)"

definition rsrvmem_size :: "'w platform \<Rightarrow> usize" where
  "rsrvmem_size pf =
     (if g_rsrv_offset (global pf) = 0 then 0
      else if is_supported_edmm pf
      then wrapping_add (g_rsrv_size (global pf)) (pages_of_id pf LAYOUT_ID_RSRV_MAX)
      else g_rsrv_size (global pf))"

definition rsrvmem_min_size :: "'w platform \<Rightarrow> usize" where
  "rsrvmem_min_size pf =
     (if g_rsrv_offset (global pf) = 0 then 0 else pages_of_id pf LAYOUT_ID_RSRV_MIN)"

text \<open>\<open>RsrvMem::check\<close>, run once when the enclave starts.\<close>

definition rsrvmem_check :: "'w platform \<Rightarrow> bool" where
  "rsrvmem_check pf \<longleftrightarrow>
     (if rsrvmem_base pf = 0 then True
      else if \<not> (is_page_aligned (rsrvmem_base pf) \<and> is_page_aligned (rsrvmem_size pf)
                 \<and> is_page_aligned (rsrvmem_min_size pf)) then False
      else if rsrvmem_size pf > USIZE_LIMIT - 1 - rsrvmem_base pf then False
      else True)"

section \<open>Range checks\<close>

text \<open>The last byte of the range, if the range does not leave the address space.\<close>

definition range_end :: "usize \<Rightarrow> usize \<Rightarrow> usize option" where
  "range_end start len = (if len > 0 then checked_add start (len - 1) else Some start)"

definition is_within_enclave :: "'w platform \<Rightarrow> usize \<Rightarrow> usize \<Rightarrow> bool" where
  "is_within_enclave pf start len =
     (case range_end start len of
        None \<Rightarrow> False
      | Some fin \<Rightarrow>
          (case elrange_base pf of
             None \<Rightarrow> False
           | Some base \<Rightarrow>
               start \<le> fin \<and> start \<ge> base \<and> fin < wrapping_add base (elrange_size pf)))"

definition is_within_host :: "'w platform \<Rightarrow> usize \<Rightarrow> usize \<Rightarrow> bool" where
  "is_within_host pf start len =
     (case range_end start len of
        None \<Rightarrow> False
      | Some fin \<Rightarrow>
          (case elrange_base pf of
             None \<Rightarrow> False
           | Some base \<Rightarrow>
               start \<le> fin \<and>
               (fin < base \<or>
                start > wrapping_sub (wrapping_add base (elrange_size pf)) 1)))"

text \<open>
  A platform whose ELRANGE is a non-empty interval of the address space: what the loader
  guarantees, since ELRANGE is a power of two sized and aligned range.
\<close>

definition elrange_ok :: "'w platform \<Rightarrow> bool" where
  "elrange_ok pf \<longleftrightarrow>
     (case elrange_base pf of
        None \<Rightarrow> False
      | Some base \<Rightarrow> 0 < elrange_size pf \<and> base + elrange_size pf < USIZE_LIMIT)"

definition elrange :: "'w platform \<Rightarrow> usize set" where
  "elrange pf =
     (case elrange_base pf of None \<Rightarrow> {} | Some base \<Rightarrow> {base ..< base + elrange_size pf})"

lemma elrange_okE:
  assumes "elrange_ok pf"
  obtains base where "elrange_base pf = Some base" "0 < elrange_size pf"
    "base + elrange_size pf < USIZE_LIMIT" "elrange pf = {base ..< base + elrange_size pf}"
  using assms by (auto simp: elrange_ok_def elrange_def split: option.splits)

lemma is_within_enclave_iff:
  assumes "elrange_ok pf" "0 < len"
  shows "is_within_enclave pf start len \<longleftrightarrow> {start ..< start + len} \<subseteq> elrange pf"
proof -
  from assms(1) obtain base where b: "elrange_base pf = Some base" "0 < elrange_size pf"
    "base + elrange_size pf < USIZE_LIMIT" "elrange pf = {base ..< base + elrange_size pf}"
    by (rule elrange_okE)
  have w: "wrapping_add base (elrange_size pf) = base + elrange_size pf"
    using b(3) by (rule wrapping_add_small)
  have s: "{start ..< start + len} \<subseteq> elrange pf
      \<longleftrightarrow> base \<le> start \<and> start + len \<le> base + elrange_size pf"
    using assms(2) b(4) by (simp add: ivl_subset)
  show ?thesis
    using assms(2) b(3)
    by (auto simp: is_within_enclave_def range_end_def b(1) w s checked_add_def split: option.splits if_splits)
qed

lemma is_within_host_iff:
  assumes "elrange_ok pf" "0 < len" "start + len \<le> USIZE_LIMIT"
  shows "is_within_host pf start len \<longleftrightarrow> {start ..< start + len} \<inter> elrange pf = {}"
proof -
  from assms(1) obtain base where b: "elrange_base pf = Some base" "0 < elrange_size pf"
    "base + elrange_size pf < USIZE_LIMIT" "elrange pf = {base ..< base + elrange_size pf}"
    by (rule elrange_okE)
  have w: "wrapping_sub (wrapping_add base (elrange_size pf)) 1 = base + elrange_size pf - 1"
    using b(2,3) by (simp add: wrapping_add_small wrapping_sub_small)
  have s: "{start ..< start + len} \<inter> elrange pf = {}
      \<longleftrightarrow> start + len \<le> base \<or> base + elrange_size pf \<le> start"
    using assms(2) b(2,4) by (auto simp: disjoint_iff)
  have e: "range_end start len = Some (start + len - 1)"
    using assms(2,3) by (simp add: range_end_def)
  show ?thesis
    using assms(2) b(2) by (auto simp: is_within_host_def e b(1) w [unfolded One_nat_def] s)
qed

lemma is_within_host_no_wrap:
  "is_within_host pf start len \<Longrightarrow> 0 < len \<Longrightarrow> start + len \<le> USIZE_LIMIT"
  by (auto simp: is_within_host_def range_end_def split: option.splits)

section \<open>Ranges that may grow\<close>

record DynAttributes =
  dyn_flags :: "64 word"
  dyn_attr :: "16 word"

definition check_heap_dyn_range :: "'w platform \<Rightarrow> usize \<Rightarrow> nat \<Rightarrow> DynAttributes option" where
  "check_heap_dyn_range pf addr count =
     (let start = wrapping_add (heap_base pf) (heap_min_size pf);
          fin = wrapping_add start (wrapping_sub (heap_size pf) (heap_min_size pf))
      in if start = 0 \<or> fin = 0 then None
         else if addr \<ge> start \<and> wrapping_add addr (shl_page count) \<le> fin
         then Some \<lparr>dyn_flags = SI_FLAGS_RW, dyn_attr = PAGE_ATTR_POST_ADD\<rparr>
         else None)"

definition check_rsrv_dyn_range :: "'w platform \<Rightarrow> usize \<Rightarrow> nat \<Rightarrow> DynAttributes option" where
  "check_rsrv_dyn_range pf addr count =
     (let start = wrapping_add (rsrvmem_base pf) (rsrvmem_min_size pf);
          fin = wrapping_add start (wrapping_sub (rsrvmem_size pf) (rsrvmem_min_size pf))
      in if start = 0 \<or> fin = 0 then None
         else if addr \<ge> start \<and> wrapping_add addr (shl_page count) \<le> fin
         then Some \<lparr>dyn_flags = SI_FLAGS_RW, dyn_attr = PAGE_ATTR_POST_ADD\<rparr>
         else None)"

definition check_entry_dyn_range ::
    "'w platform \<Rightarrow> usize \<Rightarrow> nat \<Rightarrow> 16 word \<Rightarrow> usize \<Rightarrow> DynAttributes option" where
  "check_entry_dyn_range pf addr count i offset =
     (if \<not> (LAYOUT_ID_HEAP_MIN \<le> i \<and> i \<le> LAYOUT_ID_STACK_DYN_MIN) then None
      else case layout_by_id (layout_table (global pf)) i of
        None \<Rightarrow> None
      | Some layout \<Rightarrow>
          let start = wrapping_add (wrapping_add (image_base pf) (ly_rva layout)) offset;
              fin = wrapping_add start (shl_page (ly_page_count layout))
          in if addr \<ge> start \<and> wrapping_add addr (shl_page count) \<le> fin
             then Some \<lparr>dyn_flags = ly_si_flags layout, dyn_attr = ly_attributes layout\<rparr>
             else None)"

definition check_utility_tcs_dyn_stack ::
    "'w platform \<Rightarrow> usize \<Rightarrow> nat \<Rightarrow> DynAttributes option" where
  "check_utility_tcs_dyn_stack pf addr count =
     check_entry_dyn_range pf addr count LAYOUT_ID_STACK_MAX 0"

text \<open>The ids of the dynamic thread entries, \<open>LAYOUT_ID_TCS_DYN..=LAYOUT_ID_STACK_DYN_MIN\<close>.\<close>

definition dyn_thread_ids :: "16 word list" where
  "dyn_thread_ids = [14, 15, 16, 17, 18]"

text \<open>The attributes of the range, with the thread offset written to the out parameter.\<close>

definition check_dyn_range ::
    "'w platform \<Rightarrow> usize \<Rightarrow> nat \<Rightarrow> (DynAttributes \<times> usize option) option" where
  "check_dyn_range pf addr count =
     (if checked_add addr (shl_page count) = None then None
      else case check_heap_dyn_range pf addr count of
        Some attr \<Rightarrow> Some (attr, None)
      | None \<Rightarrow> (case check_utility_tcs_dyn_stack pf addr count of
        Some attr \<Rightarrow> Some (attr, None)
      | None \<Rightarrow> (case check_rsrv_dyn_range pf addr count of
        Some attr \<Rightarrow> Some (attr, None)
      | None \<Rightarrow> (case layout_by_id (layout_table (global pf)) LAYOUT_ID_THREAD_GROUP_DYN of
        Some layout \<Rightarrow>
          find_map (\<lambda>(i, k).
              map_option (\<lambda>attr. (attr, Some (wrapping_mul k (grp_load_step layout))))
                (check_entry_dyn_range pf addr count i (wrapping_mul k (grp_load_step layout))))
            [(i, k). i \<leftarrow> dyn_thread_ids, k \<leftarrow> [0 ..< grp_load_times layout + 1]]
      | None \<Rightarrow>
          find_map (\<lambda>i.
              map_option (\<lambda>attr. (attr, Some 0)) (check_entry_dyn_range pf addr count i 0))
            dyn_thread_ids))))"

section \<open>A recording platform\<close>

text \<open>
  A recording platform for concrete runs: the image at \<open>0x10000\<close> with sixteen pages of ELRANGE,
  a reserved region of eight pages of which two are committed by the loader, and a host that
  answers every request with success. The world is the list of the instructions and requests.
\<close>

datatype log_event = Eaccept "64 word" usize | Emodpe "64 word" usize | Host int ocall_ms

definition demo_global :: Global where
  "demo_global =
     \<lparr>g_enclave_size = 0x10000, g_heap_offset = 0x1000, g_heap_size = 0x1000,
      g_rsrv_offset = 0x4000, g_rsrv_size = 0x2000, g_rsrv_executable = 0,
      g_layout_num = 2,
      g_layouts =
        [\<lparr>ly_id = 20, ly_attributes = 3, ly_page_count = 2, ly_rva = 0x4000, ly_content_size = 0,
          ly_content_offset = 0, ly_si_flags = 0x203\<rparr>,
         \<lparr>ly_id = 22, ly_attributes = 8, ly_page_count = 6, ly_rva = 0x6000, ly_content_size = 0,
          ly_content_offset = 0, ly_si_flags = 0x203\<rparr>],
      g_enclave_image_base = 0, g_elrange_start_base = 0, g_elrange_size = 0x10000\<rparr>"

definition demo_platform :: "bool \<Rightarrow> log_event list platform" where
  "demo_platform edmm =
     \<lparr>image_base = 0x10000, global = demo_global, is_supported_edmm = edmm, nr_ocall = 4,
      eaccept = (\<lambda>si addr w. (0, w @ [Eaccept si addr])),
      emodpe = (\<lambda>si addr w. w @ [Emodpe si addr]),
      oc_allocate = (\<lambda>w. (True, w)),
      do_ocall = (\<lambda>i ms w. (0, w @ [Host i ms]))\<rparr>"

lemma demo_elrange_ok: "elrange_ok (demo_platform edmm)"
  by (simp add: elrange_ok_def elrange_base_def elrange_size_def demo_platform_def demo_global_def
      USIZE_LIMIT_def)

text \<open>
  C33: the range checks decide what they are named for. For a non-empty range,
  \<open>is_within_enclave\<close> answers whether every byte of it lies in the ELRANGE, and \<open>is_within_host\<close>
  whether it neither wraps around the address space nor meets the ELRANGE; no range passes both.
\<close>

theorem enclave_host_range_checks:
  assumes "elrange_ok pf" "0 < len"
  shows "(is_within_enclave pf start len \<longleftrightarrow> {start ..< start + len} \<subseteq> elrange pf)
    \<and> (is_within_host pf start len \<longleftrightarrow>
         start + len \<le> USIZE_LIMIT \<and> {start ..< start + len} \<inter> elrange pf = {})
    \<and> \<not> (is_within_enclave pf start len \<and> is_within_host pf start len)"
proof -
  let ?R = "{start ..< start + len}"
  have e: "is_within_enclave pf start len \<longleftrightarrow> ?R \<subseteq> elrange pf"
    by (rule is_within_enclave_iff [OF assms])
  have h: "is_within_host pf start len \<longleftrightarrow> start + len \<le> USIZE_LIMIT \<and> ?R \<inter> elrange pf = {}"
    using is_within_host_iff [OF assms] is_within_host_no_wrap [OF _ assms(2)] by blast
  have "?R \<noteq> {}" using assms(2) by simp
  then show ?thesis using e h by blast
qed

theorem enclave_host_range_checks_witness:
  "is_within_enclave (demo_platform True) 0x16000 0x2000
   \<and> \<not> is_within_host (demo_platform True) 0x16000 0x2000"
  using enclave_host_range_checks [of "demo_platform True" "0x2000" "0x16000", OF demo_elrange_ok]
  by (auto simp: elrange_def elrange_base_def elrange_size_def demo_platform_def demo_global_def)

end
