(* ===== verification/Edmm.thy ===== *)
theory Edmm
  imports Enclave_Mem
begin

unbundle bit_operations_syntax

text \<open>
  Dynamic memory management of the enclave (\<open>sgx_trts/src/edmm\<close>, the hardware build) and the
  exit to the host it uses (\<open>sgx_trts/src/call/ocall.rs\<close>): ranges of EPC pages with the
  \<open>EACCEPT\<close> and \<open>EMODPE\<close> loops over them, permission changes, and extending or trimming
  a dynamic range. Computations run over the state \<open>'w\<close> of the outside world.
\<close>

section \<open>Ocalls\<close>

datatype OCallIndex = OCall int | Trim | TrimCommit | Modpr | Mprotect

fun ocall_index :: "OCallIndex \<Rightarrow> int" where
  "ocall_index (OCall n) = n"
| "ocall_index Trim = -2"
| "ocall_index TrimCommit = -3"
| "ocall_index Modpr = -4"
| "ocall_index Mprotect = -5"

definition ocall_index_try_from :: "int \<Rightarrow> OCallIndex option" where
  "ocall_index_try_from v =
     (if v \<ge> 0 then Some (OCall v)
      else if v = -2 then Some Trim
      else if v = -3 then Some TrimCommit
      else if v = -4 then Some Modpr
      else if v = -5 then Some Mprotect
      else None)"

definition is_builtin_index :: "int \<Rightarrow> bool" where
  "is_builtin_index i \<longleftrightarrow> -5 \<le> i \<and> i \<le> -2"

fun is_builtin :: "OCallIndex \<Rightarrow> bool" where
  "is_builtin (OCall _) = False"
| "is_builtin _ = True"

fun is_ocall :: "OCallIndex \<Rightarrow> bool" where
  "is_ocall (OCall n) \<longleftrightarrow> n \<ge> 0"
| "is_ocall _ \<longleftrightarrow> False"

definition ocall :: "'w platform \<Rightarrow> OCallIndex \<Rightarrow> ocall_ms \<Rightarrow> ('w, SgxStatus, unit) rust" where
  "ocall pf idx ms =
     (let index = ocall_index idx in
      if index > 0 \<and> nat index \<ge> nr_ocall pf then bail Sgx_InvalidFunction
      else (\<lambda>w.
        case do_ocall pf index ms w of
          (code, w') \<Rightarrow>
            (let status = (case sgx_status_try_from code of Some st \<Rightarrow> st | None \<Rightarrow> Sgx_Unexpected)
             in if sgx_is_success status then (Ok (), w') else (Err status, w'))))"

text \<open>\<open>Box::try_new_in(ms, OcAlloc)\<close>: room for the payload on the untrusted stack.\<close>

definition oc_box :: "'w platform \<Rightarrow> ('w, SgxStatus, unit) rust" where
  "oc_box pf w = (case oc_allocate pf w of
                    (True, w') \<Rightarrow> (Ok (), w')
                  | (False, w') \<Rightarrow> (Err Sgx_OutOfMemory, w'))"

section \<open>Pages\<close>

datatype PageType = PT_Secs | PT_Tcs | PT_Reg | PT_Va | PT_Trim

primrec page_type_code :: "PageType \<Rightarrow> 64 word" where
  "page_type_code PT_Secs = 0"
| "page_type_code PT_Tcs = 1"
| "page_type_code PT_Reg = 2"
| "page_type_code PT_Va = 3"
| "page_type_code PT_Trim = 4"

definition PF_R :: "8 word" where "PF_R = 0x01"
definition PF_W :: "8 word" where "PF_W = 0x02"
definition PF_X :: "8 word" where "PF_X = 0x04"
definition PF_PENDING :: "8 word" where "PF_PENDING = 0x08"
definition PF_MODIFIED :: "8 word" where "PF_MODIFIED = 0x10"
definition PF_PR :: "8 word" where "PF_PR = 0x20"

definition page_flags_truncate :: "8 word \<Rightarrow> 8 word" where
  "page_flags_truncate bits =
     bits AND (PF_R OR PF_W OR PF_X OR PF_PENDING OR PF_MODIFIED OR PF_PR)"

record PageInfo =
  pi_typ :: PageType
  pi_flags :: "8 word"

definition SECINFO_ALL :: "64 word" where
  "SECINFO_ALL = 0xFF3F"

definition secinfo_of :: "PageInfo \<Rightarrow> 64 word" where
  "secinfo_of info =
     (push_bit 8 (page_type_code (pi_typ info)) OR ucast (pi_flags info)) AND SECINFO_ALL"

record EpcPage =
  pg_addr :: usize
  pg_info :: PageInfo

definition page_new :: "'w platform \<Rightarrow> usize \<Rightarrow> PageInfo \<Rightarrow> ('s, SgxStatus, EpcPage) rust" where
  "page_new pf addr info =
     seq (ensure (addr \<noteq> 0 \<and> is_within_enclave pf addr SE_PAGE_SIZE \<and> is_page_aligned addr)
           Sgx_InvalidParameter)
         (ret \<lparr>pg_addr = addr, pg_info = info\<rparr>)"

definition page_accept :: "'w platform \<Rightarrow> EpcPage \<Rightarrow> ('w, SgxStatus, unit) rust" where
  "page_accept pf pg w =
     (case eaccept pf (secinfo_of (pg_info pg)) (pg_addr pg) w of
        (error, w') \<Rightarrow> if error = 0 then (Ok (), w') else (Err Sgx_Unexpected, w'))"

definition page_modpe :: "'w platform \<Rightarrow> EpcPage \<Rightarrow> ('w, SgxStatus, unit) rust" where
  "page_modpe pf pg w = (Ok (), emodpe pf (secinfo_of (pg_info pg)) (pg_addr pg) w)"

section \<open>Page ranges\<close>

record PageRange =
  pr_addr :: usize
  pr_count :: nat
  pr_info :: PageInfo

definition page_range_new ::
    "'w platform \<Rightarrow> usize \<Rightarrow> nat \<Rightarrow> PageInfo \<Rightarrow> ('s, SgxStatus, PageRange) rust" where
  "page_range_new pf addr count info =
     (if addr \<noteq> 0 \<and> count \<noteq> 0
         \<and> is_within_enclave pf addr (wrapping_mul count SE_PAGE_SIZE)
         \<and> is_page_aligned addr
      then ret \<lparr>pr_addr = addr, pr_count = count, pr_info = info\<rparr>
      else bail Sgx_InvalidParameter)"

text \<open>The iterator over the pages of a range, from both ends.\<close>

record PageIter =
  it_head :: usize
  it_tail :: usize
  it_count :: nat
  it_info :: PageInfo

definition page_iter :: "PageRange \<Rightarrow> PageIter" where
  "page_iter r =
     \<lparr>it_head = pr_addr r,
      it_tail = wrapping_add (pr_addr r) (shl_page (pr_count r - 1)),
      it_count = pr_count r,
      it_info = pr_info r\<rparr>"

definition page_iter_next :: "PageIter \<Rightarrow> (EpcPage \<times> PageIter) option" where
  "page_iter_next it =
     (if it_count it = 0 then None
      else Some (\<lparr>pg_addr = it_head it, pg_info = it_info it\<rparr>,
                 it\<lparr>it_head := wrapping_add (it_head it) SE_PAGE_SIZE,
                    it_count := it_count it - 1\<rparr>))"

definition page_iter_next_back :: "PageIter \<Rightarrow> (EpcPage \<times> PageIter) option" where
  "page_iter_next_back it =
     (if it_count it = 0 then None
      else Some (\<lparr>pg_addr = it_tail it, pg_info = it_info it\<rparr>,
                 it\<lparr>it_tail := wrapping_sub (it_tail it) SE_PAGE_SIZE,
                    it_count := it_count it - 1\<rparr>))"

text \<open>The pages a \<open>for\<close> loop over the iterator, or over its reverse, visits.\<close>

function iter_pages :: "PageIter \<Rightarrow> EpcPage list" where
  "iter_pages it =
     (case page_iter_next it of None \<Rightarrow> [] | Some (pg, it') \<Rightarrow> pg # iter_pages it')"
  by pat_completeness auto
termination
  by (relation "measure it_count") (auto simp: page_iter_next_def split: if_splits)

function iter_pages_rev :: "PageIter \<Rightarrow> EpcPage list" where
  "iter_pages_rev it =
     (case page_iter_next_back it of None \<Rightarrow> [] | Some (pg, it') \<Rightarrow> pg # iter_pages_rev it')"
  by pat_completeness auto
termination
  by (relation "measure it_count") (auto simp: page_iter_next_back_def split: if_splits)

declare iter_pages.simps [simp del] iter_pages_rev.simps [simp del]

definition accept_forward :: "'w platform \<Rightarrow> PageRange \<Rightarrow> ('w, SgxStatus, unit) rust" where
  "accept_forward pf r = for_each (page_accept pf) (iter_pages (page_iter r))"

definition accept_backward :: "'w platform \<Rightarrow> PageRange \<Rightarrow> ('w, SgxStatus, unit) rust" where
  "accept_backward pf r = for_each (page_accept pf) (iter_pages_rev (page_iter r))"

definition range_modpe :: "'w platform \<Rightarrow> PageRange \<Rightarrow> ('w, SgxStatus, unit) rust" where
  "range_modpe pf r = for_each (page_modpe pf) (iter_pages (page_iter r))"

definition range_modify :: "'w platform \<Rightarrow> PageRange \<Rightarrow> ('w, SgxStatus, unit) rust" where
  "range_modify pf r =
     for_each (\<lambda>pg.
         and_then (attempt (page_modpe pf pg)) (\<lambda>_ :: SgxStatus + unit.
           if (pi_flags (pg_info pg) AND (PF_W OR PF_X)) \<noteq> (PF_W OR PF_X)
           then page_accept pf pg else ret ()))
       (iter_pages (page_iter r))"

section \<open>Permission changes and trimming through the host\<close>

datatype ProtectPerm = PP_None | PP_Read | PP_ReadWrite | PP_ReadExec | PP_ReadWriteExec

primrec protect_perm_bits :: "ProtectPerm \<Rightarrow> 8 word" where
  "protect_perm_bits PP_None = 0x0"
| "protect_perm_bits PP_Read = 0x1"
| "protect_perm_bits PP_ReadWrite = 0x3"
| "protect_perm_bits PP_ReadExec = 0x5"
| "protect_perm_bits PP_ReadWriteExec = 0x7"

definition pp_can_read :: "ProtectPerm \<Rightarrow> bool" where
  "pp_can_read p \<longleftrightarrow> p \<noteq> PP_None"

definition pp_can_write :: "ProtectPerm \<Rightarrow> bool" where
  "pp_can_write p \<longleftrightarrow> p \<notin> {PP_None, PP_Read, PP_ReadExec}"

definition pp_can_execute :: "ProtectPerm \<Rightarrow> bool" where
  "pp_can_execute p \<longleftrightarrow> p \<notin> {PP_None, PP_Read, PP_ReadWrite}"

definition modpr_ocall ::
    "'w platform \<Rightarrow> usize \<Rightarrow> nat \<Rightarrow> ProtectPerm \<Rightarrow> ('w, SgxStatus, unit) rust" where
  "modpr_ocall pf addr count perm =
     seq (oc_box pf)
         (ocall pf Modpr (ChangePermOcall addr (shl_page count) (unat (protect_perm_bits perm))))"

definition mprotect_ocall ::
    "'w platform \<Rightarrow> usize \<Rightarrow> nat \<Rightarrow> ProtectPerm \<Rightarrow> ('w, SgxStatus, unit) rust" where
  "mprotect_ocall pf addr count perm =
     seq (oc_box pf)
         (ocall pf Mprotect (ChangePermOcall addr (shl_page count) (unat (protect_perm_bits perm))))"

definition trim_range :: "'w platform \<Rightarrow> usize \<Rightarrow> nat \<Rightarrow> ('w, SgxStatus, unit) rust" where
  "trim_range pf addr count =
     seq (oc_box pf)
         (ocall pf Trim (TrimRangeOcall addr (wrapping_add addr (shl_page count))))"

definition trim_range_commit :: "'w platform \<Rightarrow> usize \<Rightarrow> nat \<Rightarrow> ('w, SgxStatus, unit) rust" where
  "trim_range_commit pf addr count =
     for_each (\<lambda>i.
         seq (oc_box pf)
             (ocall pf TrimCommit
                (TrimRangeCommitOcall (wrapping_add addr (wrapping_mul i SE_PAGE_SHIFT)))))
       [0 ..< count]"

section \<open>Extending and trimming dynamic ranges\<close>

definition apply_epc_pages :: "'w platform \<Rightarrow> usize \<Rightarrow> nat \<Rightarrow> ('w, SgxStatus, unit) rust" where
  "apply_epc_pages pf addr count =
     seq (ensure (addr \<noteq> 0 \<and> count \<noteq> 0) Sgx_InvalidParameter)
         (case check_dyn_range pf addr count of
            Some (attr, _) \<Rightarrow>
              and_then (page_range_new pf addr count
                          \<lparr>pi_typ = PT_Reg, pi_flags = PF_R OR PF_W OR PF_PENDING\<rparr>)
                (\<lambda>pages.
                   if dyn_attr attr AND PAGE_DIR_GROW_DOWN = 0
                   then accept_forward pf pages
                   else accept_backward pf pages)
          | None \<Rightarrow> bail Sgx_InvalidParameter)"

definition trim_epc_pages :: "'w platform \<Rightarrow> usize \<Rightarrow> nat \<Rightarrow> ('w, SgxStatus, unit) rust" where
  "trim_epc_pages pf addr count =
     seq (ensure (addr \<noteq> 0 \<and> count \<noteq> 0) Sgx_InvalidParameter)
    (seq (ok_or (check_dyn_range pf addr count) Sgx_InvalidParameter)
    (seq (trim_range pf addr count)
    (and_then (page_range_new pf addr count \<lparr>pi_typ = PT_Trim, pi_flags = PF_MODIFIED\<rparr>) (\<lambda>pages.
     seq (accept_forward pf pages)
         (trim_range_commit pf addr count)))))"

definition expand_stack_epc_pages :: "'w platform \<Rightarrow> usize \<Rightarrow> nat \<Rightarrow> ('w, SgxStatus, unit) rust" where
  "expand_stack_epc_pages pf addr count =
     seq (ensure (addr \<noteq> 0 \<and> count \<noteq> 0) Sgx_InvalidParameter)
    (seq (ok_or (check_dyn_range pf addr count) Sgx_InvalidParameter)
    (and_then (page_range_new pf addr count
                 \<lparr>pi_typ = PT_Reg, pi_flags = PF_R OR PF_W OR PF_PENDING\<rparr>)
       (\<lambda>pages. accept_forward pf pages)))"

section \<open>Page iteration\<close>

definition page_at :: "PageRange \<Rightarrow> nat \<Rightarrow> EpcPage" where
  "page_at r i = \<lparr>pg_addr = pr_addr r + i * SE_PAGE_SIZE, pg_info = pr_info r\<rparr>"

lemma iter_pages_empty: "it_count it = 0 \<Longrightarrow> iter_pages it = []"
  by (subst iter_pages.simps) (simp add: page_iter_next_def)

lemma iter_pages_rev_empty: "it_count it = 0 \<Longrightarrow> iter_pages_rev it = []"
  by (subst iter_pages_rev.simps) (simp add: page_iter_next_back_def)

lemma iter_pages_eq:
  assumes "it_head it + it_count it * SE_PAGE_SIZE < USIZE_LIMIT"
  shows "iter_pages it =
    map (\<lambda>i. \<lparr>pg_addr = it_head it + i * SE_PAGE_SIZE, pg_info = it_info it\<rparr>) [0 ..< it_count it]"
  using assms
proof (induction "it_count it" arbitrary: it)
  case 0
  then show ?case by (simp add: iter_pages_empty)
next
  case (Suc n)
  define it' where "it' = it\<lparr>it_head := it_head it + SE_PAGE_SIZE, it_count := n\<rparr>"
  have c: "it_count it = Suc n" using Suc.hyps(2) by simp
  have w: "wrapping_add (it_head it) SE_PAGE_SIZE = it_head it + SE_PAGE_SIZE"
    using Suc.prems c by (intro wrapping_add_small) simp
  have nx: "page_iter_next it = Some (\<lparr>pg_addr = it_head it, pg_info = it_info it\<rparr>, it')"
    by (simp add: page_iter_next_def c w it'_def)
  have "iter_pages it' =
      map (\<lambda>i. \<lparr>pg_addr = it_head it' + i * SE_PAGE_SIZE, pg_info = it_info it'\<rparr>) [0 ..< it_count it']"
    using Suc.prems c by (intro Suc.hyps(1)) (simp_all add: it'_def)
  then show ?case
    by (simp add: iter_pages.simps [of it] nx c it'_def upt_conv_Cons map_Suc_upt [symmetric]
        algebra_simps del: upt_Suc)
qed

lemma iter_pages_rev_eq:
  assumes "it_tail it < USIZE_LIMIT" "it_count it * SE_PAGE_SIZE \<le> it_tail it + SE_PAGE_SIZE"
  shows "iter_pages_rev it =
    map (\<lambda>i. \<lparr>pg_addr = it_tail it - i * SE_PAGE_SIZE, pg_info = it_info it\<rparr>) [0 ..< it_count it]"
  using assms
proof (induction "it_count it" arbitrary: it)
  case 0
  then show ?case by (simp add: iter_pages_rev_empty)
next
  case (Suc n)
  define it' where "it' = it\<lparr>it_tail := wrapping_sub (it_tail it) SE_PAGE_SIZE, it_count := n\<rparr>"
  have c: "it_count it = Suc n" using Suc.hyps(2) by simp
  have nx: "page_iter_next_back it = Some (\<lparr>pg_addr = it_tail it, pg_info = it_info it\<rparr>, it')"
    by (simp add: page_iter_next_back_def c it'_def)
  show ?case
  proof (cases "n = 0")
    case True
    then show ?thesis
      by (simp add: iter_pages_rev.simps [of it] nx c iter_pages_rev_empty it'_def)
  next
    case False
    have "SE_PAGE_SIZE \<le> n * SE_PAGE_SIZE" using False by simp
    also have "\<dots> \<le> it_tail it" using Suc.prems(2) c by simp
    finally have le: "SE_PAGE_SIZE \<le> it_tail it" .
    have w: "wrapping_sub (it_tail it) SE_PAGE_SIZE = it_tail it - SE_PAGE_SIZE"
      using le Suc.prems(1) by (intro wrapping_sub_small)
    have "iter_pages_rev it' =
      map (\<lambda>i. \<lparr>pg_addr = it_tail it' - i * SE_PAGE_SIZE, pg_info = it_info it'\<rparr>) [0 ..< it_count it']"
      using Suc.prems c le by (intro Suc.hyps(1)) (simp_all add: it'_def w)
    then show ?thesis
      by (simp add: iter_pages_rev.simps [of it] nx c it'_def w upt_conv_Cons
          map_Suc_upt [symmetric] del: upt_Suc)
  qed
qed

lemma iter_pages_page_iter:
  assumes "pr_addr r + pr_count r * SE_PAGE_SIZE < USIZE_LIMIT"
  shows "iter_pages (page_iter r) = map (page_at r) [0 ..< pr_count r]"
  using iter_pages_eq [of "page_iter r"] assms
  by (simp add: page_iter_def page_at_def [abs_def])

lemma iter_pages_rev_page_iter:
  assumes "pr_addr r + pr_count r * SE_PAGE_SIZE < USIZE_LIMIT"
  shows "iter_pages_rev (page_iter r) = rev (map (page_at r) [0 ..< pr_count r])"
proof (cases "pr_count r")
  case 0
  then show ?thesis by (simp add: iter_pages_rev_empty page_iter_def)
next
  case (Suc n)
  have s: "shl_page n = n * SE_PAGE_SIZE"
    using assms Suc by (simp add: shl_page_def SE_PAGE_SHIFT_def SE_PAGE_SIZE_def)
  have t: "it_tail (page_iter r) = pr_addr r + n * SE_PAGE_SIZE"
    using assms Suc by (simp add: page_iter_def s wrapping_add_small)
  have "iter_pages_rev (page_iter r) =
      map (\<lambda>i. \<lparr>pg_addr = pr_addr r + n * SE_PAGE_SIZE - i * SE_PAGE_SIZE, pg_info = pr_info r\<rparr>)
        [0 ..< Suc n]"
    using iter_pages_rev_eq [of "page_iter r"] assms Suc t
    by (simp add: page_iter_def del: upt_Suc)
  also have "\<dots> = rev (map (page_at r) [0 ..< Suc n])"
    by (rule nth_equalityI)
      (simp_all add: rev_nth page_at_def nth_append diff_mult_distrib del: upt_Suc)
  finally show ?thesis by (simp add: Suc del: upt_Suc)
qed

section \<open>Properties\<close>

lemma page_range_new_Ok:
  assumes "elrange_ok pf" "count < 2 ^ 52" "page_range_new pf addr count info w = (Ok r, w')"
  shows "w' = w" "r = \<lparr>pr_addr = addr, pr_count = count, pr_info = info\<rparr>"
    "{addr ..< addr + count * SE_PAGE_SIZE} \<subseteq> elrange pf" "0 < count"
    "addr + count * SE_PAGE_SIZE < USIZE_LIMIT"
proof -
  have m: "wrapping_mul count SE_PAGE_SIZE = count * SE_PAGE_SIZE"
    using assms(2) by (simp add: wrapping_mul_def SE_PAGE_SIZE_def USIZE_LIMIT_def)
  from assms(3) have c: "0 < count" "is_within_enclave pf addr (count * SE_PAGE_SIZE)"
    and "w' = w" "r = \<lparr>pr_addr = addr, pr_count = count, pr_info = info\<rparr>"
    by (auto simp: page_range_new_def m split: if_splits)
  then show "w' = w" "r = \<lparr>pr_addr = addr, pr_count = count, pr_info = info\<rparr>" "0 < count"
    by simp_all
  have pos: "0 < count * SE_PAGE_SIZE" using c(1) by (simp add: SE_PAGE_SIZE_def)
  show sub: "{addr ..< addr + count * SE_PAGE_SIZE} \<subseteq> elrange pf"
    using is_within_enclave_iff [OF assms(1) pos] c(2) by simp
  from assms(1) obtain base where b: "base + elrange_size pf < USIZE_LIMIT"
    "elrange pf = {base ..< base + elrange_size pf}"
    by (rule elrange_okE)
  have "addr + count * SE_PAGE_SIZE \<le> base + elrange_size pf"
    using sub pos by (simp add: b(2) ivl_subset)
  then show "addr + count * SE_PAGE_SIZE < USIZE_LIMIT" using b(1) by simp
qed


lemma demo_apply_epc_pages:
  "apply_epc_pages (demo_platform True) 0x16000 2 []
     = (Ok (), [Eaccept 0x20B 0x16000, Eaccept 0x20B 0x17000])"
  by code_simp


text \<open>
  C34: committing a trim reports the wrong pages to the host. \<open>trim_range_commit\<close> advances by the
  page shift, 12, where the pages are 4096 bytes apart: on every platform, the addresses it sends for \<open>count\<close> pages from a
  page aligned \<open>addr\<close> are \<open>addr + 12 * i\<close>, and only one in 1024 of them is the address of a page. So of the pages in the range only every third
  of the first 3/1024 is reported, and for up to 1024 pages only the first one.
\<close>

theorem trim_range_commit_addresses:
  assumes "is_page_aligned addr" "addr + 12 * count \<le> USIZE_LIMIT"
  shows "trim_range_commit pf addr count w
      = for_each (\<lambda>a. seq (oc_box pf) (ocall pf TrimCommit (TrimRangeCommitOcall a))) (map (\<lambda>i. addr + 12 * i) [0 ..< count]) w
    \<and> {a \<in> (\<lambda>i. addr + 12 * i) ` {0 ..< count}. is_page_aligned a}
      = (\<lambda>k. addr + 3 * SE_PAGE_SIZE * k) ` {k. 1024 * k < count}"
proof
  have "wrapping_add addr (wrapping_mul i SE_PAGE_SHIFT) = addr + 12 * i" if "i < count" for i
  proof -
    have "addr + 12 * i < USIZE_LIMIT" using assms(2) that by simp
    then show ?thesis by (simp add: wrapping_mul_def wrapping_add_small SE_PAGE_SHIFT_def mult.commute)
  qed
  then show "trim_range_commit pf addr count w
      = for_each (\<lambda>a. seq (oc_box pf) (ocall pf TrimCommit (TrimRangeCommitOcall a))) (map (\<lambda>i. addr + 12 * i) [0 ..< count]) w"
    unfolding trim_range_commit_def for_each_map by (intro fun_cong [OF for_each_cong]) simp_all
  have aligned: "is_page_aligned (addr + 12 * i) \<longleftrightarrow> 1024 dvd i" for i
  proof -
    have "4096 dvd 12 * i \<longleftrightarrow> 4 * 1024 dvd 4 * (3 * i)" by simp
    also have "\<dots> \<longleftrightarrow> 1024 dvd 3 * i" by (subst nat_mult_dvd_cancel1) simp_all
    also have "\<dots> \<longleftrightarrow> 1024 dvd i"
      using coprime_dvd_mult_right_iff [of "1024 :: nat" 3 i] by (simp add: coprime_iff_gcd_eq_1 gcd_non_0_nat)
    finally have "4096 dvd 12 * i \<longleftrightarrow> 1024 dvd i" .
    then show ?thesis using assms(1) by (simp add: page_aligned_dvd dvd_add_right_iff)
  qed
  have "{a \<in> (\<lambda>i. addr + 12 * i) ` {0 ..< count}. is_page_aligned a} = (\<lambda>i. addr + 12 * i) ` {i. i < count \<and> 1024 dvd i}"
    by (auto simp: aligned)
  also have "{i. i < count \<and> 1024 dvd i} = (\<lambda>k. 1024 * k) ` {k. 1024 * k < count}" by (auto elim: dvdE)
  finally show "{a \<in> (\<lambda>i. addr + 12 * i) ` {0 ..< count}. is_page_aligned a}
      = (\<lambda>k. addr + 3 * SE_PAGE_SIZE * k) ` {k. 1024 * k < count}"
    by (simp add: image_image SE_PAGE_SIZE_def)
qed

theorem trim_range_commit_addresses_witness:
  "is_page_aligned 0x16000
   \<and> trim_range_commit (demo_platform True) 0x16000 2 []
       = (Ok (), [Host (ocall_index TrimCommit) (TrimRangeCommitOcall 0x16000),
                  Host (ocall_index TrimCommit) (TrimRangeCommitOcall 0x1600C)])
   \<and> {a \<in> (\<lambda>i. 0x16000 + 12 * i) ` {0 ..< 2}. is_page_aligned a} = {0x16000}"
proof -
  have "is_page_aligned 0x16000" by (simp add: is_page_aligned_iff)
  moreover have "{k. 1024 * k < (2 :: nat)} = {0}" by auto
  moreover note trim_range_commit_addresses [of "0x16000" 2 "demo_platform True" "[]"]
  ultimately show ?thesis
    by (simp add: USIZE_LIMIT_def upt_rec and_then_def seq_def ret_def oc_box_def ocall_def
        demo_platform_def sgx_status_try_from_def sgx_status_codes_def sgx_is_success_def)
qed

end
