(* ===== verification/Mm_Range.thy ===== *)
theory Mm_Range
  imports Status
begin

text \<open>
  Address ranges of the reserved memory manager (\<open>sgx_rsrvmm/src/rsrvmm/range.rs\<close>). The denotation
  of a range is the set of the addresses it covers (\<open>addrs\<close>); the lemmas relate every operation to
  the operation on sets.
\<close>

section \<open>Operations\<close>

record MmRange =
  r_start :: usize
  r_end :: usize

definition range_new :: "usize \<Rightarrow> usize \<Rightarrow> ('s, errno, MmRange) rust" where
  "range_new start fin =
     seq (ensure (is_page_aligned start \<and> is_page_aligned fin) EINVAL)
         (ret \<lparr>r_start = start, r_end = fin\<rparr>)"

definition range_new_with_size :: "usize \<Rightarrow> usize \<Rightarrow> ('s, errno, MmRange) rust" where
  "range_new_with_size start sz =
     seq (ensure (is_page_aligned start \<and> is_page_aligned sz) EINVAL)
         (and_then (ok_or (checked_add start sz) EINVAL)
            (\<lambda>fin. ret \<lparr>r_start = start, r_end = fin\<rparr>))"

definition range_new_empty :: "usize \<Rightarrow> ('s, errno, MmRange) rust" where
  "range_new_empty start =
     seq (ensure (is_page_aligned start) EINVAL)
         (ret \<lparr>r_start = start, r_end = start\<rparr>)"

text \<open>The checks of \<open>from_unchecked\<close> are debug assertions only.\<close>

definition range_from_unchecked :: "usize \<Rightarrow> usize \<Rightarrow> MmRange" where
  "range_from_unchecked start fin = \<lparr>r_start = start, r_end = fin\<rparr>"

definition range_size :: "MmRange \<Rightarrow> usize" where
  "range_size r = wrapping_sub (r_end r) (r_start r)"

definition range_resize :: "MmRange \<Rightarrow> usize \<Rightarrow> ('s, 'e, MmRange) rust" where
  "range_resize r sz =
     (if sz = 0 then ret (r\<lparr>r_end := r_start r\<rparr>)
      else seq (rassert (is_page_aligned sz))
             (case checked_add (r_start r) sz of
                Some fin \<Rightarrow> ret (r\<lparr>r_end := fin\<rparr>)
              | None \<Rightarrow> panic))"

definition range_add_size :: "MmRange \<Rightarrow> usize \<Rightarrow> ('s, 'e, MmRange) rust" where
  "range_add_size r sz =
     (if sz = 0 then ret r
      else seq (rassert (is_page_aligned sz))
             (case checked_add (r_end r) sz of
                Some fin \<Rightarrow> ret (r\<lparr>r_end := fin\<rparr>)
              | None \<Rightarrow> panic))"

definition range_sub_size :: "MmRange \<Rightarrow> usize \<Rightarrow> ('s, 'e, MmRange) rust" where
  "range_sub_size r sz =
     (if sz = 0 then ret r
      else seq (rassert (is_page_aligned sz))
             (if sz \<le> range_size r then ret (r\<lparr>r_end := wrapping_sub (r_end r) sz\<rparr>)
              else ret r))"

definition range_set_start :: "MmRange \<Rightarrow> usize \<Rightarrow> ('s, 'e, MmRange) rust" where
  "range_set_start r start =
     seq (rassert (is_page_aligned start \<and> start \<le> r_end r)) (ret (r\<lparr>r_start := start\<rparr>))"

definition range_set_end :: "MmRange \<Rightarrow> usize \<Rightarrow> ('s, 'e, MmRange) rust" where
  "range_set_end r fin =
     seq (rassert (is_page_aligned fin \<and> fin \<ge> r_start r)) (ret (r\<lparr>r_end := fin\<rparr>))"

definition range_is_empty :: "MmRange \<Rightarrow> bool" where
  "range_is_empty r \<longleftrightarrow> r_start r = r_end r"

definition is_superset_of :: "MmRange \<Rightarrow> MmRange \<Rightarrow> bool" where
  "is_superset_of r other \<longleftrightarrow> r_start r \<le> r_start other \<and> r_end other \<le> r_end r"

definition range_contains :: "MmRange \<Rightarrow> usize \<Rightarrow> bool" where
  "range_contains r addr \<longleftrightarrow> r_start r \<le> addr \<and> addr < r_end r"

definition contiguous_with :: "MmRange \<Rightarrow> MmRange \<Rightarrow> bool" where
  "contiguous_with r other \<longleftrightarrow>
     max (r_start r) (r_start other) = min (r_end r) (r_end other)"

definition overlap_with :: "MmRange \<Rightarrow> MmRange \<Rightarrow> bool" where
  "overlap_with r other \<longleftrightarrow>
     max (r_start r) (r_start other) < min (r_end r) (r_end other)"

definition range_intersect :: "MmRange \<Rightarrow> MmRange \<Rightarrow> MmRange option" where
  "range_intersect r other =
     (let intersection_start = max (r_start r) (r_start other);
          intersection_end = min (r_end r) (r_end other)
      in if intersection_start \<ge> intersection_end then None
         else Some (range_from_unchecked intersection_start intersection_end))"

definition range_subtract :: "MmRange \<Rightarrow> MmRange \<Rightarrow> MmRange list" where
  "range_subtract r other =
     (if range_is_empty r then []
      else case range_intersect r other of
        None \<Rightarrow> [r]
      | Some intersection \<Rightarrow>
          (case (r_start r < r_start intersection, r_end intersection < r_end r) of
             (False, False) \<Rightarrow> []
           | (False, True) \<Rightarrow> [range_from_unchecked (r_end intersection) (r_end r)]
           | (True, False) \<Rightarrow> [range_from_unchecked (r_start r) (r_start intersection)]
           | (True, True) \<Rightarrow>
               [range_from_unchecked (r_start r) (r_start intersection),
                range_from_unchecked (r_end intersection) (r_end r)]))"

lemmas range_defs =
  range_from_unchecked_def range_is_empty_def is_superset_of_def range_contains_def
  contiguous_with_def overlap_with_def range_intersect_def range_subtract_def

section \<open>Denotation and well-formedness\<close>

definition addrs :: "MmRange \<Rightarrow> usize set" where
  "addrs r = {r_start r ..< r_end r}"

definition wf_range :: "MmRange \<Rightarrow> bool" where
  "wf_range r \<longleftrightarrow> r_start r \<le> r_end r \<and> r_end r < USIZE_LIMIT
     \<and> is_page_aligned (r_start r) \<and> is_page_aligned (r_end r)"

lemma range_size_eq [simp]:
  "r_start r \<le> r_end r \<Longrightarrow> r_end r < USIZE_LIMIT \<Longrightarrow> range_size r = r_end r - r_start r"
  by (simp add: range_size_def wrapping_sub_small)

lemma wf_range_size: "wf_range r \<Longrightarrow> range_size r = r_end r - r_start r"
  by (simp add: wf_range_def)

lemma range_contains_iff [simp]: "range_contains r a \<longleftrightarrow> a \<in> addrs r"
  by (simp add: range_contains_def addrs_def)

lemma addrs_empty_iff: "addrs r = {} \<longleftrightarrow> r_end r \<le> r_start r"
  by (auto simp: addrs_def not_less)

lemma is_superset_of_addrs:
  "is_superset_of r other \<Longrightarrow> addrs other \<subseteq> addrs r"
  by (auto simp: is_superset_of_def addrs_def)

lemma overlap_with_iff: "overlap_with r other \<longleftrightarrow> addrs r \<inter> addrs other \<noteq> {}"
  by (auto simp: overlap_with_def addrs_def)

lemma range_intersect_None: "range_intersect r other = None \<longleftrightarrow> addrs r \<inter> addrs other = {}"
  by (auto simp: range_intersect_def addrs_def Let_def)

lemma range_intersect_Some:
  assumes "range_intersect r other = Some i"
  shows "addrs i = addrs r \<inter> addrs other" "addrs i \<noteq> {}"
    "r_start i = max (r_start r) (r_start other)" "r_end i = min (r_end r) (r_end other)"
    "r_start i < r_end i" "is_superset_of r i" "is_superset_of other i"
  using assms
  by (auto simp: range_intersect_def addrs_def Let_def range_from_unchecked_def
      is_superset_of_def split: if_splits)

lemma wf_range_intersect:
  assumes "range_intersect r other = Some i" "wf_range r" "wf_range other"
  shows "wf_range i"
  using range_intersect_Some [OF assms(1)] assms(2,3) by (auto simp: wf_range_def max_def min_def)

lemma contiguous_with_iff:
  assumes "r_start a < r_end a" "r_start b < r_end b"
  shows "contiguous_with a b \<longleftrightarrow> r_end a = r_start b \<or> r_end b = r_start a"
  using assms by (auto simp: contiguous_with_def max_def min_def)

lemma range_subtract_cases:
  assumes "r_start r < r_end r"
  shows "range_subtract r other =
    (if addrs r \<inter> addrs other = {} then [r]
     else filter (\<lambda>x. r_start x < r_end x)
        [\<lparr>r_start = r_start r, r_end = max (r_start r) (r_start other)\<rparr>,
         \<lparr>r_start = min (r_end r) (r_end other), r_end = r_end r\<rparr>])"
proof (cases "range_intersect r other")
  case None
  then show ?thesis
    using assms None range_intersect_None [of r other]
    by (simp add: range_subtract_def range_is_empty_def)
next
  case (Some i)
  note i = range_intersect_Some [OF Some]
  have "addrs r \<inter> addrs other \<noteq> {}" using i by simp
  then show ?thesis
    using assms i(3,4)
    by (simp add: range_subtract_def range_is_empty_def Some range_from_unchecked_def
        split: bool.split)
qed

lemma addrs_range_subtract:
  assumes "r_start r \<le> r_end r"
  shows "(\<Union>x \<in> set (range_subtract r other). addrs x) = addrs r - addrs other"
proof (cases "r_start r < r_end r")
  case True
  then show ?thesis by (auto simp: range_subtract_cases addrs_def max_def min_def)
next
  case False
  then show ?thesis using assms by (simp add: range_subtract_def range_is_empty_def addrs_def)
qed

lemma range_subtract_props:
  assumes "r_start r \<le> r_end r" "x \<in> set (range_subtract r other)"
  shows "is_superset_of r x" "r_start x < r_end x"
    "r_start x = r_start r \<or> r_start x = r_end other"
    "r_end x = r_end r \<or> r_end x = r_start other"
proof -
  have "r_start r < r_end r"
    using assms by (auto simp: range_subtract_def range_is_empty_def split: if_splits)
  then show "is_superset_of r x" "r_start x < r_end x"
    "r_start x = r_start r \<or> r_start x = r_end other"
    "r_end x = r_end r \<or> r_end x = r_start other"
    using assms
    by (auto simp: range_subtract_cases is_superset_of_def addrs_def max_def min_def split: if_splits)
qed

lemma wf_range_subtract:
  assumes "wf_range r" "wf_range other" "x \<in> set (range_subtract r other)"
  shows "wf_range x"
proof -
  have le: "r_start r \<le> r_end r" using assms(1) by (simp add: wf_range_def)
  note p = range_subtract_props [OF le assms(3)]
  have "r_end x \<le> r_end r" using p(1) by (simp add: is_superset_of_def)
  then show ?thesis using assms(1,2) p(2-4) by (auto simp: wf_range_def)
qed

text \<open>The pieces come out in increasing order with a gap where \<open>other\<close> was.\<close>

lemma range_subtract_sorted:
  assumes "r_start r \<le> r_end r"
  shows "sorted_wrt (\<lambda>a b. r_end a \<le> r_start b) (range_subtract r other)"
proof (cases "r_start r < r_end r")
  case True
  then show ?thesis by (auto simp: range_subtract_cases addrs_def disjoint_iff max_def min_def)
next
  case False
  then show ?thesis using assms by (simp add: range_subtract_def range_is_empty_def)
qed

section \<open>Outcomes of the partial operations\<close>

lemma range_new_with_size_Ok_iff:
  "range_new_with_size start sz s = (Ok r, s') \<longleftrightarrow>
     is_page_aligned start \<and> is_page_aligned sz \<and> start + sz < USIZE_LIMIT
     \<and> r = \<lparr>r_start = start, r_end = start + sz\<rparr> \<and> s' = s"
  by (auto simp: range_new_with_size_def Ok_iffs)

lemma range_new_with_size_Ok:
  assumes "range_new_with_size start sz s = (Ok r, s')"
  shows "wf_range r" "r = \<lparr>r_start = start, r_end = start + sz\<rparr>" "s' = s"
  using assms by (auto simp: range_new_with_size_Ok_iff wf_range_def)

lemma range_set_end_ok:
  "is_page_aligned e \<Longrightarrow> r_start r \<le> e \<Longrightarrow> range_set_end r e = ret (r\<lparr>r_end := e\<rparr>)"
  by (simp add: range_set_end_def rust_defs fun_eq_iff)

lemma range_set_start_ok:
  "is_page_aligned a \<Longrightarrow> a \<le> r_end r \<Longrightarrow> range_set_start r a = ret (r\<lparr>r_start := a\<rparr>)"
  by (simp add: range_set_start_def rust_defs fun_eq_iff)

lemma range_resize_ok:
  "is_page_aligned n \<Longrightarrow> r_start r + n < USIZE_LIMIT
    \<Longrightarrow> range_resize r n = ret (r\<lparr>r_end := r_start r + n\<rparr>)"
  by (auto simp: range_resize_def rust_defs fun_eq_iff checked_add_def)

lemma range_add_size_ok:
  "is_page_aligned n \<Longrightarrow> r_end r + n < USIZE_LIMIT
    \<Longrightarrow> range_add_size r n = ret (r\<lparr>r_end := r_end r + n\<rparr>)"
  by (auto simp: range_add_size_def rust_defs fun_eq_iff checked_add_def)

lemma range_sub_size_ok:
  assumes "is_page_aligned n" "wf_range r" "r_start r + n \<le> r_end r"
  shows "range_sub_size r n = ret (r\<lparr>r_end := r_end r - n\<rparr>)"
proof -
  have "wrapping_sub (r_end r) n = r_end r - n"
    using assms by (intro wrapping_sub_small) (auto simp: wf_range_def)
  then show ?thesis
    using assms by (auto simp: range_sub_size_def rust_defs fun_eq_iff wf_range_size)
qed

end
