(* ===== verification/Mm_Area.thy ===== *)
theory Mm_Area
  imports Edmm Mm_Range
begin

unbundle bit_operations_syntax

text \<open>
  Areas of reserved memory (\<open>sgx_rsrvmm/src/rsrvmm/area.rs\<close>) and the objects that can be mapped
  into them (\<open>sgx_rsrvmm/src/map.rs\<close>). An object behind \<open>Arc<dyn Map>\<close> is the address of its
  allocation; its methods are user code, the parameter \<open>map_ops\<close>. The three implementations of the
  trait in the crate (\<open>Zero\<close>, \<open>Nothing\<close> and \<open>()\<close>) are definitions.

  Computations run over a machine: the bytes of the enclave's memory and the outside world.
\<close>

section \<open>Machine\<close>

record 'w machine =
  memory :: "usize \<Rightarrow> byte"
  outside :: 'w

definition on_world :: "('w, 'e, 'a) rust \<Rightarrow> ('w machine, 'e, 'a) rust" where
  "on_world m = zoom outside (\<lambda>w s. s\<lparr>outside := w\<rparr>) m"

definition ignore :: "('s, 'e, 'a) rust \<Rightarrow> ('s, 'f, unit) rust" where
  "ignore m = and_then (attempt m) (\<lambda>_. ret ())"

text \<open>\<open>slice::from_raw_parts(start, len)\<close> and storing back through a mutable slice.\<close>

definition mem_read :: "(usize \<Rightarrow> byte) \<Rightarrow> usize \<Rightarrow> nat \<Rightarrow> byte list" where
  "mem_read mem start len = map mem [start ..< start + len]"

definition mem_write :: "(usize \<Rightarrow> byte) \<Rightarrow> usize \<Rightarrow> byte list \<Rightarrow> (usize \<Rightarrow> byte)" where
  "mem_write mem start bs =
     (\<lambda>a. if start \<le> a \<and> a < start + length bs then bs ! (a - start) else mem a)"

section \<open>Mapped objects\<close>

record 'w map_ops =
  map_read_at :: "nat \<Rightarrow> byte list \<Rightarrow> usize \<Rightarrow> 'w \<Rightarrow> ((errno, usize) res \<times> byte list) \<times> 'w"
  map_write_at :: "nat \<Rightarrow> byte list \<Rightarrow> usize \<Rightarrow> 'w \<Rightarrow> (errno, usize) res \<times> 'w"
  map_flush :: "nat \<Rightarrow> 'w \<Rightarrow> (errno, unit) res \<times> 'w"

definition zero_read_at ::
    "byte list \<Rightarrow> usize \<Rightarrow> 'w \<Rightarrow> ((errno, usize) res \<times> byte list) \<times> 'w" where
  "zero_read_at buf offset w = ((Ok (length buf), replicate (length buf) 0), w)"

definition zero_write_at :: "byte list \<Rightarrow> usize \<Rightarrow> 'w \<Rightarrow> (errno, usize) res \<times> 'w" where
  "zero_write_at buf offset w = (Ok (length buf), w)"

definition zero_flush :: "'w \<Rightarrow> (errno, unit) res \<times> 'w" where
  "zero_flush w = (Ok (), w)"

text \<open>\<open>Nothing\<close> and \<open>()\<close> report a full read and leave the buffer as it is.\<close>

definition nothing_read_at ::
    "byte list \<Rightarrow> usize \<Rightarrow> 'w \<Rightarrow> ((errno, usize) res \<times> byte list) \<times> 'w" where
  "nothing_read_at buf offset w = ((Ok (length buf), buf), w)"

definition nothing_write_at :: "byte list \<Rightarrow> usize \<Rightarrow> 'w \<Rightarrow> (errno, usize) res \<times> 'w" where
  "nothing_write_at buf offset w = (Ok (length buf), w)"

definition nothing_flush :: "'w \<Rightarrow> (errno, unit) res \<times> 'w" where
  "nothing_flush w = (Ok (), w)"

record MapObject =
  mo_object :: nat
  mo_type_id :: nat
  mo_perm :: ProtectPerm
  mo_offset :: usize

section \<open>Permissions, types and states\<close>

datatype MmPerm = MP_None | MP_R | MP_RW | MP_RX | MP_RWX

text \<open>\<open>#[derive(Ord)]\<close> orders the variants as they are declared.\<close>

primrec mm_perm_rank :: "MmPerm \<Rightarrow> nat" where
  "mm_perm_rank MP_None = 0"
| "mm_perm_rank MP_R = 1"
| "mm_perm_rank MP_RW = 2"
| "mm_perm_rank MP_RX = 3"
| "mm_perm_rank MP_RWX = 4"

instantiation MmPerm :: linorder
begin

definition less_eq_MmPerm :: "MmPerm \<Rightarrow> MmPerm \<Rightarrow> bool" where
  "less_eq_MmPerm p q \<longleftrightarrow> mm_perm_rank p \<le> mm_perm_rank q"

definition less_MmPerm :: "MmPerm \<Rightarrow> MmPerm \<Rightarrow> bool" where
  "less_MmPerm p q \<longleftrightarrow> mm_perm_rank p < mm_perm_rank q"

instance
proof
  fix p q r :: MmPerm
  show "p < q \<longleftrightarrow> p \<le> q \<and> \<not> q \<le> p" by (auto simp: less_MmPerm_def less_eq_MmPerm_def)
  show "p \<le> p" by (simp add: less_eq_MmPerm_def)
  show "p \<le> q \<Longrightarrow> q \<le> r \<Longrightarrow> p \<le> r" by (simp add: less_eq_MmPerm_def)
  show "p \<le> q \<Longrightarrow> q \<le> p \<Longrightarrow> p = q" by (cases p; cases q) (simp_all add: less_eq_MmPerm_def)
  show "p \<le> q \<or> q \<le> p" by (auto simp: less_eq_MmPerm_def)
qed

end

definition mp_can_read :: "MmPerm \<Rightarrow> bool" where
  "mp_can_read p \<longleftrightarrow> p \<noteq> MP_None"

definition mp_can_write :: "MmPerm \<Rightarrow> bool" where
  "mp_can_write p \<longleftrightarrow> p \<notin> {MP_None, MP_R, MP_RX}"

definition mp_can_execute :: "MmPerm \<Rightarrow> bool" where
  "mp_can_execute p \<longleftrightarrow> p \<notin> {MP_None, MP_R, MP_RW}"

primrec mm_perm_of :: "ProtectPerm \<Rightarrow> MmPerm" where
  "mm_perm_of PP_None = MP_None"
| "mm_perm_of PP_Read = MP_R"
| "mm_perm_of PP_ReadWrite = MP_RW"
| "mm_perm_of PP_ReadExec = MP_RX"
| "mm_perm_of PP_ReadWriteExec = MP_RWX"

primrec protect_perm_of :: "MmPerm \<Rightarrow> ProtectPerm" where
  "protect_perm_of MP_None = PP_None"
| "protect_perm_of MP_R = PP_Read"
| "protect_perm_of MP_RW = PP_ReadWrite"
| "protect_perm_of MP_RX = PP_ReadExec"
| "protect_perm_of MP_RWX = PP_ReadWriteExec"

datatype MmType = MT_None | MT_Reg | MT_Tcs | MT_Trim

datatype MmState = Free | Reserved | SystemReserved | Committed | SystemCommitted | Locked

record MmObject =
  o_object :: nat
  o_type_id :: nat
  o_perm :: MmPerm
  o_offset :: usize
  o_loaded_len :: usize

record MmArea =
  a_range :: MmRange
  a_perm :: MmPerm
  a_state :: MmState
  a_typ :: MmType
  a_object :: "MmObject option"

abbreviation a_start :: "MmArea \<Rightarrow> usize" where
  "a_start v \<equiv> r_start (a_range v)"

abbreviation a_end :: "MmArea \<Rightarrow> usize" where
  "a_end v \<equiv> r_end (a_range v)"

section \<open>Operations on areas\<close>

text \<open>\<open>check_perm\<close> consults the object's permission for reading only.\<close>

definition check_perm :: "MmArea \<Rightarrow> MmPerm \<Rightarrow> bool" where
  "check_perm v perm =
     (case a_object v of
        Some mm_obj \<Rightarrow>
          (case perm of
             MP_None \<Rightarrow> True
           | MP_R \<Rightarrow> mp_can_read (o_perm mm_obj)
           | MP_RW \<Rightarrow> mp_can_read (o_perm mm_obj) \<and> mp_can_write perm
           | MP_RX \<Rightarrow> mp_can_read (o_perm mm_obj) \<and> mp_can_execute perm
           | MP_RWX \<Rightarrow> mp_can_read (o_perm mm_obj) \<and> mp_can_write perm \<and> mp_can_execute perm)
      | None \<Rightarrow> True)"

definition area_new ::
    "MmRange \<Rightarrow> MmPerm \<Rightarrow> MmState \<Rightarrow> MmType \<Rightarrow> MapObject option \<Rightarrow> ('s, errno, MmArea) rust" where
  "area_new rng perm state typ obj =
     (let mm_object = map_option (\<lambda>ob.
            \<lparr>o_object = mo_object ob, o_type_id = mo_type_id ob, o_perm = mm_perm_of (mo_perm ob),
             o_offset = mo_offset ob, o_loaded_len = 0\<rparr>) obj;
          mm_area = \<lparr>a_range = rng, a_perm = perm, a_state = state, a_typ = typ, a_object = mm_object\<rparr>
      in seq (ensure (check_perm mm_area (a_perm mm_area)) EACCES) (ret mm_area))"

text \<open>The part of the area's object that a sub-range shows.\<close>

definition inherit_object :: "MmRange \<Rightarrow> MmArea \<Rightarrow> MmObject \<Rightarrow> MmObject" where
  "inherit_object rng vrd mm_obj =
     (if a_start vrd < r_start rng then
        let vrd_offset = r_start rng - a_start vrd
        in mm_obj\<lparr>o_offset := wrapping_add (o_offset mm_obj) vrd_offset,
                  o_loaded_len := min (saturating_sub (o_loaded_len mm_obj) vrd_offset) (range_size rng)\<rparr>
      else if a_start vrd = r_start rng then
        mm_obj\<lparr>o_loaded_len := min (o_loaded_len mm_obj) (range_size rng)\<rparr>
      else
        let vrd_offset = a_start vrd - r_start rng
        in mm_obj\<lparr>o_offset := wrapping_sub (o_offset mm_obj) vrd_offset, o_loaded_len := 0\<rparr>)"

definition inherits_from :: "MmRange \<Rightarrow> MmArea \<Rightarrow> ('s, 'e, MmArea) rust" where
  "inherits_from rng vrd =
     seq (rassert (is_superset_of (a_range vrd) rng))
         (ret (vrd\<lparr>a_range := rng, a_object := map_option (inherit_object rng vrd) (a_object vrd)\<rparr>))"

definition can_combine :: "MmArea \<Rightarrow> MmArea \<Rightarrow> bool" where
  "can_combine v other =
     (if \<not> (contiguous_with (a_range v) (a_range other)
            \<and> a_perm v = a_perm other
            \<and> a_state v = a_state other
            \<and> a_typ v = a_typ other) then False
      else case (a_object v, a_object other) of
        (None, None) \<Rightarrow> True
      | (Some _, None) \<Rightarrow> False
      | (None, Some _) \<Rightarrow> False
      | (Some mm_obj, Some other_mm_obj) \<Rightarrow>
          if o_object mm_obj \<noteq> o_object other_mm_obj then False
          else if o_type_id mm_obj \<noteq> o_type_id other_mm_obj then False
          else if o_perm mm_obj \<noteq> o_perm other_mm_obj then False
          else if o_offset mm_obj > o_offset other_mm_obj
                  \<and> o_offset mm_obj - o_offset other_mm_obj = range_size (a_range other) then True
          else if o_offset mm_obj < o_offset other_mm_obj
                  \<and> o_offset other_mm_obj - o_offset mm_obj = range_size (a_range v) then True
          else False)"

definition area_intersect :: "MmArea \<Rightarrow> MmRange \<Rightarrow> ('s, 'e, MmArea option) rust" where
  "area_intersect v other =
     (case range_intersect (a_range v) other of
        None \<Rightarrow> ret None
      | Some new_range \<Rightarrow> and_then (inherits_from new_range v) (\<lambda>a. ret (Some a)))"

definition area_subtract :: "MmArea \<Rightarrow> MmRange \<Rightarrow> ('s, 'e, MmArea list) rust" where
  "area_subtract v other =
     flat_map (\<lambda>r. and_then (inherits_from r v) (\<lambda>a. ret [a])) (range_subtract (a_range v) other)"

definition area_load :: "'w map_ops \<Rightarrow> MmArea \<Rightarrow> ('w machine, errno, MmArea) rust" where
  "area_load ops v s =
     (case a_object v of
        None \<Rightarrow> (Ok v, s)
      | Some mm_obj \<Rightarrow>
          (let buf = mem_read (memory s) (a_start v) (range_size (a_range v)) in
           case map_read_at ops (o_object mm_obj) buf (o_offset mm_obj) (outside s) of
             ((r, filled), w') \<Rightarrow>
               (let s' = s\<lparr>memory := mem_write (memory s) (a_start v) (take (length buf) filled),
                           outside := w'\<rparr> in
                case r of
                  Ok read_len \<Rightarrow>
                    (if read_len > length buf then (Panic, s')
                     else (Ok (v\<lparr>a_object := Some (mm_obj\<lparr>o_loaded_len := read_len\<rparr>)\<rparr>),
                           s'\<lparr>memory := mem_write (memory s') (a_start v + read_len)
                                          (replicate (length buf - read_len) 0)\<rparr>))
                | Err e \<Rightarrow> (Err e, s')
                | Panic \<Rightarrow> (Panic, s'))))"

definition area_write :: "'w map_ops \<Rightarrow> MmArea \<Rightarrow> ('w machine, errno, unit) rust" where
  "area_write ops v s =
     (case a_object v of
        None \<Rightarrow> (Ok (), s)
      | Some mm_obj \<Rightarrow>
          if mp_can_write (o_perm mm_obj) then
            (let slice = mem_read (memory s) (a_start v) (range_size (a_range v)) in
             if o_loaded_len mm_obj > length slice then (Panic, s)
             else
               (case map_write_at ops (o_object mm_obj) (take (o_loaded_len mm_obj) slice)
                       (o_offset mm_obj) (outside s) of
                  (Ok _, w') \<Rightarrow> (Ok (), s\<lparr>outside := w'\<rparr>)
                | (Err e, w') \<Rightarrow> (Err e, s\<lparr>outside := w'\<rparr>)
                | (Panic, w') \<Rightarrow> (Panic, s\<lparr>outside := w'\<rparr>)))
          else (Ok (), s))"

definition area_flush :: "'w map_ops \<Rightarrow> MmArea \<Rightarrow> ('w machine, errno, unit) rust" where
  "area_flush ops v =
     (case a_object v of
        None \<Rightarrow> ret ()
      | Some mm_obj \<Rightarrow>
          if mp_can_write (o_perm mm_obj) then on_world (map_flush ops (o_object mm_obj))
          else ret ())"

definition is_needed_modify_perm :: "MmArea \<Rightarrow> MmPerm \<Rightarrow> ('s, errno, bool \<times> bool) rust" where
  "is_needed_modify_perm v new_perm =
     seq (ensure (\<not> range_is_empty (a_range v)) EFAULT)
    (seq (ensure (a_state v = Committed \<or> a_state v = SystemCommitted) EFAULT)
    (let pe = (a_perm v < new_perm \<or> (a_perm v = MP_RX \<and> new_perm = MP_RW));
         pr = (a_perm v > new_perm \<or> (a_perm v = MP_RW \<and> new_perm = MP_RX)
               \<or> (a_perm v > MP_RW \<and> new_perm < MP_RX)
               \<or> (a_perm v < MP_RX \<and> new_perm > MP_RW))
     in ret (pe, pr)))"

definition apply_perm ::
    "'w platform \<Rightarrow> (MmArea \<Rightarrow> MmPerm \<Rightarrow> bool) \<Rightarrow> MmArea \<Rightarrow> MmPerm
      \<Rightarrow> ('w machine, errno, MmArea) rust" where
  "apply_perm pf check v new_perm =
     seq (ensure (check v new_perm) EACCES)
     (if a_perm v = new_perm then ret v
      else
        let count = drop_bit SE_PAGE_SHIFT (range_size (a_range v));
            perm = protect_perm_of new_perm;
            info = \<lparr>pi_typ = PT_Reg,
                    pi_flags = page_flags_truncate (protect_perm_bits perm) OR PF_PR\<rparr>
        in seq
          (if is_supported_edmm pf then
             and_then (is_needed_modify_perm v new_perm) (\<lambda>(pe_needed, pr_needed).
               seq (if pe_needed \<or> pr_needed
                    then unwrap (on_world (modpr_ocall pf (a_start v) count perm)) else ret ())
              (and_then (map_err (\<lambda>_. EINVAL) (page_range_new pf (a_start v) count info)) (\<lambda>pages.
               seq (if pe_needed then ignore (on_world (range_modpe pf pages)) else ret ())
              (seq (if pr_needed \<and> new_perm \<noteq> MP_RWX
                    then ignore (on_world (accept_forward pf pages)) else ret ())
                   (if pr_needed \<and> new_perm = MP_None
                    then unwrap (on_world (mprotect_ocall pf (a_start v) count perm))
                    else ret ())))))
           else unwrap (on_world (mprotect_ocall pf (a_start v) count perm)))
          (ret (v\<lparr>a_perm := new_perm\<rparr>)))"

section \<open>Lemmas\<close>

lemma protect_perm_of_mm_perm_of [simp]: "protect_perm_of (mm_perm_of p) = p"
  by (cases p) simp_all

lemma mm_perm_of_protect_perm_of [simp]: "mm_perm_of (protect_perm_of p) = p"
  by (cases p) simp_all

lemma check_perm_iff:
  "check_perm v p \<longleftrightarrow>
     (\<forall>ob. a_object v = Some ob \<longrightarrow> p \<noteq> MP_None \<longrightarrow> mp_can_read (o_perm ob))"
  by (cases p) (auto simp: check_perm_def mp_can_write_def mp_can_execute_def split: option.splits)

lemma inherits_from_Ok_iff:
  "inherits_from rng vrd s = (Ok a, s') \<longleftrightarrow>
     is_superset_of (a_range vrd) rng \<and> s' = s
     \<and> a = vrd\<lparr>a_range := rng, a_object := map_option (inherit_object rng vrd) (a_object vrd)\<rparr>"
  by (auto simp: inherits_from_def Ok_iffs)

lemma inherits_from_ok:
  "is_superset_of (a_range vrd) rng \<Longrightarrow>
     inherits_from rng vrd =
       ret (vrd\<lparr>a_range := rng, a_object := map_option (inherit_object rng vrd) (a_object vrd)\<rparr>)"
  by (simp add: inherits_from_def rust_defs fun_eq_iff)

text \<open>An area cut down to a sub-range.\<close>

definition area_at :: "MmArea \<Rightarrow> MmRange \<Rightarrow> MmArea" where
  "area_at v rng = v\<lparr>a_range := rng, a_object := map_option (inherit_object rng v) (a_object v)\<rparr>"

lemma area_at_simps [simp]:
  "a_range (area_at v r) = r" "a_perm (area_at v r) = a_perm v"
  "a_state (area_at v r) = a_state v" "a_typ (area_at v r) = a_typ v"
  by (simp_all add: area_at_def)

lemma area_intersect_ok:
  "area_intersect v other = ret (map_option (area_at v) (range_intersect (a_range v) other))"
  by (auto simp: area_intersect_def area_at_def inherits_from_ok range_intersect_Some(6)
      split: option.splits)

lemma flat_map_ret: "flat_map (\<lambda>x. ret (g x)) xs = ret (concat (map g xs))"
  by (induction xs) simp_all

lemma flat_map_cong:
  "(\<And>x. x \<in> set xs \<Longrightarrow> f x = g x) \<Longrightarrow> flat_map f xs = flat_map g xs"
  by (induction xs) simp_all

lemma area_subtract_ok:
  assumes "a_start v \<le> a_end v"
  shows "area_subtract v other = ret (map (area_at v) (range_subtract (a_range v) other))"
proof -
  have "flat_map (\<lambda>r. and_then (inherits_from r v) (\<lambda>a. ret [a])) (range_subtract (a_range v) other)
      = flat_map (\<lambda>r. ret [area_at v r]) (range_subtract (a_range v) other)"
    using range_subtract_props(1) [OF assms]
    by (intro flat_map_cong) (simp add: inherits_from_ok area_at_def)
  then show ?thesis by (simp add: area_subtract_def flat_map_ret concat_map_singleton)
qed

lemma apply_perm_Ok:
  assumes "apply_perm pf check v p s = (Ok v', s')"
  shows "v' = v\<lparr>a_perm := p\<rparr>" "check v p"
  using assms by (auto simp: apply_perm_def Ok_iffs Let_def split: if_splits)

lemma apply_perm_same: "check v (a_perm v) \<Longrightarrow> apply_perm pf check v (a_perm v) s = (Ok v, s)"
  by (simp add: apply_perm_def rust_defs)

end
