(* ===== verification/Mm_Manager.thy ===== *)
theory Mm_Manager
  imports Mm_Area
begin

text \<open>
  The manager of the reserved region (\<open>sgx_rsrvmm/src/rsrvmm/manager.rs\<close>): a vector of areas in
  address order between two locked guards, with operations to find free room, insert, split, merge,
  protect, flush and free areas. Computations run over the manager and the machine.
\<close>

section \<open>State\<close>

datatype MmAllocAddr = Any | Hint usize | Need usize | Force usize

record MmManager =
  m_range :: MmRange
  m_perm :: MmPerm
  m_vrds :: "MmArea list"

type_synonym 'w mm_state = "MmManager \<times> 'w machine"

definition on_machine :: "('w machine, 'e, 'a) rust \<Rightarrow> ('w mm_state, 'e, 'a) rust" where
  "on_machine m = zoom snd (\<lambda>t s. (fst s, t)) m"

definition set_vrds :: "MmArea list \<Rightarrow> ('w mm_state, 'e, unit) rust" where
  "set_vrds vs = modify (\<lambda>(m, t). (m\<lparr>m_vrds := vs\<rparr>, t))"

definition get_vrds :: "('w mm_state, 'e, MmArea list) rust" where
  "get_vrds = gets (\<lambda>(m, t). m_vrds m)"

lemma and_then_get_vrds [simp]: "and_then get_vrds g (m, t) = g (m_vrds m) (m, t)"
  by (simp add: get_vrds_def)

lemma set_vrds_simp [simp]: "set_vrds vs (m, t) = (Ok (), m\<lparr>m_vrds := vs\<rparr>, t)"
  by (simp add: set_vrds_def modify_def)

section \<open>Operations\<close>

definition manager_new :: "'w platform \<Rightarrow> usize \<Rightarrow> usize \<Rightarrow> MmPerm \<Rightarrow> ('s, errno, MmManager) rust" where
  "manager_new pf base sz perm =
     and_then (range_new_with_size base sz) (\<lambda>rng.
     and_then (range_new (image_base pf) base) (\<lambda>low.
     and_then (area_new low MP_None Locked MT_Reg None) (\<lambda>vrd_low.
     and_then (range_new_empty (r_end rng)) (\<lambda>high.
     and_then (area_new high MP_None Locked MT_Reg None) (\<lambda>vrd_high.
     ret \<lparr>m_range = rng, m_perm = perm, m_vrds = [vrd_low, vrd_high]\<rparr>)))))"

definition check_range :: "MmManager \<Rightarrow> MmRange \<Rightarrow> bool" where
  "check_range m rng \<longleftrightarrow> is_superset_of (m_range m) rng"

definition find_vrd :: "MmArea list \<Rightarrow> usize \<Rightarrow> (nat \<times> MmArea) option" where
  "find_vrd vs addr = find (\<lambda>(_, vrd). range_contains (a_range vrd) addr) (List.enumerate 0 vs)"

definition find_range :: "MmArea list \<Rightarrow> usize \<Rightarrow> (nat \<times> MmRange) option" where
  "find_range vs addr = map_option (\<lambda>(idx, vrd). (idx, a_range vrd)) (find_vrd vs addr)"

definition is_free_range :: "MmManager \<Rightarrow> MmRange \<Rightarrow> bool" where
  "is_free_range m rng \<longleftrightarrow>
     is_superset_of (m_range m) rng \<and> list_all (\<lambda>vrd. \<not> overlap_with (a_range vrd) rng) (m_vrds m)"

text \<open>\<open>Vec::insert\<close> and \<open>Vec::remove\<close>.\<close>

definition vec_insert :: "nat \<Rightarrow> 'a \<Rightarrow> 'a list \<Rightarrow> 'a list" where
  "vec_insert i x xs = take i xs @ x # drop i xs"

definition vec_remove :: "nat \<Rightarrow> 'a list \<Rightarrow> 'a list" where
  "vec_remove i xs = take i xs @ drop (Suc i) xs"

text \<open>
  \<open>insert_vrd\<close> first checks its index in a debug assertion, which a release build drops. The check in the definition is the panic of the two
  indexings \<open>vrds[idx - 1]\<close> and \<open>vrds[idx]\<close> that come next, which every build has.
\<close>

definition insert_vrd :: "nat \<Rightarrow> MmArea \<Rightarrow> ('w mm_state, errno, unit) rust" where
  "insert_vrd idx vrd =
     and_then get_vrds (\<lambda>vs.
     seq (rassert (0 < idx \<and> idx < length vs))
     (let left_vrd = vs ! (idx - 1); right_vrd = vs ! idx in
      case (can_combine vrd left_vrd, can_combine vrd right_vrd) of
        (False, False) \<Rightarrow> set_vrds (vec_insert idx vrd vs)
      | (True, False) \<Rightarrow>
          and_then (range_set_end (a_range left_vrd) (a_end vrd)) (\<lambda>r.
            set_vrds (vs[idx - 1 := left_vrd\<lparr>a_range := r\<rparr>]))
      | (False, True) \<Rightarrow>
          and_then (range_set_start (a_range right_vrd) (a_start vrd)) (\<lambda>r.
            set_vrds (vs[idx := right_vrd\<lparr>a_range := r\<rparr>]))
      | (True, True) \<Rightarrow>
          and_then (range_set_end (a_range left_vrd) (a_end right_vrd)) (\<lambda>r.
            set_vrds (vec_remove idx (vs[idx - 1 := left_vrd\<lparr>a_range := r\<rparr>])))))"

text \<open>
  The loop of \<open>find_free_range\<close> over the windows of two neighbouring areas: \<open>idx\<close> is the index of
  the window and \<open>best\<close> holds \<open>result_idx\<close> and \<open>result_free_range\<close>.
\<close>

definition better_range :: "(nat \<times> MmRange) option \<Rightarrow> nat \<Rightarrow> MmRange \<Rightarrow> (nat \<times> MmRange) option" where
  "better_range best idx free =
     (case best of
        None \<Rightarrow> Some (idx, free)
      | Some (_, old) \<Rightarrow> if range_size old > range_size free then Some (idx, free) else best)"

fun free_scan ::
    "MmAllocAddr \<Rightarrow> usize \<Rightarrow> nat \<Rightarrow> MmArea list \<Rightarrow> (nat \<times> MmRange) option
      \<Rightarrow> ('s, errno, nat \<times> MmRange) rust" where
  "free_scan addr sz idx (pre # nxt # rest) best =
     (let free = range_from_unchecked (a_end pre) (a_start nxt) in
      if wrapping_sub (a_start nxt) (a_end pre) < sz
      then free_scan addr sz (idx + 1) (nxt # rest) best
      else
        (case addr of
           Any \<Rightarrow> free_scan addr sz (idx + 1) (nxt # rest) (better_range best idx free)
         | Hint a \<Rightarrow>
             if range_contains free a \<and> wrapping_sub (r_end free) a \<ge> sz
             then and_then (range_set_start free a) (\<lambda>r. ret (idx + 1, r))
             else free_scan addr sz (idx + 1) (nxt # rest) (better_range best idx free)
         | Need a \<Rightarrow>
             if r_start free > a then bail ENOMEM
             else if \<not> range_contains free a then free_scan addr sz (idx + 1) (nxt # rest) best
             else if wrapping_sub (r_end free) a < sz then bail ENOMEM
             else and_then (range_set_start free a) (\<lambda>r. ret (idx + 1, r))
         | Force a \<Rightarrow>
             if r_start free > a then bail ENOMEM
             else if \<not> range_contains free a then free_scan addr sz (idx + 1) (nxt # rest) best
             else if wrapping_sub (r_end free) a < sz then bail ENOMEM
             else and_then (range_set_start free a) (\<lambda>r. ret (idx + 1, r))))"
| "free_scan addr sz idx vs best =
     (case best of Some (i, free) \<Rightarrow> ret (i + 1, free) | None \<Rightarrow> bail ENOMEM)"

text \<open>The body of the \<open>flat_map\<close> in \<open>free_vrds\<close>.\<close>

definition free_vrd ::
    "'w platform \<Rightarrow> 'w map_ops \<Rightarrow> MmPerm \<Rightarrow> MmRange \<Rightarrow> MmArea \<Rightarrow> ('w machine, errno, MmArea list) rust" where
  "free_vrd pf ops perm rng vrd =
     and_then (area_intersect vrd rng) (\<lambda>inter.
       case inter of
         None \<Rightarrow> ret [vrd]
       | Some intersection \<Rightarrow>
           seq (ignore (area_write ops intersection))
          (seq (ignore (apply_perm pf (\<lambda>_ _. True) intersection perm))
               (area_subtract vrd (a_range intersection))))"

definition free_vrds ::
    "'w platform \<Rightarrow> 'w map_ops \<Rightarrow> MmRange \<Rightarrow> ('w mm_state, errno, unit) rust" where
  "free_vrds pf ops rng =
     and_then (gets fst) (\<lambda>m.
     seq (ensure (\<not> range_is_empty rng \<and> check_range m rng) EINVAL)
    (and_then get_vrds (\<lambda>old_vrds.
     seq (set_vrds [])
    (and_then (on_machine (flat_map (free_vrd pf ops (m_perm m) rng) old_vrds)) (\<lambda>new_vrds.
     set_vrds new_vrds)))))"

definition find_free_range ::
    "'w platform \<Rightarrow> 'w map_ops \<Rightarrow> MmAllocAddr \<Rightarrow> usize \<Rightarrow> ('w mm_state, errno, nat \<times> MmRange) rust" where
  "find_free_range pf ops addr sz =
     and_then (gets fst) (\<lambda>m.
     seq (case addr of
            Any \<Rightarrow> if sz > range_size (m_range m) then bail EINVAL else ret ()
          | Hint a \<Rightarrow> and_then (range_new_with_size a sz) (\<lambda>r. ensure (check_range m r) EINVAL)
          | Need a \<Rightarrow> and_then (range_new_with_size a sz) (\<lambda>r. ensure (check_range m r) EINVAL)
          | Force a \<Rightarrow> and_then (range_new_with_size a sz) (\<lambda>r. ensure (check_range m r) EINVAL))
    (seq (case addr of
            Force a \<Rightarrow> free_vrds pf ops (range_from_unchecked a sz)
          | _ \<Rightarrow> ret ())
    (and_then get_vrds (\<lambda>vs. free_scan addr sz 0 vs None))))"

text \<open>The assertions on \<open>addr\<close> in \<open>alloc_range_from\<close> are debug assertions only.\<close>

definition alloc_range_from :: "MmAllocAddr \<Rightarrow> usize \<Rightarrow> MmRange \<Rightarrow> ('s, 'e, MmRange) rust" where
  "alloc_range_from addr sz free_range = range_resize free_range sz"

text \<open>Merging the area at \<open>idx\<close> into its left neighbour; \<open>None\<close> is the panic of \<open>add_size\<close>.\<close>

definition merge_left :: "MmArea list \<Rightarrow> nat \<Rightarrow> MmArea list option" where
  "merge_left vs idx =
     (let sz = range_size (a_range (vs ! idx)); left = vs ! (idx - 1) in
      case fst ((range_add_size (a_range left) sz :: (unit, errno, MmRange) rust) ()) of
        Ok r \<Rightarrow> Some (vec_remove idx (vs[idx - 1 := left\<lparr>a_range := r\<rparr>]))
      | _ \<Rightarrow> None)"

text \<open>The \<open>while\<close> loop of \<open>combine_vrds\<close> and the step after it; \<open>None\<close> is a panic.\<close>

function combine_loop :: "MmArea list \<Rightarrow> nat \<Rightarrow> usize \<Rightarrow> usize \<Rightarrow> MmArea list option" where
  "combine_loop vs idx addr fin =
     (if addr < fin then
        if idx \<ge> length vs then None
        else (let joined = idx > 0 \<and> can_combine (vs ! (idx - 1)) (vs ! idx);
             idx' = (if joined then idx - 1 else idx) in
         case (if joined then merge_left vs idx else Some vs) of
           None \<Rightarrow> None
         | Some vs' \<Rightarrow>
             if idx' + 1 < length vs'
             then combine_loop vs' (idx' + 1) (a_start (vs' ! (idx' + 1))) fin
             else Some vs')
      else if idx > 0 \<and> idx < length vs \<and> can_combine (vs ! (idx - 1)) (vs ! idx) then merge_left vs idx
      else Some vs)"
  by pat_completeness auto
termination
proof (relation "measure (\<lambda>(vs, idx, addr, fin). length vs - idx)", goal_cases)
  case 1
  show ?case by simp
next
  case (2 vs idx addr fin joined idx' vs')
  then show ?case
    by (auto simp: merge_left_def Let_def vec_remove_def split: if_splits res.splits)
qed

declare combine_loop.simps [simp del]

definition combine_vrds :: "MmRange \<Rightarrow> ('w mm_state, 'e, unit) rust" where
  "combine_vrds rng =
     and_then get_vrds (\<lambda>vs.
       case find_vrd vs (r_start rng) of
         None \<Rightarrow> ret ()
       | Some (idx, _) \<Rightarrow>
           (case combine_loop vs idx (r_start rng) (r_end rng) of
              None \<Rightarrow> panic
            | Some vs' \<Rightarrow> set_vrds vs'))"

text \<open>Cutting the area at \<open>idx\<close> at an address; both halves of \<open>split_vrds\<close> do this.\<close>

definition split_at :: "nat \<Rightarrow> MmArea \<Rightarrow> usize \<Rightarrow> ('w mm_state, errno, unit) rust" where
  "split_at idx vrd addr =
     and_then (range_new addr (a_end vrd)) (\<lambda>new_range.
     and_then (inherits_from new_range vrd) (\<lambda>new_vrd.
     and_then get_vrds (\<lambda>vs.
     and_then (range_sub_size (a_range (vs ! idx)) (range_size new_range)) (\<lambda>r.
     set_vrds (vec_insert (idx + 1) new_vrd (vs[idx := (vs ! idx)\<lparr>a_range := r\<rparr>]))))))"

definition split_vrds :: "MmRange \<Rightarrow> ('w mm_state, errno, unit) rust" where
  "split_vrds rng =
     and_then (gets fst) (\<lambda>m.
     seq (ensure (\<not> range_is_empty rng \<and> check_range m rng) EINVAL)
    (and_then get_vrds (\<lambda>vs.
     and_then (ok_or (find_vrd vs (r_start rng)) EINVAL) (\<lambda>(idx, vrd).
     seq (if a_start vrd < r_start rng then split_at idx vrd (r_start rng) else ret ())
    (and_then get_vrds (\<lambda>vs.
     and_then (ok_or (find_vrd vs (wrapping_sub (r_end rng) 1)) EINVAL) (\<lambda>(idx, vrd).
     if r_end rng < a_end vrd then split_at idx vrd (r_end rng) else ret ())))))))"

text \<open>
  \<open>apply_perm_vrds\<close> borrows the areas immutably: the permission is applied to the intersection,
  a copy that is dropped.
\<close>

definition apply_perm_vrds ::
    "'w platform \<Rightarrow> MmRange \<Rightarrow> MmPerm \<Rightarrow> ('w mm_state, errno, unit) rust" where
  "apply_perm_vrds pf rng new_perm =
     and_then get_vrds (\<lambda>vs.
       on_machine (for_each (\<lambda>vrd.
           and_then (area_intersect vrd rng) (\<lambda>inter.
             case inter of
               None \<Rightarrow> ret ()
             | Some v \<Rightarrow>
                 if a_typ v = MT_Reg
                 then seq (apply_perm pf check_perm v new_perm) (ret ()) else ret ()))
         (takeWhile (\<lambda>vrd. \<not> a_start vrd \<ge> r_end rng) vs)))"

definition flush_vrds :: "'w map_ops \<Rightarrow> MmRange \<Rightarrow> ('w mm_state, errno, unit) rust" where
  "flush_vrds ops rng =
     and_then (gets fst) (\<lambda>m.
     seq (ensure (\<not> range_is_empty rng \<and> check_range m rng) EINVAL)
    (and_then get_vrds (\<lambda>vs.
       on_machine (for_each (\<lambda>vrd.
           and_then (area_intersect vrd rng) (\<lambda>inter.
             case inter of
               None \<Rightarrow> ret ()
             | Some v \<Rightarrow> seq (area_write ops v) (area_flush ops v)))
         (takeWhile (\<lambda>vrd. \<not> a_start vrd \<ge> r_end rng) vs)))))"

end
