(* ===== verification/Mm_Invariant.thy ===== *)
theory Mm_Invariant
  imports Mm_Manager
begin

text \<open>
  The invariant of the area manager and what its operations do to it: the areas between the two
  guards are page aligned, non-empty, inside the region, committed and in address order, so that
  they never overlap. The abstraction of a manager is the set of its mapped addresses.
\<close>

section \<open>The invariant\<close>

definition area_ok :: "MmRange \<Rightarrow> MmArea \<Rightarrow> bool" where
  "area_ok R v \<longleftrightarrow> wf_range (a_range v) \<and> a_start v < a_end v \<and> is_superset_of R (a_range v)
     \<and> a_state v = Committed \<and> a_typ v = MT_Reg"

abbreviation area_before :: "MmArea \<Rightarrow> MmArea \<Rightarrow> bool" where
  "area_before a b \<equiv> a_end a \<le> a_start b"

definition mid_ok :: "MmRange \<Rightarrow> MmArea list \<Rightarrow> bool" where
  "mid_ok R mid \<longleftrightarrow> list_all (area_ok R) mid \<and> sorted_wrt area_before mid"

definition guard_low :: "MmRange \<Rightarrow> MmArea \<Rightarrow> bool" where
  "guard_low R v \<longleftrightarrow> a_start v \<le> a_end v \<and> a_end v = r_start R \<and> a_state v = Locked"

definition guard_high :: "MmRange \<Rightarrow> MmArea \<Rightarrow> bool" where
  "guard_high R v \<longleftrightarrow> a_start v = r_end R \<and> a_end v = r_end R \<and> a_state v = Locked"

definition inner :: "MmArea list \<Rightarrow> MmArea list" where
  "inner vs = butlast (tl vs)"

definition vrds_ok :: "MmRange \<Rightarrow> MmArea list \<Rightarrow> bool" where
  "vrds_ok R vs \<longleftrightarrow> 2 \<le> length vs \<and> guard_low R (hd vs) \<and> guard_high R (last vs) \<and> mid_ok R (inner vs)"

definition wf_manager :: "MmManager \<Rightarrow> bool" where
  "wf_manager m \<longleftrightarrow> wf_range (m_range m) \<and> r_start (m_range m) < r_end (m_range m)
     \<and> vrds_ok (m_range m) (m_vrds m)"

definition covered :: "MmArea list \<Rightarrow> usize set" where
  "covered vs = (\<Union>v \<in> set vs. addrs (a_range v))"

definition mapped :: "MmManager \<Rightarrow> usize set" where
  "mapped m = covered (inner (m_vrds m))"

lemma inner_simps [simp]: "inner (lo # mid @ [hi]) = mid"
  by (simp add: inner_def)

lemma vrds_okI [intro?]:
  "guard_low R lo \<Longrightarrow> guard_high R hi \<Longrightarrow> mid_ok R mid \<Longrightarrow> vrds_ok R (lo # mid @ [hi])"
  by (simp add: vrds_ok_def)

lemma vrds_okE:
  assumes "vrds_ok R vs"
  obtains lo mid hi where "vs = lo # mid @ [hi]" "guard_low R lo" "guard_high R hi" "mid_ok R mid"
    "inner vs = mid"
proof -
  from assms obtain lo rest where vs: "vs = lo # rest" "rest \<noteq> []"
    by (cases vs; cases "tl vs") (auto simp: vrds_ok_def)
  then have "vs = lo # butlast rest @ [last rest]" by simp
  then show thesis
    using that [of lo "butlast rest" "last rest"] assms vs by (simp add: vrds_ok_def inner_def)
qed

lemma area_okD:
  assumes "area_ok R v"
  shows "wf_range (a_range v)" "a_start v < a_end v" "is_superset_of R (a_range v)"
    "a_state v = Committed" "a_typ v = MT_Reg"
  using assms by (simp_all add: area_ok_def)

lemma covered_simps [simp]:
  "covered [] = {}" "covered (v # vs) = addrs (a_range v) \<union> covered vs"
  "covered (vs @ ws) = covered vs \<union> covered ws"
  by (auto simp: covered_def)

lemma mid_ok_Nil [simp]: "mid_ok R []"
  by (simp add: mid_ok_def)

lemma mid_ok_Cons [simp]:
  "mid_ok R (v # vs) \<longleftrightarrow> area_ok R v \<and> (\<forall>w \<in> set vs. area_before v w) \<and> mid_ok R vs"
  by (auto simp: mid_ok_def)

lemma mid_ok_append [simp]:
  "mid_ok R (vs @ ws) \<longleftrightarrow> mid_ok R vs \<and> mid_ok R ws \<and> (\<forall>v \<in> set vs. \<forall>w \<in> set ws. area_before v w)"
  by (auto simp: mid_ok_def sorted_wrt_append)

lemma mid_ok_area: "mid_ok R vs \<Longrightarrow> v \<in> set vs \<Longrightarrow> area_ok R v"
  by (auto simp: mid_ok_def list_all_iff)

lemma covered_bounds:
  assumes "mid_ok R vs"
  shows "covered vs \<subseteq> addrs R"
  using assms by (auto simp: covered_def dest!: mid_ok_area area_okD(3) is_superset_of_addrs)

section \<open>Merging and cutting neighbours\<close>

text \<open>Two touching areas replaced by one that spans both.\<close>

lemma mid_ok_merge:
  assumes "mid_ok R (xs @ a # b # ys)" "a_end a = a_start b"
    and "a_range c = \<lparr>r_start = a_start a, r_end = a_end b\<rparr>" "a_state c = Committed" "a_typ c = MT_Reg"
  shows "mid_ok R (xs @ c # ys)" "covered (xs @ c # ys) = covered (xs @ a # b # ys)"
proof -
  have "area_ok R c"
    using assms by (auto simp: area_ok_def wf_range_def is_superset_of_def)
  moreover have "area_before c w" if "w \<in> set ys" for w using assms that by auto
  moreover have "area_before v c" if "v \<in> set xs" for v using assms that by auto
  ultimately show "mid_ok R (xs @ c # ys)" using assms(1) by auto
  have "addrs (a_range a) \<union> addrs (a_range b) = addrs (a_range c)"
    using assms(1,2,3) by (auto simp: addrs_def area_ok_def)
  then show "covered (xs @ c # ys) = covered (xs @ a # b # ys)" by auto
qed

text \<open>One area replaced by the two parts at an address inside it.\<close>

lemma mid_ok_cut:
  assumes "mid_ok R (xs @ a # ys)" "a_start a < k" "k < a_end a" "is_page_aligned k"
    and "a_range b = \<lparr>r_start = a_start a, r_end = k\<rparr>" "a_state b = Committed" "a_typ b = MT_Reg"
    and "a_range c = \<lparr>r_start = k, r_end = a_end a\<rparr>" "a_state c = Committed" "a_typ c = MT_Reg"
  shows "mid_ok R (xs @ b # c # ys)" "covered (xs @ b # c # ys) = covered (xs @ a # ys)"
proof -
  have "area_ok R b" "area_ok R c"
    using assms by (auto simp: area_ok_def wf_range_def is_superset_of_def)
  moreover have "area_before b w" "area_before c w" if "w \<in> set ys" for w
    using assms(1,2,3,5,8) that by auto
  moreover have "area_before v b" "area_before v c" if "v \<in> set xs" for v
    using assms(1,2,3,5,8) that by auto
  ultimately show "mid_ok R (xs @ b # c # ys)" using assms(1,5,8) by simp
  have "addrs (a_range b) \<union> addrs (a_range c) = addrs (a_range a)"
    using assms(2,3,5,8) by (auto simp: addrs_def)
  then show "covered (xs @ b # c # ys) = covered (xs @ a # ys)" by auto
qed

text \<open>A new area in a gap.\<close>

lemma mid_ok_insert:
  assumes "mid_ok R (xs @ ys)" "area_ok R v"
    and "xs \<noteq> [] \<Longrightarrow> area_before (last xs) v" "ys \<noteq> [] \<Longrightarrow> area_before v (hd ys)"
  shows "mid_ok R (xs @ v # ys)"
proof -
  have "area_before w v" if "w \<in> set xs" for w
  proof (cases xs rule: rev_cases)
    case Nil
    then show ?thesis using that by simp
  next
    case (snoc zs l)
    have "area_before l v" using assms(3) snoc by simp
    moreover have "a_start l < a_end l" "w = l \<or> area_before w l"
      using assms(1) that snoc by (auto dest: area_okD(2))
    ultimately show ?thesis by auto
  qed
  moreover have "area_before v w" if "w \<in> set ys" for w
  proof (cases ys)
    case Nil
    then show ?thesis using that by simp
  next
    case (Cons r zs)
    have "area_before v r" using assms(4) Cons by simp
    moreover have "a_start r < a_end r" "w = r \<or> area_before r w"
      using assms(1) that Cons by (auto dest: area_okD(2))
    ultimately show ?thesis by auto
  qed
  ultimately show ?thesis using assms(1,2) by simp
qed

section \<open>Inserting an area\<close>

lemma can_combineD:
  assumes "can_combine v w"
  shows "contiguous_with (a_range v) (a_range w)" "a_perm v = a_perm w" "a_state v = a_state w"
    "a_typ v = a_typ w"
  using assms by (auto simp: can_combine_def split: if_splits)

lemma can_combine_touch:
  assumes "can_combine v w" "area_ok R v" "area_ok R w"
  shows "area_before w v \<Longrightarrow> a_end w = a_start v" "area_before v w \<Longrightarrow> a_end v = a_start w"
  using assms by (auto dest!: can_combineD(1) simp: contiguous_with_iff area_ok_def)

text \<open>The gap before the area at \<open>idx\<close> has room for a range.\<close>

definition gap_at :: "MmArea list \<Rightarrow> nat \<Rightarrow> MmRange \<Rightarrow> bool" where
  "gap_at vs idx r \<longleftrightarrow> 0 < idx \<and> idx < length vs
     \<and> a_end (vs ! (idx - 1)) \<le> r_start r \<and> r_end r \<le> a_start (vs ! idx)"

lemma gap_atE:
  assumes "gap_at (lo # mid @ [hi]) idx r"
  obtains xs ys where "mid = xs @ ys" "idx = Suc (length xs)"
    "a_end (last (lo # xs)) \<le> r_start r" "r_end r \<le> a_start (hd (ys @ [hi]))"
proof -
  define xs ys where "xs = take (idx - 1) mid" and "ys = drop (idx - 1) mid"
  have mid: "mid = xs @ ys" by (simp add: xs_def ys_def)
  have idx: "idx = Suc (length xs)" using assms by (auto simp: gap_at_def xs_def)
  have "(lo # mid @ [hi]) ! (idx - 1) = last (lo # xs)"
    by (cases xs rule: rev_cases) (simp_all add: mid idx nth_append nth_Cons')
  moreover have "(lo # mid @ [hi]) ! idx = hd (ys @ [hi])"
    by (cases ys) (simp_all add: mid idx nth_append)
  ultimately show thesis using that [OF mid idx] assms by (simp add: gap_at_def)
qed

lemma vec_insert_append: "vec_insert (length xs) v (xs @ ys) = xs @ v # ys"
  by (simp add: vec_insert_def)

lemma vec_remove_append: "vec_remove (length xs) (xs @ v # ys) = xs @ ys"
  by (simp add: vec_remove_def)

text \<open>The neighbours of a gap, and what they are when a new area combines with them.\<close>

lemma nth_left_of_gap: "(lo # (xs @ ys) @ [hi]) ! length xs = last (lo # xs)"
  by (cases xs rule: rev_cases) (simp_all add: nth_append nth_Cons')

lemma nth_right_of_gap: "(lo # (xs @ ys) @ [hi]) ! Suc (length xs) = hd (ys @ [hi])"
  by (cases ys) (simp_all add: nth_append)

lemma combine_left_neighbour:
  assumes "can_combine v (last (lo # xs))" "guard_low R lo" "area_ok R v" "mid_ok R xs"
    and "a_end (last (lo # xs)) \<le> a_start v"
  obtains zs a where "xs = zs @ [a]" "last (lo # xs) = a" "a_end a = a_start v" "area_ok R a"
proof -
  have "xs \<noteq> []" using assms by (auto dest: can_combineD(3) simp: guard_low_def area_ok_def)
  then obtain zs a where xs: "xs = zs @ [a]" by (cases xs rule: rev_cases) auto
  moreover have "area_ok R a" using assms(4) xs by simp
  moreover have "a_end a = a_start v"
    using can_combine_touch(1) [of v a R] assms xs calculation(2) by simp
  ultimately show thesis using that by simp
qed

lemma combine_right_neighbour:
  assumes "can_combine v (hd (ys @ [hi]))" "guard_high R hi" "area_ok R v" "mid_ok R ys"
    and "a_end v \<le> a_start (hd (ys @ [hi]))"
  obtains zs b where "ys = b # zs" "hd (ys @ [hi]) = b" "a_end v = a_start b" "area_ok R b"
proof -
  have "ys \<noteq> []" using assms by (auto dest: can_combineD(3) simp: guard_high_def area_ok_def)
  then obtain zs b where ys: "ys = b # zs" by (cases ys) auto
  moreover have "area_ok R b" using assms(4) ys by simp
  moreover have "a_end v = a_start b"
    using can_combine_touch(2) [of v b R] assms ys calculation(2) by simp
  ultimately show thesis using that by simp
qed

lemma insert_vrd_at:
  assumes mid: "mid_ok R (xs @ ys)" and lo: "guard_low R lo" and hi: "guard_high R hi"
    and v: "area_ok R v"
    and l: "a_end (last (lo # xs)) \<le> a_start v" and r: "a_end v \<le> a_start (hd (ys @ [hi]))"
    and vs: "m_vrds m = lo # (xs @ ys) @ [hi]"
  shows "\<exists>mid'. insert_vrd (Suc (length xs)) v (m, t) = (Ok (), m\<lparr>m_vrds := lo # mid' @ [hi]\<rparr>, t)
    \<and> mid_ok R mid' \<and> covered mid' = covered (xs @ ys) \<union> addrs (a_range v)"
proof -
  let ?l = "last (lo # xs)" and ?r = "hd (ys @ [hi])"
  have ins: "mid_ok R (xs @ v # ys)"
    using l r by (intro mid_ok_insert [OF mid v]) (auto split: if_splits)
  have mids: "mid_ok R xs" "mid_ok R ys" using mid by simp_all
  note run = insert_vrd_def get_vrds_def set_vrds_def gets_def and_then_def seq_def rassert_def ret_def
    modify_def nth_left_of_gap [of lo xs ys hi, folded vs] nth_right_of_gap [of lo xs ys hi, folded vs]
  have al: "is_page_aligned (a_start v)" "is_page_aligned (a_end v)" "a_start v < a_end v"
    using v by (simp_all add: area_ok_def wf_range_def)
  show ?thesis
  proof (cases "can_combine v ?l"; cases "can_combine v ?r")
    assume "\<not> can_combine v ?l" "\<not> can_combine v ?r"
    then have "insert_vrd (Suc (length xs)) v (m, t) = (Ok (), m\<lparr>m_vrds := lo # (xs @ v # ys) @ [hi]\<rparr>, t)"
      using vec_insert_append [of "lo # xs" v "ys @ [hi]"] by (simp add: run) (simp add: vs)
    then show ?thesis using ins by (intro exI [of _ "xs @ v # ys"]) auto
  next
    assume c: "can_combine v ?l" "\<not> can_combine v ?r"
    obtain zs a where a: "xs = zs @ [a]" "?l = a" "a_end a = a_start v" "area_ok R a"
      by (rule combine_left_neighbour [OF c(1) lo v mids(1) l])
    let ?a = "a\<lparr>a_range := (a_range a)\<lparr>r_end := a_end v\<rparr>\<rparr>"
    have e: "range_set_end (a_range a) (a_end v) = ret ((a_range a)\<lparr>r_end := a_end v\<rparr>)"
      using al a(3,4) by (intro range_set_end_ok) (auto simp: area_ok_def)
    have "insert_vrd (Suc (length xs)) v (m, t) = (Ok (), m\<lparr>m_vrds := lo # (zs @ ?a # ys) @ [hi]\<rparr>, t)"
      using c by (simp add: run a(2)) (simp add: vs a(1) e rust_defs)
    then show ?thesis
      using mid_ok_merge [of R zs a v ys ?a] ins a
      by (intro exI [of _ "zs @ ?a # ys"]) (auto simp: area_ok_def)
  next
    assume c: "\<not> can_combine v ?l" "can_combine v ?r"
    obtain zs b where b: "ys = b # zs" "?r = b" "a_end v = a_start b" "area_ok R b"
      by (rule combine_right_neighbour [OF c(2) hi v mids(2) r])
    let ?b = "b\<lparr>a_range := (a_range b)\<lparr>r_start := a_start v\<rparr>\<rparr>"
    have e: "range_set_start (a_range b) (a_start v) = ret ((a_range b)\<lparr>r_start := a_start v\<rparr>)"
      using al b(3,4) by (intro range_set_start_ok) (auto simp: area_ok_def)
    have "insert_vrd (Suc (length xs)) v (m, t) = (Ok (), m\<lparr>m_vrds := lo # (xs @ ?b # zs) @ [hi]\<rparr>, t)"
      using c by (simp add: run b(2)) (simp add: vs b(1) e rust_defs)
    then show ?thesis
      using mid_ok_merge [of R xs v b zs ?b] ins b
      by (intro exI [of _ "xs @ ?b # zs"]) (auto simp: area_ok_def)
  next
    assume c: "can_combine v ?l" "can_combine v ?r"
    obtain zs a where a: "xs = zs @ [a]" "?l = a" "a_end a = a_start v" "area_ok R a"
      by (rule combine_left_neighbour [OF c(1) lo v mids(1) l])
    obtain ws b where b: "ys = b # ws" "?r = b" "a_end v = a_start b" "area_ok R b"
      by (rule combine_right_neighbour [OF c(2) hi v mids(2) r])
    let ?a = "a\<lparr>a_range := (a_range a)\<lparr>r_end := a_end v\<rparr>\<rparr>"
    let ?c = "a\<lparr>a_range := (a_range a)\<lparr>r_end := a_end b\<rparr>\<rparr>"
    have e: "range_set_end (a_range a) (a_end b) = ret ((a_range a)\<lparr>r_end := a_end b\<rparr>)"
      using al a(3,4) b(3,4) by (intro range_set_end_ok) (auto simp: area_ok_def wf_range_def)
    have "insert_vrd (Suc (length xs)) v (m, t) = (Ok (), m\<lparr>m_vrds := lo # (zs @ ?c # ws) @ [hi]\<rparr>, t)"
      using c vec_remove_append [of "lo # zs @ [?c]" b "ws @ [hi]"]
      by (simp add: run a(2) b(2)) (simp add: vs a(1) b(1) e rust_defs)
    moreover have m1: "mid_ok R (zs @ ?a # b # ws)" "covered (zs @ ?a # b # ws) = covered (zs @ a # v # b # ws)"
      using mid_ok_merge [of R zs a v "b # ws" ?a] ins a b(1) by (auto simp: area_ok_def)
    moreover have "mid_ok R (zs @ ?c # ws)" "covered (zs @ ?c # ws) = covered (zs @ ?a # b # ws)"
      using mid_ok_merge [of R zs ?a b ws ?c] m1 a b by (auto simp: area_ok_def)
    ultimately show ?thesis
      by (intro exI [of _ "zs @ ?c # ws"]) (auto simp: a(1) b(1))
  qed
qed

text \<open>Everything of a manager but its areas.\<close>

definition same_region :: "MmManager \<Rightarrow> MmManager \<Rightarrow> bool" where
  "same_region m m' \<longleftrightarrow> m_range m' = m_range m \<and> m_perm m' = m_perm m"

lemma same_region_vrds [simp]: "same_region m (m\<lparr>m_vrds := vs\<rparr>)" "same_region m m"
  by (simp_all add: same_region_def)

lemma same_region_trans: "same_region a b \<Longrightarrow> same_region b c \<Longrightarrow> same_region a c"
  by (simp add: same_region_def)

lemma wf_managerE:
  assumes "wf_manager m"
  obtains lo mid hi where "m_vrds m = lo # mid @ [hi]" "guard_low (m_range m) lo"
    "guard_high (m_range m) hi" "mid_ok (m_range m) mid" "mapped m = covered mid"
    "wf_range (m_range m)" "r_start (m_range m) < r_end (m_range m)"
proof -
  have "vrds_ok (m_range m) (m_vrds m)" "wf_range (m_range m)" "r_start (m_range m) < r_end (m_range m)"
    using assms by (simp_all add: wf_manager_def)
  then show thesis by (elim vrds_okE) (simp add: that mapped_def)
qed

lemma wf_manager_update:
  assumes "wf_manager m" "guard_low (m_range m) lo" "guard_high (m_range m) hi" "mid_ok (m_range m) mid"
  shows "wf_manager (m\<lparr>m_vrds := lo # mid @ [hi]\<rparr>)"
    "mapped (m\<lparr>m_vrds := lo # mid @ [hi]\<rparr>) = covered mid"
  using assms by (auto simp: wf_manager_def mapped_def intro: vrds_okI)

lemma insert_vrd_wf:
  assumes "wf_manager m" "area_ok (m_range m) v" "gap_at (m_vrds m) idx (a_range v)"
  shows "\<exists>m'. insert_vrd idx v (m, t) = (Ok (), m', t) \<and> wf_manager m' \<and> same_region m m'
    \<and> mapped m' = mapped m \<union> addrs (a_range v)"
proof -
  from assms(1) obtain lo mid hi where m: "m_vrds m = lo # mid @ [hi]" "guard_low (m_range m) lo"
    "guard_high (m_range m) hi" "mid_ok (m_range m) mid" "mapped m = covered mid"
    by (rule wf_managerE)
  from assms(3) [unfolded m(1)] obtain xs ys where g: "mid = xs @ ys" "idx = Suc (length xs)"
    "a_end (last (lo # xs)) \<le> a_start v" "a_end v \<le> a_start (hd (ys @ [hi]))"
    by (rule gap_atE)
  from insert_vrd_at [OF m(4) [unfolded g(1)] m(2,3) assms(2) g(3,4) m(1) [unfolded g(1)]]
  obtain mid' where "insert_vrd idx v (m, t) = (Ok (), m\<lparr>m_vrds := lo # mid' @ [hi]\<rparr>, t)"
    "mid_ok (m_range m) mid'" "covered mid' = covered mid \<union> addrs (a_range v)"
    unfolding g(1,2) by blast
  then show ?thesis using wf_manager_update [OF assms(1) m(2,3)] m(5) same_region_vrds by metis
qed

section \<open>Freeing a range\<close>

definition free_pieces :: "MmRange \<Rightarrow> MmArea \<Rightarrow> MmArea list" where
  "free_pieces rng v =
     (if addrs (a_range v) \<inter> addrs rng = {} then [v]
      else map (area_at v) (range_subtract (a_range v) rng))"

lemma range_subtract_intersect:
  assumes "range_intersect r other = Some i"
  shows "range_subtract r i = range_subtract r other"
proof -
  note i = range_intersect_Some [OF assms]
  have "r_start r < r_end r" using i(3-5) by (auto simp: max_def min_def split: if_splits)
  then show ?thesis using i by (simp add: range_subtract_cases Int_absorb1)
qed

lemma free_vrd_Ok:
  assumes "free_vrd pf ops perm rng v s = (Ok ys, s')" "a_start v \<le> a_end v"
  shows "ys = free_pieces rng v"
proof (cases "range_intersect (a_range v) rng")
  case None
  then have "addrs (a_range v) \<inter> addrs rng = {}" by (simp add: range_intersect_None)
  then show ?thesis using assms(1) None by (simp add: free_vrd_def area_intersect_ok free_pieces_def)
next
  case (Some i)
  have "addrs (a_range v) \<inter> addrs rng \<noteq> {}" using range_intersect_Some [OF Some] by simp
  then show ?thesis
    using assms Some
    by (auto simp: free_vrd_def area_intersect_ok Ok_iffs free_pieces_def area_subtract_ok
        range_subtract_intersect)
qed

text \<open>A range of no address frees nothing, whatever its bounds are.\<close>

lemma free_pieces_empty: "addrs rng = {} \<Longrightarrow> free_pieces rng v = [v]"
  by (simp add: free_pieces_def)

lemma free_pieces_ok:
  assumes "area_ok R v" "wf_range rng \<or> addrs rng = {}"
  shows "mid_ok R (free_pieces rng v)"
    "covered (free_pieces rng v) = addrs (a_range v) - addrs rng"
    "\<And>p. p \<in> set (free_pieces rng v) \<Longrightarrow> is_superset_of (a_range v) (a_range p)"
proof -
  have v: "wf_range (a_range v)" "a_start v \<le> a_end v" "is_superset_of R (a_range v)"
    "a_state v = Committed" "a_typ v = MT_Reg"
    using assms(1) by (auto simp: area_ok_def)
  note p = range_subtract_props [OF v(2)]
  show sup: "\<And>p. p \<in> set (free_pieces rng v) \<Longrightarrow> is_superset_of (a_range v) (a_range p)"
    by (auto simp: free_pieces_def is_superset_of_def dest: p(1) split: if_splits)
  have "area_ok R (area_at v r)" if r: "r \<in> set (range_subtract (a_range v) rng)" "wf_range rng" for r
    using p [OF r(1)] v wf_range_subtract [OF v(1) r(2,1)] by (auto simp: area_ok_def is_superset_of_def)
  then show "mid_ok R (free_pieces rng v)"
    using assms range_subtract_sorted [OF v(2)]
    by (auto simp: free_pieces_def mid_ok_def list_all_iff sorted_wrt_map)
  show "covered (free_pieces rng v) = addrs (a_range v) - addrs rng"
    using addrs_range_subtract [OF v(2)] by (auto simp: free_pieces_def covered_def)
qed

lemma mid_ok_free:
  assumes "mid_ok R mid" "wf_range rng \<or> addrs rng = {}"
  shows "mid_ok R (concat (map (free_pieces rng) mid))
    \<and> covered (concat (map (free_pieces rng) mid)) = covered mid - addrs rng"
  using assms(1)
proof (induction mid)
  case Nil
  show ?case by simp
next
  case (Cons v mid)
  have v: "area_ok R v" "\<And>w. w \<in> set mid \<Longrightarrow> area_ok R w" "\<And>w. w \<in> set mid \<Longrightarrow> area_before v w"
    using Cons.prems by (auto dest: mid_ok_area)
  note pv = free_pieces_ok [OF v(1) assms(2)]
  have "area_before p q" if "p \<in> set (free_pieces rng v)" "w \<in> set mid" "q \<in> set (free_pieces rng w)" for p q w
    using pv(3) [OF that(1)] free_pieces_ok(3) [OF v(2) [OF that(2)] assms(2) that(3)] v(3) [OF that(2)]
    by (auto simp: is_superset_of_def)
  then show ?case using Cons pv by auto
qed

lemma free_vrds_Ok:
  assumes "wf_manager m" "wf_range rng \<or> addrs rng = {}" "free_vrds pf ops rng (m, t) = (Ok u, m', t')"
  shows "wf_manager m'" "same_region m m'" "mapped m' = mapped m - addrs rng"
    "m_vrds m' = concat (map (free_pieces rng) (m_vrds m))"
proof -
  from assms(1) obtain lo mid hi where m: "m_vrds m = lo # mid @ [hi]" "guard_low (m_range m) lo"
    "guard_high (m_range m) hi" "mid_ok (m_range m) mid" "mapped m = covered mid"
    by (rule wf_managerE)
  have le: "a_start v \<le> a_end v" if "v \<in> set (m_vrds m)" for v
    using that m by (auto simp: guard_low_def guard_high_def dest!: mid_ok_area area_okD(2))
  from assms(3) obtain new where sup: "is_superset_of (m_range m) rng" and m': "m' = m\<lparr>m_vrds := new\<rparr>"
    and new: "flat_map (free_vrd pf ops (m_perm m) rng) (m_vrds m) t = (Ok new, t')"
    by (auto simp: free_vrds_def Ok_iffs get_vrds_def set_vrds_def on_machine_def zoom_def check_range_def
        split: prod.splits)
  have new_eq: "new = concat (map (free_pieces rng) (m_vrds m))"
    using flat_map_Ok_set [OF _ new, of "free_pieces rng"] free_vrd_Ok le by blast
  have "free_pieces rng lo = [lo]" "free_pieces rng hi = [hi]"
    using m(2,3) sup by (auto simp: free_pieces_def addrs_def guard_low_def guard_high_def is_superset_of_def)
  then have vs: "m_vrds m' = lo # concat (map (free_pieces rng) mid) @ [hi]"
    using m(1) by (simp add: m' new_eq)
  then have "m' = m\<lparr>m_vrds := lo # concat (map (free_pieces rng) mid) @ [hi]\<rparr>" by (simp add: m')
  then show "wf_manager m'" "mapped m' = mapped m - addrs rng"
    using wf_manager_update [OF assms(1) m(2,3)] mid_ok_free [OF m(4) assms(2)] m(5) by simp_all
  show "same_region m m'" by (simp add: m')
  show "m_vrds m' = concat (map (free_pieces rng) (m_vrds m))" by (simp add: m' new_eq)
qed

lemma free_vrds_nothing:
  assumes "addrs rng = {}"
  shows "free_vrds pf ops rng (m, t) =
    (if \<not> range_is_empty rng \<and> check_range m rng then (Ok (), m, t) else (Err EINVAL, m, t))"
proof -
  have n: "range_intersect (a_range v) rng = None" for v using assms by (simp add: range_intersect_None)
  have "free_vrd pf ops perm rng = (\<lambda>v. ret [v])" for perm
    by (simp add: fun_eq_iff free_vrd_def area_intersect_ok n)
  then have "flat_map (free_vrd pf ops perm rng) vs = ret vs" for perm vs
    using flat_map_ret [of "\<lambda>v. [v]"] by (simp add: concat_map_singleton)
  then show ?thesis
    by (simp add: free_vrds_def on_machine_def get_vrds_def set_vrds_def rust_defs)
qed

lemma never_err_free_vrd: "never_err (free_vrd pf ops perm rng v)"
  unfolding free_vrd_def area_intersect_ok ignore_def area_subtract_def inherits_from_def
  by (auto split: option.split intro!: never_err_and_then never_err_seq never_err_flat_map)

lemma free_vrds_Err:
  assumes "free_vrds pf ops rng (m, t) = (Err e, s')"
  shows "e = EINVAL" "s' = (m, t)" "range_is_empty rng \<or> \<not> check_range m rng"
proof -
  have "never_err (on_machine (flat_map (free_vrd pf ops p rng) vs))" for p vs
    by (auto simp: on_machine_def intro: never_err_free_vrd)
  then have "on_machine (flat_map (free_vrd pf ops p rng) vs) u \<noteq> (Err x, u')" for p vs u x u'
    by (rule never_errD)
  then show "e = EINVAL" "s' = (m, t)" "range_is_empty rng \<or> \<not> check_range m rng"
    using assms by (auto simp: free_vrds_def Err_iffs get_vrds_def set_vrds_def)
qed

end
