(* ===== verification/Mm_Free_Range.thy ===== *)
theory Mm_Free_Range
  imports Mm_Invariant
begin

text \<open>
  The search for free room in the reserved region (\<open>find_free_range\<close> of \<open>manager.rs\<close>): what it
  returns lies in a gap, an allocation at any address is best fit and fails only when no gap is
  large enough, and an allocation at a given address succeeds exactly when the range is free.
\<close>

section \<open>Gaps\<close>

definition chain :: "MmArea list \<Rightarrow> bool" where
  "chain vs \<longleftrightarrow> sorted_wrt area_before vs
     \<and> (\<forall>v \<in> set vs. a_start v \<le> a_end v \<and> a_end v < USIZE_LIMIT \<and> is_page_aligned (a_end v))"

lemma chain_Cons:
  "chain (v # vs) \<longleftrightarrow> (\<forall>w \<in> set vs. area_before v w) \<and> chain vs
     \<and> a_start v \<le> a_end v \<and> a_end v < USIZE_LIMIT \<and> is_page_aligned (a_end v)"
  by (auto simp: chain_def)

lemma wf_manager_chain:
  assumes "wf_manager m"
  shows "chain (m_vrds m)"
proof -
  from assms obtain lo mid hi where m: "m_vrds m = lo # mid @ [hi]" "guard_low (m_range m) lo"
    "guard_high (m_range m) hi" "mid_ok (m_range m) mid" "wf_range (m_range m)"
    by (rule wf_managerE)
  have "area_ok (m_range m) v" if "v \<in> set mid" for v using m(4) that by (rule mid_ok_area)
  then show ?thesis
    using m by (auto simp: chain_def sorted_wrt_append mid_ok_def guard_low_def guard_high_def area_ok_def
        wf_range_def is_superset_of_def)
qed

text \<open>The range that ends the gap before \<open>idx\<close> and has room for \<open>sz\<close> bytes.\<close>

definition fits :: "usize \<Rightarrow> MmArea list \<Rightarrow> nat \<Rightarrow> MmRange \<Rightarrow> bool" where
  "fits sz vs idx r \<longleftrightarrow> gap_at vs idx r \<and> r_end r = a_start (vs ! idx) \<and> r_start r + sz \<le> r_end r
     \<and> is_page_aligned (r_start r)"

lemma fits_Cons: "0 < j \<Longrightarrow> fits sz (v # vs) (Suc j) r \<longleftrightarrow> fits sz vs j r"
  by (cases j) (auto simp: fits_def gap_at_def)

text \<open>The address an allocation asks for.\<close>

fun alloc_addr :: "MmAllocAddr \<Rightarrow> usize option" where
  "alloc_addr Any = None"
| "alloc_addr (Hint a) = Some a"
| "alloc_addr (Need a) = Some a"
| "alloc_addr (Force a) = Some a"

lemma fits_first:
  assumes "chain (pre # nxt # rest)" "sz \<le> wrapping_sub (a_start nxt) (a_end pre)"
  shows "fits sz (pre # nxt # rest) (Suc 0) (range_from_unchecked (a_end pre) (a_start nxt))"
    "wrapping_sub (a_start nxt) (a_end pre) = a_start nxt - a_end pre"
proof -
  have "a_end pre \<le> a_start nxt" "a_start nxt < USIZE_LIMIT" "is_page_aligned (a_end pre)"
    using assms(1) by (auto simp: chain_Cons)
  then show "wrapping_sub (a_start nxt) (a_end pre) = a_start nxt - a_end pre"
    and "fits sz (pre # nxt # rest) (Suc 0) (range_from_unchecked (a_end pre) (a_start nxt))"
    using assms(2) by (auto simp: wrapping_sub_small fits_def gap_at_def range_from_unchecked_def)
qed

lemma fits_from_addr:
  assumes "fits sz vs k r" "chain vs" "a \<in> addrs r" "sz \<le> wrapping_sub (r_end r) a" "is_page_aligned a"
  shows "fits sz vs k (r\<lparr>r_start := a\<rparr>)" "range_set_start r a = ret (r\<lparr>r_start := a\<rparr>)"
proof -
  have "r_start r \<le> a" "a < r_end r" using assms(3) by (auto simp: addrs_def)
  moreover have "r_end r < USIZE_LIMIT"
    using assms(1,2) by (fastforce simp: fits_def gap_at_def chain_def dest: nth_mem)
  ultimately show "fits sz vs k (r\<lparr>r_start := a\<rparr>)" "range_set_start r a = ret (r\<lparr>r_start := a\<rparr>)"
    using assms by (auto simp: fits_def gap_at_def wrapping_sub_small intro!: range_set_start_ok)
qed

lemma free_scan_sound:
  assumes "free_scan addr sz idx vs best s = (Ok (k, r), s')" "chain vs"
    and "\<And>a. alloc_addr addr = Some a \<Longrightarrow> is_page_aligned a"
  shows "s' = s \<and> ((\<exists>i. best = Some (i, r) \<and> k = Suc i) \<or> idx < k \<and> fits sz vs (k - idx) r)"
  using assms
proof (induction addr sz idx vs best arbitrary: s rule: free_scan.induct)
  case (1 addr sz idx pre nxt rest best)
  let ?free = "range_from_unchecked (a_end pre) (a_start nxt)"
  have ch: "chain (nxt # rest)" using "1.prems"(2) by (simp add: chain_Cons)
  have shift: "fits sz (pre # nxt # rest) (k - idx) r" if "idx + 1 < k" "fits sz (nxt # rest) (k - (idx + 1)) r"
    using fits_Cons [of "k - (idx + 1)" sz pre "nxt # rest" r] that by (simp add: Suc_diff_Suc)
  show ?case
  proof (cases "wrapping_sub (a_start nxt) (a_end pre) < sz")
    case True
    then show ?thesis using "1.IH"(1) "1.prems" ch shift by fastforce
  next
    case False
    note f = fits_first [OF "1.prems"(2), of sz]
    have hit: "s' = s \<and> idx < k \<and> fits sz (pre # nxt # rest) (k - idx) r"
      if "alloc_addr addr = Some a" "a \<in> addrs ?free" "sz \<le> wrapping_sub (r_end ?free) a"
        "and_then (range_set_start ?free a) (\<lambda>r. ret (idx + 1, r)) s = (Ok (k, r), s')" for a
    proof -
      note fa = fits_from_addr [OF f(1) "1.prems"(2) that(2,3) "1.prems"(3) [OF that(1)]]
      show ?thesis using that(4) fa(1) False by (auto simp: fa(2))
    qed
    have rec: "s' = s \<and> ((\<exists>i. best = Some (i, r) \<and> k = Suc i) \<or> idx < k \<and> fits sz (pre # nxt # rest) (k - idx) r)"
      if "s' = s \<and> ((\<exists>i. better_range best idx ?free = Some (i, r) \<and> k = Suc i)
             \<or> idx + 1 < k \<and> fits sz (nxt # rest) (k - (idx + 1)) r)"
      using that shift f(1) False by (auto simp: better_range_def split: option.splits if_splits)
    show ?thesis
      using "1.prems" "1.IH"(2-5) False ch hit rec shift
      by (auto simp: Let_def split: MmAllocAddr.splits if_splits)
  qed
qed (auto split: option.splits)

text \<open>A free interval of the region lies in one of the gaps.\<close>

lemma separated_gap:
  assumes "a_end v \<le> a" "vs \<noteq> []" "a + sz \<le> a_start (last vs)"
    and "\<And>w. w \<in> set vs \<Longrightarrow> a_end w \<le> a \<or> a + sz \<le> a_start w"
  shows "\<exists>j. gap_at (v # vs) j \<lparr>r_start = a, r_end = a + sz\<rparr>"
  using assms
proof (induction vs arbitrary: v)
  case Nil
  then show ?case by simp
next
  case (Cons w vs)
  show ?case
  proof (cases "a + sz \<le> a_start w")
    case True
    then show ?thesis using Cons.prems by (intro exI [of _ 1]) (simp add: gap_at_def)
  next
    case False
    then have "a_end w \<le> a" "vs \<noteq> []" using Cons.prems by (auto split: if_splits)
    then obtain j where "gap_at (w # vs) j \<lparr>r_start = a, r_end = a + sz\<rparr>"
      using Cons.IH [of w] Cons.prems by (auto split: if_splits)
    then show ?thesis by (intro exI [of _ "Suc j"]) (cases j; auto simp: gap_at_def)
  qed
qed

lemma free_interval_gap:
  assumes "wf_manager m" "{a ..< a + sz} \<subseteq> addrs (m_range m) - mapped m" "0 < sz"
  shows "\<exists>j. gap_at (m_vrds m) j \<lparr>r_start = a, r_end = a + sz\<rparr>"
proof -
  from assms(1) obtain lo mid hi where m: "m_vrds m = lo # mid @ [hi]" "guard_low (m_range m) lo"
    "guard_high (m_range m) hi" "mid_ok (m_range m) mid" "mapped m = covered mid"
    by (rule wf_managerE)
  have "a \<in> {a ..< a + sz}" "a + sz - 1 \<in> {a ..< a + sz}" using assms(3) by auto
  then have "a \<in> addrs (m_range m)" "a + sz - 1 \<in> addrs (m_range m)" using assms(2) by blast+
  then have R: "r_start (m_range m) \<le> a" "a + sz \<le> r_end (m_range m)" using assms(3) by (auto simp: addrs_def)
  have "a_end w \<le> a \<or> a + sz \<le> a_start w" if "w \<in> set mid" for w
  proof -
    have d: "{a ..< a + sz} \<inter> {a_start w ..< a_end w} = {}" "a_start w < a_end w"
      using assms(2) that m(5) mid_ok_area [OF m(4) that]
      unfolding covered_def addrs_def area_ok_def by blast+
    have "max a (a_start w) \<in> {a ..< a + sz} \<inter> {a_start w ..< a_end w}" if "\<not> ?thesis"
      using that d(2) assms(3) by auto
    then show ?thesis using d(1) by blast
  qed
  then show ?thesis
    unfolding m(1) using R m(2,3)
    by (intro separated_gap) (auto simp: guard_low_def guard_high_def)
qed

text \<open>A gap holds no mapped address.\<close>

lemma gap_free:
  assumes "wf_manager m" "gap_at (m_vrds m) j r"
  shows "addrs r \<inter> mapped m = {}" "is_superset_of (m_range m) r"
proof -
  from assms(1) obtain lo mid hi where m: "m_vrds m = lo # mid @ [hi]" "guard_low (m_range m) lo"
    "guard_high (m_range m) hi" "mid_ok (m_range m) mid" "mapped m = covered mid"
    by (rule wf_managerE)
  from assms(2) [unfolded m(1)] obtain xs ys where g: "mid = xs @ ys"
    "a_end (last (lo # xs)) \<le> r_start r" "r_end r \<le> a_start (hd (ys @ [hi]))"
    by (rule gap_atE)
  have lastp: "xs = [] \<or> (\<exists>zs y. xs = zs @ [y] \<and> area_ok (m_range m) y \<and> (\<forall>w \<in> set zs. area_before w y))"
    using g(1) m(4) by (cases xs rule: rev_cases) auto
  have headp: "ys = [] \<or> (\<exists>zs y. ys = y # zs \<and> area_ok (m_range m) y \<and> (\<forall>w \<in> set zs. area_before y w))"
    using g(1) m(4) by (cases ys) auto
  have "a_end w \<le> r_start r" if "w \<in> set xs" for w
    using lastp g(2) that by (force simp: area_ok_def)
  moreover have "r_end r \<le> a_start w" if "w \<in> set ys" for w
    using headp g(3) that by (force simp: area_ok_def)
  ultimately show "addrs r \<inter> mapped m = {}"
    by (fastforce simp: m(5) g(1) covered_def addrs_def)
  have "r_start (m_range m) \<le> r_start r"
    using lastp g(2) m(2) by (auto simp: guard_low_def area_ok_def is_superset_of_def)
  moreover have "r_end r \<le> r_end (m_range m)"
    using headp g(3) m(3) by (auto simp: guard_high_def area_ok_def is_superset_of_def)
  ultimately show "is_superset_of (m_range m) r" by (simp add: is_superset_of_def)
qed

lemma free_scan_need:
  assumes "gap_at vs j \<lparr>r_start = a, r_end = a + sz\<rparr>" "chain vs" "0 < sz" "is_page_aligned a"
    and "addr = Need a \<or> addr = Force a"
  shows "free_scan addr sz idx vs best s = (Ok (idx + j, \<lparr>r_start = a, r_end = a_start (vs ! j)\<rparr>), s)"
  using assms
proof (induction addr sz idx vs best arbitrary: j s rule: free_scan.induct)
  case (1 addr sz idx pre nxt rest best)
  have ch: "chain (nxt # rest)" "a_end pre \<le> a_start nxt" "a_start nxt < USIZE_LIMIT"
    using "1.prems"(2) by (auto simp: chain_Cons)
  have w: "wrapping_sub (a_start nxt) (a_end pre) = a_start nxt - a_end pre"
    using ch by (simp add: wrapping_sub_small)
  show ?case
  proof (cases "j = 1")
    case True
    then have g: "a_end pre \<le> a" "a + sz \<le> a_start nxt" using "1.prems"(1) by (auto simp: gap_at_def)
    have r: "range_set_start \<lparr>r_start = a_end pre, r_end = a_start nxt\<rparr> a
        = ret \<lparr>r_start = a, r_end = a_start nxt\<rparr>"
      using g "1.prems"(4) by (simp add: range_set_start_ok)
    have "wrapping_sub (a_start nxt) a = a_start nxt - a" using g ch(3) by (simp add: wrapping_sub_small)
    then show ?thesis
      using g "1.prems"(3,5) True
      by (auto simp: Let_def w r addrs_def range_from_unchecked_def ret_def)
  next
    case False
    then obtain i where i: "j = Suc (Suc i)" "gap_at (nxt # rest) (Suc i) \<lparr>r_start = a, r_end = a + sz\<rparr>"
      using "1.prems"(1) by (cases j; cases "j - 1") (auto simp: gap_at_def)
    have "(nxt # rest) ! i \<in> set (nxt # rest)" using i(2) by (intro nth_mem) (auto simp: gap_at_def)
    then have "a_start nxt \<le> a_end ((nxt # rest) ! i)" using ch(1) by (fastforce simp: chain_Cons chain_def)
    then have "a_start nxt \<le> a" using i(2) by (simp add: gap_at_def)
    then show ?thesis
      using "1.IH" "1.prems"(3-5) i ch w
      by (auto simp: Let_def range_from_unchecked_def addrs_def)
  qed
qed (auto simp: gap_at_def)

text \<open>Allocation at any address: best fit, and complete.\<close>

fun best_gap :: "usize \<Rightarrow> nat \<Rightarrow> MmArea list \<Rightarrow> (nat \<times> MmRange) option \<Rightarrow> (nat \<times> MmRange) option" where
  "best_gap sz idx (pre # nxt # rest) best =
     best_gap sz (idx + 1) (nxt # rest)
       (if wrapping_sub (a_start nxt) (a_end pre) < sz then best
        else better_range best idx (range_from_unchecked (a_end pre) (a_start nxt)))"
| "best_gap sz idx vs best = best"

definition gap_size :: "MmArea list \<Rightarrow> nat \<Rightarrow> nat" where
  "gap_size vs j = a_start (vs ! j) - a_end (vs ! (j - 1))"

definition room :: "usize \<Rightarrow> MmArea list \<Rightarrow> nat \<Rightarrow> bool" where
  "room sz vs j \<longleftrightarrow> 0 < j \<and> j < length vs \<and> sz \<le> gap_size vs j"

lemma free_scan_best_gap:
  "free_scan Any sz idx vs best =
     (case best_gap sz idx vs best of Some (i, r) \<Rightarrow> ret (i + 1, r) | None \<Rightarrow> bail ENOMEM)"
  by (induction sz idx vs best rule: best_gap.induct) (simp_all add: Let_def split: if_split_asm)

lemma room_Cons:
  "room sz (pre # nxt # rest) j \<longleftrightarrow>
     j = 1 \<and> sz \<le> a_start nxt - a_end pre \<or> (\<exists>i. j = Suc i \<and> room sz (nxt # rest) i)"
  by (cases j; cases "j - 1") (auto simp: room_def gap_size_def)

lemma gap_size_Cons: "0 < i \<Longrightarrow> gap_size (v # vs) (Suc i) = gap_size vs i"
  by (cases i) (simp_all add: gap_size_def)

lemma chain_gap:
  assumes "chain (pre # nxt # rest)"
  shows "chain (nxt # rest)" "wrapping_sub (a_start nxt) (a_end pre) = a_start nxt - a_end pre"
    "range_size (range_from_unchecked (a_end pre) (a_start nxt)) = a_start nxt - a_end pre"
  using assms by (auto simp: chain_Cons wrapping_sub_small range_size_def range_from_unchecked_def)

lemma best_gap_None:
  assumes "chain vs"
  shows "best_gap sz idx vs best = None \<longleftrightarrow> best = None \<and> (\<forall>j. \<not> room sz vs j)"
  using assms
proof (induction sz idx vs best rule: best_gap.induct)
  case (1 sz idx pre nxt rest best)
  then show ?case
    using chain_gap [OF 1(2)] by (auto simp: room_Cons better_range_def split: option.splits if_splits)
qed (auto simp: room_def)

lemma better_range_le:
  "\<exists>i r. better_range best idx free = Some (i, r) \<and> range_size r \<le> range_size free
     \<and> (\<forall>k q. best = Some (k, q) \<longrightarrow> range_size r \<le> range_size q)"
  by (auto simp: better_range_def split: option.splits)

lemma best_gap_le:
  assumes "chain vs" "best_gap sz idx vs best = Some (k, r)"
  shows "(\<forall>j. room sz vs j \<longrightarrow> range_size r \<le> gap_size vs j)
    \<and> (\<forall>i q. best = Some (i, q) \<longrightarrow> range_size r \<le> range_size q)"
  using assms
proof (induction sz idx vs best rule: best_gap.induct)
  case (1 sz idx pre nxt rest best)
  note c = chain_gap [OF "1.prems"(1)]
  let ?free = "range_from_unchecked (a_end pre) (a_start nxt)"
  let ?best = "if a_start nxt - a_end pre < sz then best else better_range best idx ?free"
  have IH: "\<forall>j. room sz (nxt # rest) j \<longrightarrow> range_size r \<le> gap_size (nxt # rest) j"
    "\<forall>i q. ?best = Some (i, q) \<longrightarrow> range_size r \<le> range_size q"
    using "1.IH" "1.prems"(2) c by auto
  obtain i q where b: "better_range best idx ?free = Some (i, q)" "range_size q \<le> a_start nxt - a_end pre"
    "\<forall>k p. best = Some (k, p) \<longrightarrow> range_size q \<le> range_size p"
    using better_range_le [of best idx ?free] c(3) by auto
  have first: "range_size r \<le> a_start nxt - a_end pre" if "sz \<le> a_start nxt - a_end pre"
    using IH(2) that b(1,2) by fastforce
  have old: "range_size r \<le> range_size p" if "best = Some (k, p)" for k p
    using IH(2) that b(1,3) by (fastforce split: if_splits)
  have "range_size r \<le> gap_size (pre # nxt # rest) j" if "room sz (pre # nxt # rest) j" for j
    using that [unfolded room_Cons]
  proof (elim disjE exE conjE)
    assume "j = 1" "sz \<le> a_start nxt - a_end pre"
    then show ?thesis using first by (simp add: gap_size_def)
  next
    fix i assume i: "j = Suc i" "room sz (nxt # rest) i"
    then have "gap_size (pre # nxt # rest) j = gap_size (nxt # rest) i"
      by (simp add: gap_size_Cons room_def)
    then show ?thesis using IH(1) i by simp
  qed
  then show ?case using old by blast
qed (auto simp: room_def)

section \<open>The search\<close>

lemma free_scan_no_panic:
  assumes "chain vs" "\<And>a. alloc_addr addr = Some a \<Longrightarrow> is_page_aligned a"
  shows "\<exists>x. free_scan addr sz idx vs best s = (x, s) \<and> (x = Err ENOMEM \<or> (\<exists>y. x = Ok y))"
  using assms
proof (induction addr sz idx vs best rule: free_scan.induct)
  case (1 addr sz idx pre nxt rest best)
  have ch: "chain (nxt # rest)" using "1.prems"(1) by (simp add: chain_Cons)
  let ?free = "range_from_unchecked (a_end pre) (a_start nxt)"
  have hit: "and_then (range_set_start ?free a) (\<lambda>r. ret (Suc idx, r)) s = (Ok (Suc idx, ?free\<lparr>r_start := a\<rparr>), s)"
    if "alloc_addr addr = Some a" "a \<in> addrs ?free" for a
    using that "1.prems"(2)
    by (subst range_set_start_ok) (auto simp: addrs_def range_from_unchecked_def ret_def)
  show ?case
    using "1.IH" ch "1.prems"(2) hit
    by (cases addr) (auto simp: Let_def bail_def)
qed (auto simp: rust_defs split: option.splits)

definition addr_request_ok :: "MmManager \<Rightarrow> usize \<Rightarrow> usize \<Rightarrow> bool" where
  "addr_request_ok m a sz \<longleftrightarrow> is_page_aligned a \<and> is_page_aligned sz \<and> a + sz < USIZE_LIMIT
     \<and> r_start (m_range m) \<le> a \<and> a + sz \<le> r_end (m_range m)"

lemma request_check:
  "addr_request_ok m a sz \<Longrightarrow>
     and_then (range_new_with_size a sz) (\<lambda>r. ensure (check_range m r) EINVAL) = ret ()"
  "\<not> addr_request_ok m a sz \<Longrightarrow>
     and_then (range_new_with_size a sz) (\<lambda>r. ensure (check_range m r) EINVAL) = bail EINVAL"
  by (auto simp: addr_request_ok_def range_new_with_size_def check_range_def is_superset_of_def
      rust_defs fun_eq_iff checked_add_def)

lemma find_free_range_unfold:
  "find_free_range pf ops Any sz (m, t) =
     (if sz > range_size (m_range m) then (Err EINVAL, m, t) else free_scan Any sz 0 (m_vrds m) None (m, t))"
  "find_free_range pf ops (Hint a) sz (m, t) =
     (if addr_request_ok m a sz then free_scan (Hint a) sz 0 (m_vrds m) None (m, t) else (Err EINVAL, m, t))"
  "find_free_range pf ops (Need a) sz (m, t) =
     (if addr_request_ok m a sz then free_scan (Need a) sz 0 (m_vrds m) None (m, t) else (Err EINVAL, m, t))"
  "find_free_range pf ops (Force a) sz (m, t) =
     (if addr_request_ok m a sz
      then and_then (free_vrds pf ops (range_from_unchecked a sz))
             (\<lambda>_. and_then get_vrds (\<lambda>vs. free_scan (Force a) sz 0 vs None)) (m, t)
      else (Err EINVAL, m, t))"
proof -
  show "find_free_range pf ops Any sz (m, t) =
     (if sz > range_size (m_range m) then (Err EINVAL, m, t) else free_scan Any sz 0 (m_vrds m) None (m, t))"
    by (simp add: find_free_range_def bail_def)
  show "find_free_range pf ops (Hint a) sz (m, t) =
     (if addr_request_ok m a sz then free_scan (Hint a) sz 0 (m_vrds m) None (m, t) else (Err EINVAL, m, t))"
    by (simp add: find_free_range_def request_check bail_def)
  show "find_free_range pf ops (Need a) sz (m, t) =
     (if addr_request_ok m a sz then free_scan (Need a) sz 0 (m_vrds m) None (m, t) else (Err EINVAL, m, t))"
    by (simp add: find_free_range_def request_check bail_def)
  show "find_free_range pf ops (Force a) sz (m, t) =
     (if addr_request_ok m a sz
      then and_then (free_vrds pf ops (range_from_unchecked a sz))
             (\<lambda>_. and_then get_vrds (\<lambda>vs. free_scan (Force a) sz 0 vs None)) (m, t)
      else (Err EINVAL, m, t))"
    by (simp add: find_free_range_def seq_def request_check bail_def)
qed

lemma free_scan_mem:
  assumes "wf_manager m" "free_scan addr sz 0 (m_vrds m) None (m, t) = (Ok (k, r), s')"
    and "\<And>a. alloc_addr addr = Some a \<Longrightarrow> is_page_aligned a"
  shows "s' = (m, t)" "fits sz (m_vrds m) k r"
  using free_scan_sound [OF assms(2) wf_manager_chain [OF assms(1)] assms(3)] by simp_all

lemma free_scan_start:
  assumes "free_scan addr sz idx vs None s = (Ok (k, r), s')" "addr = Need a \<or> addr = Force a"
  shows "r_start r = a"
  using assms
  by (induction addr sz idx vs "None :: (nat \<times> MmRange) option" arbitrary: s rule: free_scan.induct)
    (auto simp: Let_def range_set_start_def Ok_iffs split: if_splits)

text \<open>What a successful search returns, whatever the kind of address.\<close>

lemma find_free_range_Ok:
  assumes "wf_manager m" "find_free_range pf ops addr sz (m, t) = (Ok (k, r), m', t')"
  shows "wf_manager m'" "same_region m m'" "mapped m' \<subseteq> mapped m" "fits sz (m_vrds m') k r"
proof -
  have free: "wf_manager m' \<and> same_region m m' \<and> mapped m' \<subseteq> mapped m \<and> fits sz (m_vrds m') k r"
  proof (cases addr)
    case (Force a)
    let ?rng = "range_from_unchecked a sz"
    from assms(2) obtain u t1 where ok: "addr_request_ok m a sz"
      and fv: "free_vrds pf ops ?rng (m, t) = (Ok (), u, t1)"
      and scan: "free_scan (Force a) sz 0 (m_vrds u) None (u, t1) = (Ok (k, r), m', t')"
      by (auto simp: Force find_free_range_unfold Ok_iffs get_vrds_def split: if_splits prod.splits)
    have "wf_range ?rng \<or> addrs ?rng = {}"
      using ok by (auto simp: addr_request_ok_def wf_range_def range_from_unchecked_def addrs_def)
    note f = free_vrds_Ok [OF assms(1) this fv]
    have "is_page_aligned a" using ok by (simp add: addr_request_ok_def)
    then show ?thesis using free_scan_mem [OF f(1) scan] f by auto
  next
    case Any
    then have scan: "free_scan addr sz 0 (m_vrds m) None (m, t) = (Ok (k, r), m', t')"
      using assms(2) by (auto simp: find_free_range_unfold split: if_splits)
    show ?thesis using free_scan_mem [OF assms(1) scan] assms(1) Any by simp
  next
    case (Hint a)
    then have scan: "free_scan addr sz 0 (m_vrds m) None (m, t) = (Ok (k, r), m', t')" "is_page_aligned a"
      using assms(2) by (auto simp: find_free_range_unfold addr_request_ok_def split: if_splits)
    show ?thesis using free_scan_mem [OF assms(1) scan(1)] assms(1) Hint scan(2) by simp
  next
    case (Need a)
    then have scan: "free_scan addr sz 0 (m_vrds m) None (m, t) = (Ok (k, r), m', t')" "is_page_aligned a"
      using assms(2) by (auto simp: find_free_range_unfold addr_request_ok_def split: if_splits)
    show ?thesis using free_scan_mem [OF assms(1) scan(1)] assms(1) Need scan(2) by simp
  qed
  then show "wf_manager m'" "same_region m m'" "mapped m' \<subseteq> mapped m" "fits sz (m_vrds m') k r"
    by simp_all
qed

lemma room_gap: "gap_at vs j \<lparr>r_start = a, r_end = a + sz\<rparr> \<Longrightarrow> room sz vs j"
  by (auto simp: gap_at_def room_def gap_size_def)

text \<open>
  C31: an allocation that leaves the address to the manager takes the smallest gap that is large
  enough, and reports \<open>ENOMEM\<close> only when no interval of the requested size is free. The search
  changes nothing and cannot panic.
\<close>

theorem find_free_range_any_best_fit:
  assumes "wf_manager m" "0 < sz" "sz \<le> range_size (m_range m)"
  shows "case find_free_range pf ops Any sz (m, t) of
      (Ok (k, r), s') \<Rightarrow> s' = (m, t) \<and> fits sz (m_vrds m) k r \<and> addrs r \<inter> mapped m = {}
          \<and> (\<forall>j. room sz (m_vrds m) j \<longrightarrow> range_size r \<le> gap_size (m_vrds m) j)
    | (Err e, s') \<Rightarrow> e = ENOMEM \<and> s' = (m, t)
          \<and> \<not> (\<exists>a. {a ..< a + sz} \<subseteq> addrs (m_range m) - mapped m)
    | (Panic, s') \<Rightarrow> False"
proof (cases "best_gap sz 0 (m_vrds m) None")
  case None
  have "\<not> {a ..< a + sz} \<subseteq> addrs (m_range m) - mapped m" for a
    using free_interval_gap [OF assms(1) _ assms(2)] room_gap best_gap_None [OF wf_manager_chain [OF assms(1)]] None
    by blast
  then show ?thesis using None assms(3) by (simp add: find_free_range_unfold free_scan_best_gap bail_def)
next
  case (Some p)
  obtain i r where p: "p = (i, r)" by (cases p)
  have scan: "free_scan Any sz 0 (m_vrds m) None (m, t) = (Ok (i + 1, r), m, t)"
    using Some by (simp add: free_scan_best_gap p ret_def)
  note f = free_scan_mem [OF assms(1) scan]
  have "addrs r \<inter> mapped m = {}" using gap_free(1) [OF assms(1)] f(2) by (auto simp: fits_def)
  then show ?thesis
    using scan f(2) assms(3) best_gap_le [OF wf_manager_chain [OF assms(1)] Some [unfolded p]]
    by (simp add: find_free_range_unfold)
qed

text \<open>The search for a fixed address succeeds exactly when the range is free.\<close>

lemma free_scan_fixed:
  assumes "wf_manager m" "addr_request_ok m a sz" "0 < sz" "addr = Need a \<or> addr = Force a"
  shows "if {a ..< a + sz} \<inter> mapped m = {}
    then \<exists>k r. free_scan addr sz 0 (m_vrds m) None (m, t) = (Ok (k, r), m, t) \<and> r_start r = a \<and> fits sz (m_vrds m) k r
    else free_scan addr sz 0 (m_vrds m) None (m, t) = (Err ENOMEM, m, t)"
proof -
  let ?scan = "free_scan addr sz 0 (m_vrds m) None (m, t)"
  have al: "is_page_aligned a" "\<And>b. alloc_addr addr = Some b \<Longrightarrow> is_page_aligned b"
    using assms(2,4) by (auto simp: addr_request_ok_def)
  have ch: "chain (m_vrds m)" by (rule wf_manager_chain [OF assms(1)])
  show ?thesis
  proof (cases "{a ..< a + sz} \<inter> mapped m = {}")
    case True
    have "{a ..< a + sz} \<subseteq> addrs (m_range m) - mapped m"
      using True assms(2) by (auto simp: addr_request_ok_def addrs_def)
    then obtain j where "gap_at (m_vrds m) j \<lparr>r_start = a, r_end = a + sz\<rparr>"
      using free_interval_gap [OF assms(1)] assms(3) by blast
    from free_scan_need [OF this ch assms(3) al(1) assms(4), of 0 None "(m, t)"]
    have scan: "?scan = (Ok (j, \<lparr>r_start = a, r_end = a_start (m_vrds m ! j)\<rparr>), m, t)" by simp
    then show ?thesis using True free_scan_mem(2) [OF assms(1) scan] al by auto
  next
    case False
    have "?scan \<noteq> (Ok y, m, t)" for y
    proof
      assume "?scan = (Ok y, m, t)"
      then obtain k r where scan: "?scan = (Ok (k, r), m, t)" by (cases y) auto
      have f: "fits sz (m_vrds m) k r" using free_scan_mem(2) [OF assms(1) scan] al by simp
      have "r_start r = a" by (rule free_scan_start [OF scan assms(4)])
      then have "{a ..< a + sz} \<subseteq> addrs r" using f by (auto simp: fits_def addrs_def)
      moreover have "addrs r \<inter> mapped m = {}" using gap_free(1) [OF assms(1), of k r] f by (simp add: fits_def)
      ultimately show False using False by blast
    qed
    moreover have "\<exists>x. ?scan = (x, m, t) \<and> (x = Err ENOMEM \<or> (\<exists>y. x = Ok y))"
      by (rule free_scan_no_panic [OF ch al(2)])
    ultimately show ?thesis using False by auto
  qed
qed

text \<open>
  An allocation at a needed address succeeds exactly when the whole range is free, and then
  at that address; otherwise it reports \<open>ENOMEM\<close> and changes nothing.
\<close>

lemma find_free_range_need_exact:
  assumes "wf_manager m" "addr_request_ok m a sz" "0 < sz"
  shows "if {a ..< a + sz} \<inter> mapped m = {}
    then \<exists>k r. find_free_range pf ops (Need a) sz (m, t) = (Ok (k, r), m, t) \<and> r_start r = a \<and> fits sz (m_vrds m) k r
    else find_free_range pf ops (Need a) sz (m, t) = (Err ENOMEM, m, t)"
  using free_scan_fixed [OF assms, of "Need a" t] assms(2) by (simp add: find_free_range_unfold)

text \<open>
  C35: forcing an address does not free what occupies it. The range given to \<open>free_vrds\<close> runs from
  the address to the size instead of to their sum, so above the size it is empty: nothing is freed
  and an occupied range is refused with \<open>ENOMEM\<close>, as for \<open>Need\<close>.
\<close>

theorem find_free_range_force_frees_nothing:
  assumes "wf_manager m" "addr_request_ok m a sz" "0 < sz" "sz < a"
    and "{a ..< a + sz} \<inter> mapped m \<noteq> {}"
  shows "find_free_range pf ops (Force a) sz (m, t) = (Err ENOMEM, m, t)"
proof -
  let ?rng = "range_from_unchecked a sz"
  have "addrs ?rng = {}" "\<not> range_is_empty ?rng" "check_range m ?rng"
    using assms(2,4)
    by (auto simp: addrs_def range_defs check_range_def addr_request_ok_def)
  then have "free_vrds pf ops ?rng (m, t) = (Ok (), m, t)" by (simp add: free_vrds_nothing)
  then show ?thesis
    using free_scan_fixed [OF assms(1-3), of "Force a" t] assms(2,5)
    by (simp add: find_free_range_unfold and_then_def [of "free_vrds pf ops ?rng"])
qed

section \<open>A region with one mapping\<close>

definition demo_area :: "usize \<Rightarrow> usize \<Rightarrow> MmArea" where
  "demo_area start fin =
     \<lparr>a_range = \<lparr>r_start = start, r_end = fin\<rparr>, a_perm = MP_RW, a_state = Committed, a_typ = MT_Reg,
      a_object = None\<rparr>"

definition demo_manager :: MmManager where
  "demo_manager =
     \<lparr>m_range = \<lparr>r_start = 0x14000, r_end = 0x1C000\<rparr>, m_perm = MP_RW,
      m_vrds =
        [(demo_area 0x10000 0x14000)\<lparr>a_perm := MP_None, a_state := Locked\<rparr>,
         demo_area 0x16000 0x17000,
         (demo_area 0x1C000 0x1C000)\<lparr>a_perm := MP_None, a_state := Locked\<rparr>]\<rparr>"

definition demo_machine :: "log_event list machine" where
  "demo_machine = \<lparr>memory = (\<lambda>_. 0), outside = []\<rparr>"

definition demo_ops :: "log_event list map_ops" where
  "demo_ops = \<lparr>map_read_at = (\<lambda>_. zero_read_at), map_write_at = (\<lambda>_. zero_write_at), map_flush = (\<lambda>_. zero_flush)\<rparr>"

lemmas demo_defs = demo_manager_def demo_area_def

lemma demo_manager_wf: "wf_manager demo_manager" "mapped demo_manager = {0x16000 ..< 0x17000}"
  by (simp_all add: demo_defs wf_manager_def vrds_ok_def inner_def guard_low_def guard_high_def area_ok_def
      wf_range_def is_superset_of_def is_page_aligned_iff USIZE_LIMIT_def mapped_def addrs_def)

lemma demo_request_ok:
  "addr_request_ok demo_manager 0x15000 0x1000" "addr_request_ok demo_manager 0x16000 0x1000"
  by (simp_all add: demo_defs addr_request_ok_def is_page_aligned_iff USIZE_LIMIT_def)

theorem find_free_range_any_best_fit_witness:
  "wf_manager demo_manager \<and>
   (case find_free_range (demo_platform True) demo_ops Any 0x1000 (demo_manager, demo_machine) of
      (Ok (k, r), s') \<Rightarrow> fits 0x1000 (m_vrds demo_manager) k r | (Err e, s') \<Rightarrow> e = ENOMEM | (Panic, s') \<Rightarrow> False)"
proof -
  have "(0x1000 :: nat) \<le> range_size (m_range demo_manager)"
    by (simp add: demo_defs range_size_def wrapping_sub_def USIZE_LIMIT_def)
  from find_free_range_any_best_fit [where pf = "demo_platform True" and ops = demo_ops and t = demo_machine,
      OF demo_manager_wf(1) _ this]
  show ?thesis by (auto simp: demo_manager_wf split: prod.splits res.splits)
qed

theorem find_free_range_force_frees_nothing_witness:
  "0x16000 \<in> mapped demo_manager \<and>
   find_free_range (demo_platform True) demo_ops (Force 0x16000) 0x1000 (demo_manager, demo_machine)
     = (Err ENOMEM, demo_manager, demo_machine)"
  using find_free_range_force_frees_nothing [OF demo_manager_wf(1) demo_request_ok(2)]
  by (simp add: demo_manager_wf)

end
