(* ===== verification/Mm_Split.thy ===== *)
theory Mm_Split
  imports Mm_Free_Range
begin

text \<open>
  Splitting areas at the ends of a range and merging them again (\<open>split_vrds\<close> and \<open>combine_vrds\<close> of
  \<open>manager.rs\<close>): both keep the invariant and the set of mapped addresses.
\<close>

section \<open>Looking up an address\<close>

lemma find_vrd_SomeD:
  assumes "find_vrd vs a = Some (i, v)"
  shows "i < length vs" "vs ! i = v" "a \<in> addrs (a_range v)"
  using assms by (auto simp: find_vrd_def find_Some_iff nth_enumerate_eq)

lemma find_enumerate_None:
  "find (\<lambda>(_, v). P v) (List.enumerate n vs) = None \<longleftrightarrow> (\<forall>v \<in> set vs. \<not> P v)"
  by (induction vs arbitrary: n) auto

lemma find_vrd_None: "find_vrd vs a = None \<longleftrightarrow> (\<forall>v \<in> set vs. a \<notin> addrs (a_range v))"
  by (simp add: find_vrd_def find_enumerate_None)

text \<open>An address of the region is found in one of the areas between the guards.\<close>

lemma find_vrd_mid:
  assumes "find_vrd (lo # mid @ [hi]) a = Some (i, v)" "guard_low R lo" "guard_high R hi" "a \<in> addrs R"
  obtains xs ys where "mid = xs @ v # ys" "i = Suc (length xs)"
proof -
  note f = find_vrd_SomeD [OF assms(1)]
  have "v \<noteq> lo" using f(3) assms(2,4) by (auto simp: guard_low_def addrs_def)
  then have i: "i \<noteq> 0" using f(2) by (cases i) auto
  have "v \<noteq> hi" using f(3) assms(3) by (auto simp: guard_high_def addrs_def)
  then have "i - 1 < length mid" "mid ! (i - 1) = v"
    using f(1,2) i by (auto simp: nth_Cons' nth_append split: if_splits)
  then show thesis
    using that [of "take (i - 1) mid" "drop (Suc (i - 1)) mid"] id_take_nth_drop [of "i - 1" mid] i by simp
qed

lemma find_vrd_mapped:
  assumes "wf_manager m" "a \<in> addrs (m_range m)"
  shows "find_vrd (m_vrds m) a \<noteq> None \<longleftrightarrow> a \<in> mapped m"
proof -
  from assms(1) obtain lo mid hi where m: "m_vrds m = lo # mid @ [hi]" "guard_low (m_range m) lo"
    "guard_high (m_range m) hi" "mapped m = covered mid"
    by (rule wf_managerE)
  have "a \<notin> addrs (a_range lo)" "a \<notin> addrs (a_range hi)"
    using m(2,3) assms(2) by (auto simp: guard_low_def guard_high_def addrs_def)
  then show ?thesis using m(1,4) by (auto simp: find_vrd_None covered_def)
qed

section \<open>Splitting\<close>

lemma split_at_ok:
  assumes "mid_ok R (xs @ v # ys)" "a_start v < k" "k < a_end v" "is_page_aligned k"
    and vs: "m_vrds m = lo # (xs @ v # ys) @ [hi]"
  shows "\<exists>mid'. split_at (Suc (length xs)) v k (m, t) = (Ok (), m\<lparr>m_vrds := lo # mid' @ [hi]\<rparr>, t)
    \<and> mid_ok R mid' \<and> covered mid' = covered (xs @ v # ys)"
proof -
  have v: "wf_range (a_range v)" "a_state v = Committed" "a_typ v = MT_Reg" "area_ok R v"
    using assms(1) by (auto simp: area_ok_def)
  have lim: "is_page_aligned (a_end v)" "a_end v < USIZE_LIMIT" "is_page_aligned (a_end v - k)"
    using v(1) assms(4) by (auto simp: wf_range_def)
  let ?r2 = "\<lparr>r_start = k, r_end = a_end v\<rparr>"
  let ?v1 = "v\<lparr>a_range := (a_range v)\<lparr>r_end := k\<rparr>\<rparr>" and ?v2 = "area_at v ?r2"
  have new: "range_new k (a_end v) = ret ?r2"
    using assms(4) lim by (simp add: range_new_def fun_eq_iff rust_defs)
  have inh: "inherits_from ?r2 v = ret ?v2"
    using assms(2) by (simp add: inherits_from_ok is_superset_of_def area_at_def)
  have sub: "range_sub_size (a_range v) (range_size ?r2) = ret ((a_range v)\<lparr>r_end := k\<rparr>)"
  proof -
    have "a_start v + (a_end v - k) \<le> a_end v" "a_end v - (a_end v - k) = k" using assms(2,3) by auto
    then show ?thesis using range_sub_size_ok [of "a_end v - k" "a_range v"] v(1) lim assms(3) by simp
  qed
  have nth: "m_vrds m ! Suc (length xs) = v" by (simp add: vs nth_append)
  have "split_at (Suc (length xs)) v k (m, t) = (Ok (), m\<lparr>m_vrds := lo # (xs @ ?v1 # ?v2 # ys) @ [hi]\<rparr>, t)"
    using vec_insert_append [of "lo # xs @ [?v1]" ?v2 "ys @ [hi]"]
    by (simp add: split_at_def new inh sub nth) (simp add: vs list_update_append)
  moreover have "mid_ok R (xs @ ?v1 # ?v2 # ys) \<and> covered (xs @ ?v1 # ?v2 # ys) = covered (xs @ v # ys)"
    using mid_ok_cut [OF assms(1-4), of ?v1 ?v2] v by simp
  ultimately show ?thesis by blast
qed

lemma split_at_wf:
  assumes "wf_manager m" "find_vrd (m_vrds m) a = Some (i, v)" "a \<in> addrs (m_range m)"
    and "a_start v < k" "k < a_end v" "is_page_aligned k"
  shows "\<exists>m'. split_at i v k (m, t) = (Ok (), m', t) \<and> wf_manager m' \<and> same_region m m' \<and> mapped m' = mapped m"
proof -
  from assms(1) obtain lo mid hi where m: "m_vrds m = lo # mid @ [hi]" "guard_low (m_range m) lo"
    "guard_high (m_range m) hi" "mid_ok (m_range m) mid" "mapped m = covered mid"
    by (rule wf_managerE)
  obtain xs ys where s: "mid = xs @ v # ys" "i = Suc (length xs)"
    by (rule find_vrd_mid [OF assms(2) [unfolded m(1)] m(2,3) assms(3)])
  from split_at_ok [OF m(4) [unfolded s(1)] assms(4-6) m(1) [unfolded s(1)]] obtain mid'
    where "split_at i v k (m, t) = (Ok (), m\<lparr>m_vrds := lo # mid' @ [hi]\<rparr>, t)"
      "mid_ok (m_range m) mid'" "covered mid' = covered mid"
    unfolding s by blast
  then show ?thesis using wf_manager_update [OF assms(1) m(2,3)] m(5) same_region_vrds by metis
qed

text \<open>
  Both halves of \<open>split_vrds\<close>: look an address up and, under a condition on its area, cut the area
  at \<open>k\<close>.
\<close>

definition split_side :: "usize \<Rightarrow> (MmArea \<Rightarrow> bool) \<Rightarrow> usize \<Rightarrow> ('w mm_state, errno, unit) rust" where
  "split_side a c k =
     and_then get_vrds (\<lambda>vs. and_then (ok_or (find_vrd vs a) EINVAL)
       (\<lambda>(idx, vrd). if c vrd then split_at idx vrd k else ret ()))"

lemma split_side_ok:
  assumes "wf_manager m" "a \<in> addrs (m_range m)" "is_page_aligned k"
    and "\<And>v. a \<in> addrs (a_range v) \<Longrightarrow> c v \<Longrightarrow> a_start v < k \<and> k < a_end v"
  shows "if a \<in> mapped m
    then \<exists>m'. split_side a c k (m, t) = (Ok (), m', t) \<and> wf_manager m' \<and> same_region m m' \<and> mapped m' = mapped m
    else split_side a c k (m, t) = (Err EINVAL, m, t)"
proof (cases "find_vrd (m_vrds m) a")
  case None
  then show ?thesis
    using find_vrd_mapped [OF assms(1,2)] by (simp add: split_side_def ok_or_def bail_def)
next
  case (Some p)
  obtain i v where p: "p = (i, v)" by (cases p)
  have "a \<in> mapped m" using find_vrd_mapped [OF assms(1,2)] Some by simp
  moreover have "c v \<Longrightarrow> a_start v < k \<and> k < a_end v"
    using find_vrd_SomeD(3) [OF Some [unfolded p]] assms(4) by blast
  ultimately show ?thesis
    using split_at_wf [OF assms(1) Some [unfolded p] assms(2), of k t] assms(1,3)
    by (simp add: split_side_def Some p ok_or_def ret_def)
qed

lemma split_vrds_sides:
  "split_vrds rng (m, t) =
     (if \<not> range_is_empty rng \<and> check_range m rng
      then and_then (split_side (r_start rng) (\<lambda>v. a_start v < r_start rng) (r_start rng))
             (\<lambda>_. split_side (wrapping_sub (r_end rng) 1) (\<lambda>v. r_end rng < a_end v) (r_end rng)) (m, t)
      else (Err EINVAL, m, t))"
  by (cases "find_vrd (m_vrds m) (r_start rng)")
    (auto simp: split_vrds_def split_side_def seq_def ensure_def bail_def and_then_assoc ok_or_def)

lemma split_vrds_wf:
  assumes "wf_manager m" "wf_range rng" "r_start rng < r_end rng" "is_superset_of (m_range m) rng"
  shows "\<exists>m'. wf_manager m' \<and> same_region m m' \<and> mapped m' = mapped m \<and>
    split_vrds rng (m, t) =
      (if r_start rng \<in> mapped m \<and> r_end rng - 1 \<in> mapped m then Ok () else Err EINVAL, m', t)"
proof -
  have w: "wrapping_sub (r_end rng) 1 = r_end rng - 1"
    using assms(2,3) by (intro wrapping_sub_small) (auto simp: wf_range_def)
  have al: "is_page_aligned (r_start rng)" "is_page_aligned (r_end rng)"
    using assms(2) by (auto simp: wf_range_def)
  have R: "r_start rng \<in> addrs (m_range m)" "r_end rng - 1 \<in> addrs (m_range m)"
    using assms(3,4) by (auto simp: addrs_def is_superset_of_def)
  let ?s1 = "split_side (r_start rng) (\<lambda>v. a_start v < r_start rng) (r_start rng)"
  let ?s2 = "split_side (r_end rng - 1) (\<lambda>v. r_end rng < a_end v) (r_end rng)"
  have run: "split_vrds rng (m, t) = and_then ?s1 (\<lambda>_. ?s2) (m, t)"
    using assms(3,4) by (simp add: split_vrds_sides w [unfolded One_nat_def] range_is_empty_def check_range_def)
  note s1 = split_side_ok [OF assms(1) R(1) al(1), of "\<lambda>v. a_start v < r_start rng" t]
  show ?thesis
  proof (cases "r_start rng \<in> mapped m")
    case False
    then have "?s1 (m, t) = (Err EINVAL, m, t)" using s1 by (simp add: addrs_def)
    then show ?thesis using False run assms(1) by (auto simp: and_then_def)
  next
    case True
    then obtain m1 where m1: "?s1 (m, t) = (Ok (), m1, t)" "wf_manager m1" "same_region m m1" "mapped m1 = mapped m"
      using s1 by (auto simp: addrs_def)
    have R2: "r_end rng - 1 \<in> addrs (m_range m1)" using R(2) m1(3) by (simp add: same_region_def)
    have run2: "split_vrds rng (m, t) = ?s2 (m1, t)" using run m1(1) by (simp add: and_then_def)
    note s2 = split_side_ok [OF m1(2) R2 al(2), of "\<lambda>v. r_end rng < a_end v" t]
    have c: "a_start v < r_end rng" if "r_end rng - 1 \<in> addrs (a_range v)" for v
      using that assms(3) by (auto simp: addrs_def)
    have "\<exists>m'. wf_manager m' \<and> same_region m1 m' \<and> mapped m' = mapped m \<and>
        ?s2 (m1, t) = (if r_end rng - 1 \<in> mapped m then Ok () else Err EINVAL, m', t)"
    proof (cases "r_end rng - 1 \<in> mapped m")
      case True
      then show ?thesis using s2 c m1(4) by simp blast
    next
      case False
      then show ?thesis using s2 c m1(2,4) by (intro exI [of _ m1]) simp
    qed
    then show ?thesis using True run2 same_region_trans [OF m1(3)] by auto
  qed
qed

section \<open>Merging\<close>

lemma can_combine_mid:
  assumes "can_combine a b" "a \<in> set (lo # mid)" "b \<in> set (mid @ [hi])"
    and "guard_low R lo" "guard_high R hi" "mid_ok R mid" "r_start R < r_end R"
  shows "a \<in> set mid" "b \<in> set mid"
proof -
  have st: "a_state a = a_state b" "contiguous_with (a_range a) (a_range b)"
    using assms(1) by (auto dest: can_combineD)
  have mid: "a_state v = Committed" if "v \<in> set mid" for v
    using mid_ok_area [OF assms(6) that] by (simp add: area_ok_def)
  have guards: "a_state lo = Locked" "a_state hi = Locked" "\<not> contiguous_with (a_range lo) (a_range hi)"
    using assms(4,5,7) by (auto simp: guard_low_def guard_high_def contiguous_with_def)
  show a: "a \<in> set mid"
  proof (rule ccontr)
    assume "a \<notin> set mid"
    then have "a = lo" using assms(2) by simp
    then have "b \<notin> set mid" using st(1) guards(1) mid by fastforce
    then show False using assms(3) st(2) guards(3) \<open>a = lo\<close> by simp
  qed
  show "b \<in> set mid" using mid [OF a] st(1) guards(2) assms(3) by auto
qed

lemma merge_left_at:
  assumes "can_combine a b" "mid_ok R (xs @ a # b # ys)"
  shows "\<exists>c. merge_left (lo # (xs @ a # b # ys) @ [hi]) (Suc (Suc (length xs))) = Some (lo # (xs @ c # ys) @ [hi])
    \<and> mid_ok R (xs @ c # ys) \<and> covered (xs @ c # ys) = covered (xs @ a # b # ys)"
proof -
  have ok: "area_ok R a" "area_ok R b" "area_before a b" using assms(2) by auto
  have touch: "a_end a = a_start b" by (rule can_combine_touch(2) [OF assms(1) ok])
  have b: "wf_range (a_range b)" "a_start b < a_end b" using ok by (auto simp: area_ok_def)
  let ?c = "a\<lparr>a_range := (a_range a)\<lparr>r_end := a_end b\<rparr>\<rparr>"
  have add: "range_add_size (a_range a) (a_end b - a_start b) = ret ((a_range a)\<lparr>r_end := a_end b\<rparr>)"
    using range_add_size_ok [of "a_end b - a_start b" "a_range a"] b touch by (auto simp: wf_range_def)
  have "merge_left (lo # (xs @ a # b # ys) @ [hi]) (Suc (Suc (length xs))) = Some (lo # (xs @ ?c # ys) @ [hi])"
    using vec_remove_append [of "lo # xs @ [?c]" b "ys @ [hi]"] b
    by (simp add: merge_left_def nth_append list_update_append wf_range_size add ret_def)
  moreover have "mid_ok R (xs @ ?c # ys) \<and> covered (xs @ ?c # ys) = covered (xs @ a # b # ys)"
    using mid_ok_merge [OF assms(2) touch, of ?c] ok by (simp add: area_ok_def)
  ultimately show ?thesis by blast
qed

lemma merge_left_ok:
  assumes cc: "can_combine ((lo # mid @ [hi]) ! (idx - 1)) ((lo # mid @ [hi]) ! idx)" "0 < idx"
    "idx < length (lo # mid @ [hi])"
    and R: "guard_low R lo" "guard_high R hi" "mid_ok R mid" "r_start R < r_end R"
  shows "1 < idx \<and> (\<exists>mid'. merge_left (lo # mid @ [hi]) idx = Some (lo # mid' @ [hi]) \<and> mid_ok R mid'
    \<and> covered mid' = covered mid \<and> length mid = Suc (length mid'))"
proof -
  define k where "k = idx - 1"
  have k: "idx = Suc k" "k \<le> length mid" using cc(2,3) by (auto simp: k_def)
  let ?a = "(lo # mid) ! k" and ?b = "(mid @ [hi]) ! k"
  have ab: "(lo # mid @ [hi]) ! (idx - 1) = ?a" "(lo # mid @ [hi]) ! idx = ?b"
    using k by (auto simp: nth_append nth_Cons')
  have "?a \<in> set (lo # mid)" "?b \<in> set (mid @ [hi])" using k(2) by (intro nth_mem; simp)+
  note m = can_combine_mid [OF cc(1) [unfolded ab] this R]
  have ne: "lo \<notin> set mid" "hi \<notin> set mid"
    using R(1-3) by (auto dest!: mid_ok_area simp: area_ok_def guard_low_def guard_high_def)
  then obtain j where j: "k = Suc j" "k < length mid"
    using m k(2) by (cases k) (auto simp: nth_append split: if_splits)
  have d: "mid = take j mid @ ?a # ?b # drop (Suc (Suc j)) mid" "length (take j mid) = j"
    using j id_take_nth_drop [of j mid] Cons_nth_drop_Suc [of "Suc j" mid] by (auto simp: nth_append)
  have "can_combine ?a ?b" using cc(1) unfolding ab .
  from merge_left_at [OF this, of R "take j mid" "drop (Suc (Suc j)) mid" lo hi] R(3)
  obtain c mid' where mid': "mid' = take j mid @ c # drop (Suc (Suc j)) mid"
    and c: "merge_left (lo # mid @ [hi]) (Suc (Suc j)) = Some (lo # mid' @ [hi])" "mid_ok R mid'" "covered mid' = covered mid"
    unfolding d(1) [symmetric] d(2) by blast
  have "length mid = Suc (length mid')" using j by (simp add: mid')
  moreover have "1 < idx" using k(1) j(1) by simp
  ultimately show ?thesis using c k(1) j(1) by blast
qed

text \<open>One turn of the loop, without and with a merge.\<close>

lemma combine_loop_skip:
  assumes "\<not> (idx > 0 \<and> can_combine (vs ! (idx - 1)) (vs ! idx))" "idx < length vs"
  shows "combine_loop vs idx addr fin =
    (if addr < fin \<and> idx + 1 < length vs then combine_loop vs (idx + 1) (a_start (vs ! (idx + 1))) fin else Some vs)"
proof -
  have "(idx > 0 \<and> can_combine (vs ! (idx - 1)) (vs ! idx)) = False" using assms(1) by blast
  then show ?thesis using assms(2) by (subst combine_loop.simps) (simp only: Let_def if_False option.case, auto)
qed

lemma combine_loop_join:
  assumes "can_combine (vs ! (idx - 1)) (vs ! idx)" "0 < idx" "idx < length vs" "merge_left vs idx = Some ws"
  shows "combine_loop vs idx addr fin =
    (if addr < fin \<and> idx < length ws then combine_loop ws idx (a_start (ws ! idx)) fin else Some ws)"
proof -
  have "(idx > 0 \<and> can_combine (vs ! (idx - 1)) (vs ! idx)) = True" using assms(1,2) by blast
  moreover have "idx - 1 + 1 = idx" using assms(2) by simp
  ultimately show ?thesis
    using assms(3,4) by (subst combine_loop.simps) (simp only: Let_def if_True assms(4) option.case, auto)
qed

lemma combine_loop_ok:
  assumes "guard_low R lo" "guard_high R hi" "mid_ok R mid" "r_start R < r_end R"
    and "idx < length (lo # mid @ [hi])"
  shows "\<exists>mid'. combine_loop (lo # mid @ [hi]) idx addr fin = Some (lo # mid' @ [hi])
    \<and> mid_ok R mid' \<and> covered mid' = covered mid"
  using assms(3,5)
proof (induction "length mid + 2 - idx" arbitrary: mid idx addr rule: less_induct)
  case less
  let ?vs = "lo # mid @ [hi]"
  show ?case
  proof (cases "idx > 0 \<and> can_combine (?vs ! (idx - 1)) (?vs ! idx)")
    case True
    then obtain mid' where j: "1 < idx" "merge_left ?vs idx = Some (lo # mid' @ [hi])" "mid_ok R mid'"
      "covered mid' = covered mid" "length mid = Suc (length mid')"
      using merge_left_ok [OF _ _ less.prems(2) assms(1,2) less.prems(1) assms(4)] by blast
    have "length mid' + 2 - idx < length mid + 2 - idx" using j(5) less.prems(2) by simp
    note IH = less.hyps [OF this j(3)]
    have run: "combine_loop ?vs idx addr fin = (if addr < fin \<and> idx < length (lo # mid' @ [hi])
        then combine_loop (lo # mid' @ [hi]) idx (a_start ((lo # mid' @ [hi]) ! idx)) fin else Some (lo # mid' @ [hi]))"
      using True less.prems(2) j(2) by (intro combine_loop_join) auto
    show ?thesis
    proof (cases "addr < fin \<and> idx < length (lo # mid' @ [hi])")
      case True
      then show ?thesis using IH j(4) unfolding run by simp
    next
      case False
      then show ?thesis using j(3,4) unfolding run by auto
    qed
  next
    case False
    note run = combine_loop_skip [OF False less.prems(2), of addr fin]
    show ?thesis
    proof (cases "addr < fin \<and> idx + 1 < length ?vs")
      case True
      then have "length mid + 2 - (idx + 1) < length mid + 2 - idx" by (elim conjE) simp
      from less.hyps [OF this less.prems(1)] True show ?thesis unfolding run by simp
    next
      case False
      then show ?thesis using less.prems(1) unfolding run by auto
    qed
  qed
qed

lemma combine_vrds_wf:
  assumes "wf_manager m"
  shows "\<exists>m'. combine_vrds rng (m, t) = (Ok (), m', t) \<and> wf_manager m' \<and> same_region m m' \<and> mapped m' = mapped m"
proof -
  from assms obtain lo mid hi where m: "m_vrds m = lo # mid @ [hi]" "guard_low (m_range m) lo"
    "guard_high (m_range m) hi" "mid_ok (m_range m) mid" "mapped m = covered mid"
    "r_start (m_range m) < r_end (m_range m)"
    by (rule wf_managerE)
  show ?thesis
  proof (cases "find_vrd (m_vrds m) (r_start rng)")
    case None
    then show ?thesis using assms by (simp add: combine_vrds_def ret_def)
  next
    case (Some p)
    obtain i v where p: "p = (i, v)" by (cases p)
    have "i < length (lo # mid @ [hi])" using find_vrd_SomeD(1) [OF Some [unfolded p]] m(1) by simp
    from combine_loop_ok [OF m(2-4,6) this] obtain mid'
      where "combine_loop (m_vrds m) i (r_start rng) (r_end rng) = Some (lo # mid' @ [hi])"
        "mid_ok (m_range m) mid'" "covered mid' = covered mid"
      unfolding m(1) by blast
    then show ?thesis
      using Some wf_manager_update [OF assms m(2,3)] m(5) by (simp add: combine_vrds_def p)
  qed
qed

text \<open>
  Splitting at the ends of a range of the region and merging again keep the invariant, change
  no mapping and never panic. The split succeeds exactly when the first and the last address of
  the range are mapped and reports \<open>EINVAL\<close> otherwise; the merge always succeeds.
\<close>

lemma split_combine_keep_mappings:
  assumes "wf_manager m" "wf_range rng" "r_start rng < r_end rng" "is_superset_of (m_range m) rng"
  shows "(\<exists>m'. wf_manager m' \<and> same_region m m' \<and> mapped m' = mapped m \<and>
      split_vrds rng (m, t) =
        (if r_start rng \<in> mapped m \<and> r_end rng - 1 \<in> mapped m then Ok () else Err EINVAL, m', t))
    \<and> (\<exists>m'. wf_manager m' \<and> same_region m m' \<and> mapped m' = mapped m
      \<and> combine_vrds rng (m, t) = (Ok (), m', t))"
  using split_vrds_wf [OF assms] combine_vrds_wf [OF assms(1)] by blast

end
