(* ===== verification/Mm_Region.thy ===== *)
theory Mm_Region
  imports Mm_Split
begin

text \<open>
  The contract between the reserved memory (\<open>rsrvmm/mod.rs\<close>) and its area manager: a region of
  addresses of which some are in use, a search that finds unused room, and operations that place an
  area in that room and release a range. The clients of the manager are proved against the locale;
  \<open>MmManager\<close> is an instance of it.
\<close>

locale region_manager =
  fixes inv :: "'m \<Rightarrow> bool"
    and space :: "'m \<Rightarrow> MmRange"
    and used :: "'m \<Rightarrow> usize set"
    and frame :: "'m \<Rightarrow> 'm \<Rightarrow> bool"
    and search :: "MmAllocAddr \<Rightarrow> usize \<Rightarrow> ('m \<times> 't, errno, nat \<times> MmRange) rust"
    and place :: "nat \<Rightarrow> MmArea \<Rightarrow> ('m \<times> 't, errno, unit) rust"
    and release :: "MmRange \<Rightarrow> ('m \<times> 't, errno, unit) rust"
  assumes frame_refl: "frame m m"
    and frame_trans: "frame a b \<Longrightarrow> frame b c \<Longrightarrow> frame a c"
    and frame_space: "frame m m' \<Longrightarrow> space m' = space m"
    and used_space: "inv m \<Longrightarrow> used m \<subseteq> addrs (space m)"
    and search_inv: "inv m \<Longrightarrow> search addr n (m, t) = (x, m', t') \<Longrightarrow> x \<noteq> Panic
      \<Longrightarrow> inv m' \<and> frame m m' \<and> used m' \<subseteq> used m"
    and search_pure: "inv m \<Longrightarrow> search addr n (m, t) = (x, m', t') \<Longrightarrow> \<not> (\<exists>a. addr = Force a)
      \<Longrightarrow> m' = m \<and> t' = t \<and> x \<noteq> Panic"
    and search_room: "inv m \<Longrightarrow> search addr n (m, t) = (Ok (k, r), m', t')
      \<Longrightarrow> is_page_aligned (r_start r) \<and> r_start r + n \<le> r_end r \<and> addrs r \<inter> used m' = {}
        \<and> is_superset_of (space m) r"
    and search_addr: "search addr n (m, t) = (Ok (k, r), m', t') \<Longrightarrow> addr = Need pos \<or> addr = Force pos
      \<Longrightarrow> r_start r = pos"
    and place_ok: "inv m \<Longrightarrow> search addr n (m, t) = (Ok (k, r), m', t') \<Longrightarrow> area_ok (space m) v
      \<Longrightarrow> is_superset_of r (a_range v)
      \<Longrightarrow> \<exists>m''. place k v (m', u) = (Ok (), m'', u) \<and> inv m'' \<and> frame m' m'' \<and> used m'' = used m' \<union> addrs (a_range v)"
    and release_Ok: "inv m \<Longrightarrow> wf_range rng \<Longrightarrow> release rng (m, t) = (Ok (), m', t')
      \<Longrightarrow> inv m' \<and> frame m m' \<and> used m' = used m - addrs rng"
    and release_Err: "release rng (m, t) = (Err e, m', t') \<Longrightarrow> m' = m \<and> t' = t"
begin

text \<open>Searching, resizing and placing: an area of the requested size that was not in use.\<close>

lemma search_place:
  assumes "inv m" "search addr n (m, t) = (Ok (k, r), m', t')" "0 < n" "is_page_aligned n" "wf_range (space m)"
    and v: "a_range v = r\<lparr>r_end := r_start r + n\<rparr>" "a_state v = Committed" "a_typ v = MT_Reg"
  shows "\<exists>m''. place k v (m', u) = (Ok (), m'', u) \<and> inv m'' \<and> frame m m''
    \<and> used m'' = used m' \<union> {r_start r ..< r_start r + n} \<and> {r_start r ..< r_start r + n} \<inter> used m' = {}"
proof -
  note s = search_room [OF assms(1,2)]
  have "inv m' \<and> frame m m'" using search_inv [OF assms(1,2)] by simp
  moreover have "area_ok (space m) v" "is_superset_of r (a_range v)"
    using s v assms(3-5) by (auto simp: area_ok_def wf_range_def is_superset_of_def)
  moreover have "addrs (a_range v) = {r_start r ..< r_start r + n}" by (simp add: addrs_def v(1))
  moreover have "{r_start r ..< r_start r + n} \<subseteq> addrs r" using s by (auto simp: addrs_def)
  moreover obtain m'' where "place k v (m', u) = (Ok (), m'', u)" "inv m''" "frame m' m''"
    "used m'' = used m' \<union> addrs (a_range v)"
    using place_ok [OF assms(1,2) calculation(2,3)] by blast
  ultimately show ?thesis using s frame_trans by blast
qed

text \<open>Releasing what was just placed gives back exactly the addresses that were in use.\<close>

lemma place_release:
  assumes "inv m" "search addr n (m, t) = (Ok (k, r), m', t')" "0 < n" "is_page_aligned n" "wf_range (space m)"
    and v: "a_range v = r\<lparr>r_end := r_start r + n\<rparr>" "a_state v = Committed" "a_typ v = MT_Reg"
    and "place k v (m', u) = (Ok (), m1, u1)" "release (a_range v) (m1, u2) = (Ok (), m2, u3)"
  shows "used m2 = used m'"
proof -
  obtain m'' where p: "place k v (m', u) = (Ok (), m'', u)" "inv m''"
    "used m'' = used m' \<union> {r_start r ..< r_start r + n}" "{r_start r ..< r_start r + n} \<inter> used m' = {}"
    using search_place [OF assms(1-8)] by blast
  have "wf_range (a_range v)"
    using search_room [OF assms(1,2)] v(1) assms(4,5) by (auto simp: wf_range_def is_superset_of_def)
  then have "used m2 = used m1 - addrs (a_range v)"
    using release_Ok [OF _ _ assms(10)] p(1,2) assms(9) by simp
  then show ?thesis using p assms(9) v(1) by (auto simp: addrs_def)
qed

end

section \<open>The area manager is a region manager\<close>

lemma find_free_range_pure:
  assumes "wf_manager m" "\<And>a. addr \<noteq> Force a"
  shows "\<exists>x. find_free_range pf ops addr sz (m, t) = (x, m, t) \<and> x \<noteq> Panic"
proof -
  have scan: "\<exists>x. free_scan addr sz 0 (m_vrds m) None (m, t) = (x, m, t) \<and> x \<noteq> Panic"
    if "\<And>a. alloc_addr addr = Some a \<Longrightarrow> addr_request_ok m a sz"
    using free_scan_no_panic [OF wf_manager_chain [OF assms(1)], of addr sz 0 None "(m, t)"] that
    by (force simp: addr_request_ok_def)
  show ?thesis
  proof (cases addr)
    case Any
    then show ?thesis using scan by (simp add: find_free_range_unfold)
  next
    case (Hint a)
    then show ?thesis using scan by (cases "addr_request_ok m a sz") (simp_all add: find_free_range_unfold)
  next
    case (Need a)
    then show ?thesis using scan by (cases "addr_request_ok m a sz") (simp_all add: find_free_range_unfold)
  next
    case (Force a)
    then show ?thesis using assms(2) by simp
  qed
qed

lemma find_free_range_Err:
  assumes "wf_manager m" "find_free_range pf ops addr sz (m, t) = (Err e, m', t')"
  shows "wf_manager m' \<and> same_region m m' \<and> mapped m' \<subseteq> mapped m"
proof (cases "\<exists>a. addr = Force a \<and> addr_request_ok m a sz")
  case False
  then have "find_free_range pf ops addr sz (m, t) = (Err e, m, t)"
  proof (cases "\<exists>a. addr = Force a")
    case True
    then show ?thesis using False assms(2) by (auto simp: find_free_range_unfold)
  next
    case False
    then obtain x where "find_free_range pf ops addr sz (m, t) = (x, m, t)"
      using find_free_range_pure [OF assms(1), of addr] by blast
    then show ?thesis using assms(2) by simp
  qed
  then show ?thesis using assms by simp
next
  case True
  then obtain a where a: "addr = Force a" "addr_request_ok m a sz" by blast
  let ?rng = "range_from_unchecked a sz"
  have wf: "wf_range ?rng \<or> addrs ?rng = {}"
    using a(2) by (auto simp: addr_request_ok_def wf_range_def range_from_unchecked_def addrs_def)
  have run: "find_free_range pf ops addr sz (m, t)
      = and_then (free_vrds pf ops ?rng) (\<lambda>_. and_then get_vrds (\<lambda>vs. free_scan (Force a) sz 0 vs None)) (m, t)"
    using a by (simp add: find_free_range_unfold)
  from assms(2) [unfolded run and_then_Err_iff [of "free_vrds pf ops ?rng"]]
  consider "free_vrds pf ops ?rng (m, t) = (Err e, m', t')"
    | u t1 where "free_vrds pf ops ?rng (m, t) = (Ok (), u, t1)"
        "free_scan (Force a) sz 0 (m_vrds u) None (u, t1) = (Err e, m', t')"
    by auto
  then show ?thesis
  proof cases
    case 1
    then show ?thesis using free_vrds_Err(2) [OF 1] assms(1) by simp
  next
    case 2
    note f = free_vrds_Ok [OF assms(1) wf 2(1)]
    have "\<exists>x. free_scan (Force a) sz 0 (m_vrds u) None (u, t1) = (x, u, t1) \<and> (x = Err ENOMEM \<or> (\<exists>y. x = Ok y))"
      using a(2) by (intro free_scan_no_panic wf_manager_chain [OF f(1)]) (simp add: addr_request_ok_def)
    then show ?thesis using 2(2) f by auto
  qed
qed

lemma find_free_range_addr:
  assumes "find_free_range pf ops addr sz (m, t) = (Ok (k, r), m', t')" "addr = Need a \<or> addr = Force a"
  shows "r_start r = a"
proof -
  obtain u t1 where "free_scan addr sz 0 (m_vrds u) None (u, t1) = (Ok (k, r), m', t')"
    using assms by (auto simp: find_free_range_unfold Ok_iffs get_vrds_def split: if_splits prod.splits)
  then show ?thesis by (rule free_scan_start) (use assms(2) in auto)
qed

interpretation mm: region_manager wf_manager m_range mapped same_region
  "find_free_range pf ops" insert_vrd "free_vrds pf ops" for pf :: "'w platform" and ops :: "'w map_ops"
proof
  fix m m' :: MmManager and addr n x k r v u and t t' :: "'w machine"
  show "same_region m m" by simp
  show "wf_manager m \<Longrightarrow> mapped m \<subseteq> addrs (m_range m)"
    by (erule wf_managerE) (auto dest: covered_bounds)
  show "wf_manager m \<Longrightarrow> find_free_range pf ops addr n (m, t) = (x, m', t') \<Longrightarrow> x \<noteq> Panic
      \<Longrightarrow> wf_manager m' \<and> same_region m m' \<and> mapped m' \<subseteq> mapped m"
    by (cases x) (auto dest: find_free_range_Ok find_free_range_Err)
  show "wf_manager m \<Longrightarrow> find_free_range pf ops addr n (m, t) = (x, m', t') \<Longrightarrow> \<not> (\<exists>a. addr = Force a)
      \<Longrightarrow> m' = m \<and> t' = t \<and> x \<noteq> Panic"
    using find_free_range_pure [of m addr pf ops n t] by auto
  show "find_free_range pf ops addr n (m, t) = (Ok (k, r), m', t') \<Longrightarrow> addr = Need a \<or> addr = Force a
      \<Longrightarrow> r_start r = a" for a
    by (rule find_free_range_addr)
  assume wf: "wf_manager m"
  { assume ok: "find_free_range pf ops addr n (m, t) = (Ok (k, r), m', t')"
    note f = find_free_range_Ok [OF wf ok]
    have gap: "gap_at (m_vrds m') k r" using f(4) by (simp add: fits_def)
    have R: "m_range m' = m_range m" using f(2) by (simp add: same_region_def)
    show "is_page_aligned (r_start r) \<and> r_start r + n \<le> r_end r \<and> addrs r \<inter> mapped m' = {}
        \<and> is_superset_of (m_range m) r"
      using gap_free [OF f(1) gap] f(4) R by (auto simp: fits_def)
    assume v: "area_ok (m_range m) v" "is_superset_of r (a_range v)"
    have "gap_at (m_vrds m') k (a_range v)" using gap v(2) by (auto simp: gap_at_def is_superset_of_def)
    then show "\<exists>m''. insert_vrd k v (m', u) = (Ok (), m'', u) \<and> wf_manager m'' \<and> same_region m' m''
        \<and> mapped m'' = mapped m' \<union> addrs (a_range v)"
      using insert_vrd_wf [OF f(1), of v k u] v(1) R by simp }
qed (auto simp: same_region_def dest: free_vrds_Ok free_vrds_Err)

end
