(* ===== verification/Rsrv_Mem.thy ===== *)
theory Rsrv_Mem
  imports Mm_Region
begin

text \<open>
  The reserved memory of an enclave (\<open>sgx_rsrvmm/src/rsrvmm/mod.rs\<close>), the mapping handles
  (\<open>map.rs\<close>), the allocator (\<open>alloc.rs\<close>) and the C interface (\<open>capi.rs\<close>) on top of it. Every
  operation holds one lock for its whole critical section, so operations run one after the other.
\<close>

section \<open>State\<close>

record RsrvMem =
  rm_base :: usize
  rm_size :: usize
  rm_min_size :: usize
  rm_perm :: MmPerm
  rm_committed_size :: usize
  rm_manager :: MmManager

text \<open>What an operation on an initialised \<open>RsrvMem\<close> can change; \<open>rv_peak\<close> is \<open>g_peak_rsrv_mem_committed\<close>.\<close>

record 'w rsrv =
  rv_mem :: RsrvMem
  rv_peak :: usize
  rv_machine :: "'w machine"

definition on_manager :: "('w mm_state, 'e, 'a) rust \<Rightarrow> ('w rsrv, 'e, 'a) rust" where
  "on_manager = zoom (\<lambda>s. (rm_manager (rv_mem s), rv_machine s))
     (\<lambda>(m, t) s. s\<lparr>rv_mem := (rv_mem s)\<lparr>rm_manager := m\<rparr>, rv_machine := t\<rparr>)"

definition on_area :: "('w machine, 'e, 'a) rust \<Rightarrow> ('w rsrv, 'e, 'a) rust" where
  "on_area = zoom rv_machine (\<lambda>t s. s\<lparr>rv_machine := t\<rparr>)"

definition set_committed :: "usize \<Rightarrow> ('w rsrv, 'e, unit) rust" where
  "set_committed n = modify (\<lambda>s. s\<lparr>rv_mem := (rv_mem s)\<lparr>rm_committed_size := n\<rparr>\<rparr>)"

section \<open>Operations\<close>

definition rsrvmem_default_perm :: "'w platform \<Rightarrow> ProtectPerm" where
  "rsrvmem_default_perm pf =
     (if \<not> is_supported_edmm pf \<and> g_rsrv_executable (global pf) \<noteq> 0 then PP_ReadWriteExec
      else PP_ReadWrite)"

definition rsrv_init :: "'w platform \<Rightarrow> ('s, errno, RsrvMem) rust" where
  "rsrv_init pf =
     (let base = rsrvmem_base pf; sz = rsrvmem_size pf; min_size = rsrvmem_min_size pf;
          perm = mm_perm_of (rsrvmem_default_perm pf)
      in seq (ensure (base \<noteq> 0 \<and> sz \<noteq> 0) ENOMEM)
        (and_then (manager_new pf base sz perm) (\<lambda>m.
         ret \<lparr>rm_base = base, rm_size = sz, rm_min_size = min_size, rm_perm = perm,
              rm_committed_size = 0, rm_manager = m\<rparr>)))"

definition align_alloc :: "MmAllocAddr \<Rightarrow> ('s, errno, MmAllocAddr) rust" where
  "align_alloc addr =
     (case addr of
        Any \<Rightarrow> ret Any
      | Hint a \<Rightarrow> ret (Hint (trim_to_page a))
      | Need a \<Rightarrow> seq (ensure (is_page_aligned a) EINVAL) (ret addr)
      | Force a \<Rightarrow> seq (ensure (is_page_aligned a) EINVAL) (ret addr))"

text \<open>The commitment of pages for a new range, and its undoing when the extension fails.\<close>

definition commit_range :: "'w platform \<Rightarrow> MmRange \<Rightarrow> ('w rsrv, errno, unit) rust" where
  "commit_range pf new_range =
     and_then (gets rv_mem) (\<lambda>rm.
       let base = rm_base rm; pre_committed = rm_committed_size rm; min_size = rm_min_size rm in
       if r_end new_range > wrapping_add base pre_committed then
         let offset = wrapping_sub (r_end new_range) (wrapping_add base pre_committed);
             committed = wrapping_add pre_committed (round_to_page offset)
         in seq (set_committed committed)
           (if is_supported_edmm pf \<and> r_end new_range > wrapping_add base min_size then
              let (start_addr, sz) =
                    (if pre_committed > min_size
                     then (wrapping_add base pre_committed, round_to_page offset)
                     else (wrapping_add base min_size, wrapping_sub committed min_size))
              in and_then (attempt (on_area (on_world
                     (apply_epc_pages pf start_addr (drop_bit SE_PAGE_SHIFT sz))))) (\<lambda>r.
                   case r of
                     Inl _ \<Rightarrow> seq (set_committed pre_committed) (bail ENOMEM)
                   | Inr _ \<Rightarrow> ret ())
            else ret ())
       else ret ())"

definition update_peak :: "('w rsrv, 'e, unit) rust" where
  "update_peak =
     modify (\<lambda>s. s\<lparr>rv_peak := (if rv_peak s < rm_committed_size (rv_mem s)
                                then rm_committed_size (rv_mem s) else rv_peak s)\<rparr>)"

definition rsrv_mmap ::
    "'w platform \<Rightarrow> 'w map_ops \<Rightarrow> MmAllocAddr \<Rightarrow> usize \<Rightarrow> ProtectPerm option \<Rightarrow> MapObject option
      \<Rightarrow> ('w rsrv, errno, usize) rust" where
  "rsrv_mmap pf ops addr sz perm map_object =
     and_then (gets rv_mem) (\<lambda>rm.
     let align_size = round_to_page sz in
     seq (ensure (align_size > 0 \<and> align_size \<le> rm_size rm) EINVAL)
    (and_then (align_alloc addr) (\<lambda>align_addr.
     seq (case map_object of
            Some map_obj \<Rightarrow> ensure (pp_can_read (mo_perm map_obj)) EACCES
          | None \<Rightarrow> ret ())
    (and_then (on_manager (find_free_range pf ops align_addr align_size)) (\<lambda>(insert_idx, free_range).
     and_then (gets rv_mem) (\<lambda>rm.
     seq (ensure (check_range (rm_manager rm) free_range) ENOMEM)
    (and_then (alloc_range_from align_addr align_size free_range) (\<lambda>new_range.
     seq (commit_range pf new_range)
    (seq update_peak
    (and_then (area_new new_range (rm_perm rm) Committed MT_Reg map_object) (\<lambda>vrd.
     and_then (on_area (area_load ops vrd)) (\<lambda>vrd.
     and_then (on_area (apply_perm pf check_perm vrd
                 (case perm of Some p \<Rightarrow> mm_perm_of p | None \<Rightarrow> rm_perm rm))) (\<lambda>vrd.
     seq (on_manager (insert_vrd insert_idx vrd))
         (ret (r_start new_range)))))))))))))))"

text \<open>The checks that \<open>munmap\<close>, \<open>mprotect\<close> and \<open>msync\<close> share.\<close>

definition checked_range ::
    "'w platform \<Rightarrow> usize \<Rightarrow> usize \<Rightarrow> ('w rsrv, errno, MmRange) rust" where
  "checked_range pf addr sz =
     and_then (gets rv_mem) (\<lambda>rm.
     let align_size = round_to_page sz in
     seq (ensure (addr \<noteq> 0 \<and> align_size > 0 \<and> align_size \<le> rm_size rm) EINVAL)
    (seq (ensure (is_within_enclave pf addr align_size) EINVAL)
         (range_new_with_size addr align_size)))"

definition rsrv_munmap ::
    "'w platform \<Rightarrow> 'w map_ops \<Rightarrow> usize \<Rightarrow> usize \<Rightarrow> ('w rsrv, errno, unit) rust" where
  "rsrv_munmap pf ops addr sz =
     and_then (checked_range pf addr sz) (\<lambda>rng. on_manager (free_vrds pf ops rng))"

definition rsrv_mprotect ::
    "'w platform \<Rightarrow> usize \<Rightarrow> usize \<Rightarrow> ProtectPerm \<Rightarrow> ('w rsrv, errno, unit) rust" where
  "rsrv_mprotect pf addr sz perm =
     and_then (checked_range pf addr sz) (\<lambda>rng.
     seq (map_err (\<lambda>_. ENOMEM) (on_manager (split_vrds rng)))
    (and_then (gets rv_mem) (\<lambda>rm.
     seq (ok_or (find_vrd (m_vrds (rm_manager rm)) addr) EFAULT)
    (and_then (attempt (on_manager (apply_perm_vrds pf rng (mm_perm_of perm)))) (\<lambda>result.
     seq (on_manager (combine_vrds rng))
         (case result of Inl e \<Rightarrow> bail e | Inr _ \<Rightarrow> ret ()))))))"

definition rsrv_msync ::
    "'w platform \<Rightarrow> 'w map_ops \<Rightarrow> usize \<Rightarrow> usize \<Rightarrow> ('w rsrv, errno, unit) rust" where
  "rsrv_msync pf ops addr sz =
     and_then (checked_range pf addr sz) (\<lambda>rng. on_manager (flush_vrds ops rng))"

section \<open>The static instance\<close>

text \<open>\<open>RSRV_MEM_INIT\<close> and \<open>RSRV_MEM\<close>, the peak counter and the thread's \<open>errno\<close>.\<close>

record 'w rsrv_static =
  st_once :: bool
  st_mem :: "RsrvMem option"
  st_peak :: usize
  st_machine :: "'w machine"
  st_errno :: errno

definition get_or_init :: "'w platform \<Rightarrow> ('w rsrv_static, errno, RsrvMem) rust" where
  "get_or_init pf s =
     (let s' = (if st_once s then s
                else s\<lparr>st_once := True,
                       st_mem := (case fst (rsrv_init pf ()) of Ok rm \<Rightarrow> Some rm | _ \<Rightarrow> None)\<rparr>)
      in ok_or (st_mem s') ENOMEM s')"

definition with_rsrv :: "'w platform \<Rightarrow> ('w rsrv, errno, 'a) rust \<Rightarrow> ('w rsrv_static, errno, 'a) rust" where
  "with_rsrv pf f =
     and_then (get_or_init pf) (\<lambda>rm.
       zoom (\<lambda>s. \<lparr>rv_mem = rm, rv_peak = st_peak s, rv_machine = st_machine s\<rparr>)
            (\<lambda>r s. s\<lparr>st_mem := Some (rv_mem r), st_peak := rv_peak r, st_machine := rv_machine r\<rparr>) f)"

section \<open>Mapping handles\<close>

datatype MapAddr = MapAny | MapHint usize | MapNeed usize | MapForce usize

fun alloc_addr_of :: "MapAddr \<Rightarrow> MmAllocAddr" where
  "alloc_addr_of MapAny = Any"
| "alloc_addr_of (MapHint p) = Hint p"
| "alloc_addr_of (MapNeed p) = Need p"
| "alloc_addr_of (MapForce p) = Force p"

record Mmap =
  mmap_addr :: usize
  mmap_size :: usize

definition map_mmap ::
    "'w platform \<Rightarrow> 'w map_ops \<Rightarrow> MapAddr \<Rightarrow> usize \<Rightarrow> ProtectPerm option \<Rightarrow> MapObject option
      \<Rightarrow> ('w rsrv_static, errno, usize) rust" where
  "map_mmap pf ops addr sz perm map_object =
     and_then (with_rsrv pf (rsrv_mmap pf ops (alloc_addr_of addr) sz perm map_object)) (\<lambda>a.
       ok_or (if a = 0 then None else Some a) ENOMEM)"

definition map_munmap :: "'w platform \<Rightarrow> 'w map_ops \<Rightarrow> usize \<Rightarrow> usize \<Rightarrow> ('w rsrv_static, errno, unit) rust" where
  "map_munmap pf ops addr sz = with_rsrv pf (rsrv_munmap pf ops addr sz)"

definition map_mprotect ::
    "'w platform \<Rightarrow> usize \<Rightarrow> usize \<Rightarrow> ProtectPerm \<Rightarrow> ('w rsrv_static, errno, unit) rust" where
  "map_mprotect pf addr sz perm = with_rsrv pf (rsrv_mprotect pf addr sz perm)"

definition map_msync :: "'w platform \<Rightarrow> 'w map_ops \<Rightarrow> usize \<Rightarrow> usize \<Rightarrow> ('w rsrv_static, errno, unit) rust" where
  "map_msync pf ops addr sz = with_rsrv pf (rsrv_msync pf ops addr sz)"

definition Mmap_mmap ::
    "'w platform \<Rightarrow> 'w map_ops \<Rightarrow> MapAddr \<Rightarrow> usize \<Rightarrow> MapObject option \<Rightarrow> ('w rsrv_static, errno, Mmap) rust" where
  "Mmap_mmap pf ops addr sz map_object =
     and_then (case map_object of
         None \<Rightarrow> ret None
       | Some map_obj \<Rightarrow>
           (case mo_perm map_obj of
              PP_None \<Rightarrow> bail EACCES
            | _ \<Rightarrow> ret (Some (map_obj\<lparr>mo_perm := PP_Read\<rparr>)))) (\<lambda>map_object.
     and_then (map_mmap pf ops addr sz (Some PP_Read) map_object) (\<lambda>a.
     ret \<lparr>mmap_addr = a, mmap_size = sz\<rparr>))"

definition MmapMut_mmap ::
    "'w platform \<Rightarrow> 'w map_ops \<Rightarrow> MapAddr \<Rightarrow> usize \<Rightarrow> MapObject option \<Rightarrow> ('w rsrv_static, errno, Mmap) rust" where
  "MmapMut_mmap pf ops addr sz map_object =
     and_then (case map_object of
         None \<Rightarrow> ret None
       | Some map_obj \<Rightarrow>
           (case mo_perm map_obj of
              PP_None \<Rightarrow> bail EACCES
            | PP_Read \<Rightarrow> bail EACCES
            | PP_ReadWrite \<Rightarrow> ret (Some map_obj)
            | PP_ReadExec \<Rightarrow> bail EACCES
            | PP_ReadWriteExec \<Rightarrow> ret (Some (map_obj\<lparr>mo_perm := PP_ReadWrite\<rparr>)))) (\<lambda>map_object.
     and_then (map_mmap pf ops addr sz (Some PP_ReadWrite) map_object) (\<lambda>a.
     ret \<lparr>mmap_addr = a, mmap_size = sz\<rparr>))"

definition MmapMut_msync :: "'w platform \<Rightarrow> 'w map_ops \<Rightarrow> Mmap \<Rightarrow> ('w rsrv_static, errno, unit) rust" where
  "MmapMut_msync pf ops h = map_msync pf ops (mmap_addr h) (mmap_size h)"

text \<open>Dropping a handle; the result is only looked at by a debug assertion.\<close>

definition Mmap_drop :: "'w platform \<Rightarrow> 'w map_ops \<Rightarrow> Mmap \<Rightarrow> ('w rsrv_static, 'e, unit) rust" where
  "Mmap_drop pf ops h = ignore (map_munmap pf ops (mmap_addr h) (mmap_size h))"

section \<open>The allocator\<close>

datatype RsrvMemAllocErr = RsrvMemAllocErr

definition rsrv_alloc_at ::
    "'w platform \<Rightarrow> 'w map_ops \<Rightarrow> MmAllocAddr \<Rightarrow> usize \<Rightarrow> ('w rsrv_static, RsrvMemAllocErr, usize \<times> usize) rust" where
  "rsrv_alloc_at pf ops addr sz =
     and_then (map_err (\<lambda>_. RsrvMemAllocErr) (with_rsrv pf (rsrv_mmap pf ops addr sz None None))) (\<lambda>a.
     and_then (ok_or (if a = 0 then None else Some a) RsrvMemAllocErr) (\<lambda>p. ret (p, sz)))"

definition rsrv_alloc ::
    "'w platform \<Rightarrow> 'w map_ops \<Rightarrow> usize \<Rightarrow> ('w rsrv_static, RsrvMemAllocErr, usize \<times> usize) rust" where
  "rsrv_alloc pf ops sz = rsrv_alloc_at pf ops Any sz"

definition rsrv_alloc_with_addr ::
    "'w platform \<Rightarrow> 'w map_ops \<Rightarrow> usize \<Rightarrow> usize \<Rightarrow> ('w rsrv_static, RsrvMemAllocErr, usize \<times> usize) rust" where
  "rsrv_alloc_with_addr pf ops addr sz = rsrv_alloc_at pf ops (Hint addr) sz"

text \<open>\<open>ptr::write_bytes(raw, 0, size)\<close>.\<close>

definition write_zeros :: "usize \<Rightarrow> usize \<Rightarrow> ('w rsrv_static, 'e, unit) rust" where
  "write_zeros a sz =
     modify (\<lambda>s. s\<lparr>st_machine := (st_machine s)\<lparr>memory := mem_write (memory (st_machine s)) a (replicate sz 0)\<rparr>\<rparr>)"

definition rsrv_alloc_zeroed ::
    "'w platform \<Rightarrow> 'w map_ops \<Rightarrow> usize \<Rightarrow> ('w rsrv_static, RsrvMemAllocErr, usize \<times> usize) rust" where
  "rsrv_alloc_zeroed pf ops sz =
     and_then (rsrv_alloc pf ops sz) (\<lambda>raw. seq (write_zeros (fst raw) sz) (ret raw))"

definition rsrv_alloc_zeroed_with_addr ::
    "'w platform \<Rightarrow> 'w map_ops \<Rightarrow> usize \<Rightarrow> usize \<Rightarrow> ('w rsrv_static, RsrvMemAllocErr, usize \<times> usize) rust" where
  "rsrv_alloc_zeroed_with_addr pf ops addr sz =
     and_then (rsrv_alloc_with_addr pf ops addr sz) (\<lambda>raw. seq (write_zeros (fst raw) sz) (ret raw))"

definition rsrv_dealloc ::
    "'w platform \<Rightarrow> 'w map_ops \<Rightarrow> usize \<Rightarrow> usize \<Rightarrow> ('w rsrv_static, RsrvMemAllocErr, unit) rust" where
  "rsrv_dealloc pf ops addr sz =
     map_err (\<lambda>_. RsrvMemAllocErr) (with_rsrv pf (rsrv_munmap pf ops addr sz))"

definition rsrv_protect ::
    "'w platform \<Rightarrow> usize \<Rightarrow> usize \<Rightarrow> ProtectPerm \<Rightarrow> ('w rsrv_static, RsrvMemAllocErr, unit) rust" where
  "rsrv_protect pf addr sz perm =
     map_err (\<lambda>_. RsrvMemAllocErr) (with_rsrv pf (rsrv_mprotect pf addr sz perm))"

section \<open>The C interface\<close>

definition set_errno :: "errno \<Rightarrow> ('w rsrv_static, 'e, unit) rust" where
  "set_errno e = modify (\<lambda>s. s\<lparr>st_errno := e\<rparr>)"

text \<open>Output pointers are given by whether they are non-null; a null one is not written.\<close>

definition sgx_get_rsrv_mem_info ::
    "'w platform \<Rightarrow> bool \<Rightarrow> bool
      \<Rightarrow> ('w rsrv_static, 'e, SgxStatus \<times> usize option \<times> usize option) rust" where
  "sgx_get_rsrv_mem_info pf start_addr max_size =
     (if \<not> start_addr \<and> \<not> max_size then ret (Sgx_InvalidParameter, None, None)
      else and_then (attempt (get_or_init pf)) (\<lambda>r.
        let (base, sz) = (case r of Inr rm \<Rightarrow> (rm_base rm, rm_size rm) | Inl _ \<Rightarrow> (0, 0))
        in ret (Sgx_Success, (if start_addr then Some base else None), (if max_size then Some sz else None))))"

definition sgx_alloc_rsrv_mem_ex ::
    "'w platform \<Rightarrow> 'w map_ops \<Rightarrow> usize \<Rightarrow> usize \<Rightarrow> ('w rsrv_static, 'e, usize) rust" where
  "sgx_alloc_rsrv_mem_ex pf ops desired_addr len =
     (let addr = (if desired_addr = 0 then Any else Need desired_addr) in
      and_then (attempt (with_rsrv pf (rsrv_mmap pf ops addr len None None))) (\<lambda>r.
        case r of Inl e \<Rightarrow> seq (set_errno e) (ret 0) | Inr a \<Rightarrow> ret a))"

definition sgx_alloc_rsrv_mem :: "'w platform \<Rightarrow> 'w map_ops \<Rightarrow> usize \<Rightarrow> ('w rsrv_static, 'e, usize) rust" where
  "sgx_alloc_rsrv_mem pf ops len = sgx_alloc_rsrv_mem_ex pf ops 0 len"

definition sgx_free_rsrv_mem ::
    "'w platform \<Rightarrow> 'w map_ops \<Rightarrow> usize \<Rightarrow> usize \<Rightarrow> ('w rsrv_static, 'e, int) rust" where
  "sgx_free_rsrv_mem pf ops addr len =
     and_then (attempt (with_rsrv pf (rsrv_munmap pf ops addr len))) (\<lambda>r.
       case r of Inl e \<Rightarrow> seq (set_errno e) (ret (errno_code e)) | Inr _ \<Rightarrow> ret 0)"

text \<open>\<open>ProtectPerm::try_from(prot as u8)\<close>.\<close>

definition protect_perm_try_from :: "int \<Rightarrow> ProtectPerm option" where
  "protect_perm_try_from prot =
     map_of [(0, PP_None), (1, PP_Read), (3, PP_ReadWrite), (5, PP_ReadExec), (7, PP_ReadWriteExec)]
       (prot mod 256)"

definition sgx_tprotect_rsrv_mem ::
    "'w platform \<Rightarrow> usize \<Rightarrow> usize \<Rightarrow> int \<Rightarrow> ('w rsrv_static, 'e, SgxStatus) rust" where
  "sgx_tprotect_rsrv_mem pf addr len prot =
     and_then (attempt (get_or_init pf)) (\<lambda>r.
       case r of
         Inl _ \<Rightarrow> ret Sgx_InvalidParameter
       | Inr _ \<Rightarrow>
           (case protect_perm_try_from prot of
              None \<Rightarrow> ret Sgx_InvalidParameter
            | Some perm \<Rightarrow>
                and_then (attempt (with_rsrv pf (rsrv_mprotect pf addr len perm))) (\<lambda>r.
                  ret (case r of
                         Inr _ \<Rightarrow> Sgx_Success
                       | Inl e \<Rightarrow> if e = EINVAL then Sgx_InvalidParameter
                                  else if e = ENOMEM then Sgx_OutOfMemory else Sgx_Unexpected))))"

end
