(* ===== verification/Rsrv_Props.thy ===== *)
theory Rsrv_Props
  imports Rsrv_Mem
begin

text \<open>
  Correctness of the reserved memory: its invariant, what \<open>mmap\<close>, \<open>munmap\<close>, \<open>mprotect\<close> and
  \<open>msync\<close> do to the set of mapped addresses, and what holds in every state that a sequence of
  these operations can reach.
\<close>

section \<open>The invariant\<close>

definition wf_rsrv :: "RsrvMem \<Rightarrow> bool" where
  "wf_rsrv rm \<longleftrightarrow> wf_manager (rm_manager rm)
     \<and> m_range (rm_manager rm) = \<lparr>r_start = rm_base rm, r_end = rm_base rm + rm_size rm\<rparr>
     \<and> m_perm (rm_manager rm) = rm_perm rm
     \<and> rm_base rm \<noteq> 0 \<and> is_page_aligned (rm_committed_size rm) \<and> rm_committed_size rm \<le> rm_size rm
     \<and> is_page_aligned (rm_min_size rm) \<and> rm_base rm + rm_min_size rm < USIZE_LIMIT
     \<and> mapped (rm_manager rm) \<subseteq> {rm_base rm ..< rm_base rm + rm_committed_size rm}"

abbreviation mapped_of :: "'w rsrv \<Rightarrow> usize set" where
  "mapped_of s \<equiv> mapped (rm_manager (rv_mem s))"

lemma wf_rsrvD:
  assumes "wf_rsrv rm"
  shows "wf_manager (rm_manager rm)" "wf_range (m_range (rm_manager rm))"
    "m_range (rm_manager rm) = \<lparr>r_start = rm_base rm, r_end = rm_base rm + rm_size rm\<rparr>"
    "rm_base rm + rm_size rm < USIZE_LIMIT" "is_page_aligned (rm_base rm)" "is_page_aligned (rm_size rm)"
    "4096 \<le> rm_base rm"
proof -
  show wf: "wf_manager (rm_manager rm)"
    and R: "m_range (rm_manager rm) = \<lparr>r_start = rm_base rm, r_end = rm_base rm + rm_size rm\<rparr>"
    using assms by (simp_all add: wf_rsrv_def)
  show wr: "wf_range (m_range (rm_manager rm))" using wf by (simp add: wf_manager_def)
  then show lim: "rm_base rm + rm_size rm < USIZE_LIMIT" and al: "is_page_aligned (rm_base rm)"
    by (simp_all add: R wf_range_def)
  show "is_page_aligned (rm_size rm)" using wr al by (auto simp: R wf_range_def page_aligned_dvd dvd_add_right_iff)
  show "4096 \<le> rm_base rm" using al assms by (auto simp: wf_rsrv_def page_aligned_dvd dest: dvd_imp_le)
qed

lemma wf_rsrv_manager:
  assumes "wf_rsrv rm" "wf_manager m" "same_region (rm_manager rm) m"
    and "mapped m \<subseteq> {rm_base rm ..< rm_base rm + rm_committed_size rm}"
  shows "wf_rsrv (rm\<lparr>rm_manager := m\<rparr>)"
  using assms by (simp add: wf_rsrv_def same_region_def)

lemma on_manager_iff:
  "on_manager f s = (x, s') \<longleftrightarrow>
     (\<exists>m t. f (rm_manager (rv_mem s), rv_machine s) = (x, m, t)
        \<and> s' = s\<lparr>rv_mem := (rv_mem s)\<lparr>rm_manager := m\<rparr>, rv_machine := t\<rparr>)"
  by (auto simp: on_manager_def zoom_def split: prod.splits)

lemma on_area_iff:
  "on_area f s = (x, s') \<longleftrightarrow> (\<exists>t. f (rv_machine s) = (x, t) \<and> s' = s\<lparr>rv_machine := t\<rparr>)"
  by (auto simp: on_area_def zoom_def split: prod.splits)

section \<open>Committing pages\<close>

lemma round_to_page_id: "is_page_aligned n \<Longrightarrow> n + 4095 < USIZE_LIMIT \<Longrightarrow> round_to_page n = n"
  by (simp add: round_to_page_eq page_aligned_dvd) (elim dvdE, simp)

definition set_committed_of :: "usize \<Rightarrow> 'w rsrv \<Rightarrow> 'w rsrv" where
  "set_committed_of n s = s\<lparr>rv_mem := (rv_mem s)\<lparr>rm_committed_size := n\<rparr>\<rparr>"

definition set_outside :: "'w \<Rightarrow> 'w rsrv \<Rightarrow> 'w rsrv" where
  "set_outside w s = s\<lparr>rv_machine := (rv_machine s)\<lparr>outside := w\<rparr>\<rparr>"

lemma commit_range_eq:
  assumes wf: "wf_rsrv (rv_mem s)" and nr: "wf_range nr" "is_superset_of (m_range (rm_manager (rv_mem s))) nr"
  defines "base \<equiv> rm_base (rv_mem s)" and "committed \<equiv> rm_committed_size (rv_mem s)"
    and "low \<equiv> max (rm_committed_size (rv_mem s)) (rm_min_size (rv_mem s))"
  shows "commit_range pf nr s =
    (if r_end nr \<le> base + committed then (Ok (), s)
     else if \<not> is_supported_edmm pf \<or> r_end nr \<le> base + rm_min_size (rv_mem s)
     then (Ok (), set_committed_of (r_end nr - base) s)
     else case apply_epc_pages pf (base + low) ((r_end nr - (base + low)) div 4096) (outside (rv_machine s)) of
        (Ok _, w) \<Rightarrow> (Ok (), set_outside w (set_committed_of (r_end nr - base) s))
      | (Err _, w) \<Rightarrow> (Err ENOMEM, set_outside w s)
      | (Panic, w) \<Rightarrow> (Panic, set_outside w (set_committed_of (r_end nr - base) s)))"
proof (cases "r_end nr \<le> base + committed")
  case True
  have "base + committed < USIZE_LIMIT" using wf wf_rsrvD(4) [OF wf] by (simp add: wf_rsrv_def base_def committed_def)
  then show ?thesis
    using True by (simp add: commit_range_def base_def committed_def wrapping_add_small ret_def)
next
  case False
  note d = wf_rsrvD [OF wf, folded base_def]
  let ?E = "r_end nr" and ?M = "rm_min_size (rv_mem s)"
  have c: "is_page_aligned committed" "base + committed < USIZE_LIMIT" "base + ?M < USIZE_LIMIT"
    using wf d(4) by (simp_all add: wf_rsrv_def base_def committed_def)
  have E: "?E < USIZE_LIMIT" "is_page_aligned (?E - (base + committed))" "base \<le> ?E"
    using nr c(1) d(5) False by (auto simp: wf_range_def)
  have w: "wrapping_add base committed = base + committed" "wrapping_add base ?M = base + ?M"
    "wrapping_sub ?E (base + committed) = ?E - (base + committed)"
    using c E False by (simp_all add: wrapping_add_small wrapping_sub_small)
  have off: "round_to_page (?E - (base + committed)) = ?E - (base + committed)"
    using E d(7) by (intro round_to_page_id) auto
  have sum: "committed + (?E - (base + committed)) = ?E - base" using False by simp
  have com: "wrapping_add committed (?E - (base + committed)) = ?E - base"
    using E(1) False by (simp add: wrapping_add_small)
  have M: "wrapping_sub (?E - base) ?M = ?E - (base + ?M)" if "base + ?M < ?E"
    using that E(1) by (simp add: wrapping_sub_small)
  have shift: "drop_bit SE_PAGE_SHIFT n = n div 4096" for n :: nat
    by (simp add: SE_PAGE_SHIFT_def drop_bit_eq_div)
  note run = commit_range_def base_def [symmetric] committed_def [symmetric] w off com Let_def set_committed_def
    set_committed_of_def ret_def
  show ?thesis
  proof (cases "\<not> is_supported_edmm pf \<or> ?E \<le> base + ?M")
    case True
    then show ?thesis using False by (auto simp: run)
  next
    case nM: False
    have "commit_range pf nr s =
        and_then (attempt (on_area (on_world (apply_epc_pages pf (base + low) ((?E - (base + low)) div 4096)))))
          (\<lambda>r. case r of Inl _ \<Rightarrow> seq (set_committed committed) (bail ENOMEM) | Inr _ \<Rightarrow> ret ())
          (set_committed_of (?E - base) s)"
      using False nM M by (auto simp: run shift low_def max_def committed_def [symmetric])
    then show ?thesis
      using False nM
      by (auto simp: and_then_def attempt_def on_area_def on_world_def zoom_def set_committed_def seq_def
          modify_def bail_def ret_def set_committed_of_def set_outside_def committed_def
          split: prod.splits res.splits)
  qed
qed

text \<open>The states that differ from \<open>s\<close> in the committed size and the machine only.\<close>

definition committed_to :: "'w rsrv \<Rightarrow> usize \<Rightarrow> 'w rsrv \<Rightarrow> bool" where
  "committed_to s n s' \<longleftrightarrow> s' = (set_committed_of n s)\<lparr>rv_machine := rv_machine s'\<rparr>"

lemma committed_to_intros:
  "committed_to s (rm_committed_size (rv_mem s)) s" "committed_to s (rm_committed_size (rv_mem s)) (set_outside w s)"
  "committed_to s n (set_committed_of n s)" "committed_to s n (set_outside w (set_committed_of n s))"
  by (simp_all add: committed_to_def set_committed_of_def set_outside_def)

lemma committed_toD: "committed_to s n s' \<Longrightarrow> rv_mem s' = (rv_mem s)\<lparr>rm_committed_size := n\<rparr>"
  by (cases s') (simp add: committed_to_def set_committed_of_def)

lemma commit_range_wp:
  assumes wf: "wf_rsrv (rv_mem s)" and nr: "wf_range nr" "is_superset_of (m_range (rm_manager (rv_mem s))) nr"
  shows "wp (commit_range pf nr)
    (\<lambda>_ s'. \<exists>n. committed_to s n s' \<and> rm_committed_size (rv_mem s) \<le> n
        \<and> r_end nr \<le> rm_base (rv_mem s) + n \<and> n \<le> rm_size (rv_mem s) \<and> is_page_aligned n)
    (\<lambda>e s'. e = ENOMEM \<and> committed_to s (rm_committed_size (rv_mem s)) s') s"
proof -
  note d = wf_rsrvD [OF wf]
  let ?n = "r_end nr - rm_base (rv_mem s)" and ?c = "rm_committed_size (rv_mem s)"
  have c: "?c \<le> rm_size (rv_mem s)" "is_page_aligned ?c" using wf by (simp_all add: wf_rsrv_def)
  have n: "?n \<le> rm_size (rv_mem s)" "is_page_aligned ?n" "r_end nr \<le> rm_base (rv_mem s) + ?n"
    using nr d(3,5) by (auto simp: wf_range_def is_superset_of_def)
  show ?thesis
  proof (cases "r_end nr \<le> rm_base (rv_mem s) + ?c")
    case True
    then show ?thesis
      using c committed_to_intros(1) by (auto simp: wp_def commit_range_eq [OF wf nr])
  next
    case False
    then have post: "\<exists>m. committed_to s m s' \<and> ?c \<le> m \<and> r_end nr \<le> rm_base (rv_mem s) + m
        \<and> m \<le> rm_size (rv_mem s) \<and> is_page_aligned m" if "committed_to s ?n s'" for s'
      using n that by (intro exI [of _ ?n]) auto
    let ?low = "rm_base (rv_mem s) + max ?c (rm_min_size (rv_mem s))"
    obtain x w where ap: "apply_epc_pages pf ?low ((r_end nr - ?low) div 4096) (outside (rv_machine s)) = (x, w)"
      by fastforce
    show ?thesis
      using False
      by (cases x) (simp_all add: wp_def commit_range_eq [OF wf nr] ap committed_to_intros(2)
          post [OF committed_to_intros(3)] post [OF committed_to_intros(4)])
  qed
qed

section \<open>Mapping\<close>

text \<open>What no operation changes of the reserved memory.\<close>

definition rsrv_frame :: "RsrvMem \<Rightarrow> RsrvMem \<Rightarrow> bool" where
  "rsrv_frame rm rm' \<longleftrightarrow> rm_base rm' = rm_base rm \<and> rm_size rm' = rm_size rm \<and> rm_min_size rm' = rm_min_size rm
     \<and> rm_perm rm' = rm_perm rm \<and> rm_committed_size rm \<le> rm_committed_size rm'"

text \<open>The shape of an area, which loading and protecting it keep.\<close>

definition area_shape :: "MmArea \<Rightarrow> MmRange \<Rightarrow> bool" where
  "area_shape v r \<longleftrightarrow> a_range v = r \<and> a_state v = Committed \<and> a_typ v = MT_Reg"

lemma area_new_wp: "wp (area_new r p Committed MT_Reg ob) (\<lambda>v s'. s' = s \<and> area_shape v r) (\<lambda>_ s'. s' = s) s"
  by (simp add: area_new_def Let_def area_shape_def wp)

lemma area_load_wp: "area_shape v r \<Longrightarrow> wp (area_load ops v) (\<lambda>v' _. area_shape v' r) (\<lambda>_ _. True) t"
  by (auto simp: area_load_def area_shape_def Let_def wp_def split: option.splits prod.splits res.splits)

lemma apply_perm_wp: "area_shape v r \<Longrightarrow> wp (apply_perm pf chk v p) (\<lambda>v' _. area_shape v' r) (\<lambda>_ _. True) t"
  by (rule wpI) (auto simp: area_shape_def dest: apply_perm_Ok(1))

lemma wf_rsrv_commit:
  assumes "wf_rsrv rm" "rm_committed_size rm \<le> n" "n \<le> rm_size rm" "is_page_aligned n"
  shows "wf_rsrv (rm\<lparr>rm_committed_size := n\<rparr>)"
  using assms by (auto simp: wf_rsrv_def)

text \<open>The second half of \<open>mmap\<close>: pages are committed, the object is loaded and the area inserted.\<close>

definition mmap_finish ::
    "'w platform \<Rightarrow> 'w map_ops \<Rightarrow> RsrvMem \<Rightarrow> nat \<Rightarrow> MmRange \<Rightarrow> ProtectPerm option \<Rightarrow> MapObject option
      \<Rightarrow> ('w rsrv, errno, usize) rust" where
  "mmap_finish pf ops rm k new_range perm map_object =
     seq (commit_range pf new_range)
    (seq update_peak
    (and_then (area_new new_range (rm_perm rm) Committed MT_Reg map_object) (\<lambda>vrd.
     and_then (on_area (area_load ops vrd)) (\<lambda>vrd.
     and_then (on_area (apply_perm pf check_perm vrd
                 (case perm of Some p \<Rightarrow> mm_perm_of p | None \<Rightarrow> rm_perm rm))) (\<lambda>vrd.
     seq (on_manager (insert_vrd k vrd)) (ret (r_start new_range)))))))"

lemma wp_on_manager [wp]:
  "wp (on_manager f) P Q s \<longleftrightarrow>
     wp f (\<lambda>a (m, t). P a (s\<lparr>rv_mem := (rv_mem s)\<lparr>rm_manager := m\<rparr>, rv_machine := t\<rparr>))
       (\<lambda>e (m, t). Q e (s\<lparr>rv_mem := (rv_mem s)\<lparr>rm_manager := m\<rparr>, rv_machine := t\<rparr>))
       (rm_manager (rv_mem s), rv_machine s)"
  by (simp add: on_manager_def wp_zoom case_prod_unfold)

lemma wp_on_area [wp]:
  "wp (on_area f) P Q s \<longleftrightarrow>
     wp f (\<lambda>a t. P a (s\<lparr>rv_machine := t\<rparr>)) (\<lambda>e t. Q e (s\<lparr>rv_machine := t\<rparr>)) (rv_machine s)"
  by (simp add: on_area_def wp_zoom)

lemma mmap_finish_wp:
  fixes s :: "'w rsrv"
  assumes wf: "wf_rsrv (rv_mem s)" and rng: "wf_range nr" "r_start nr < r_end nr"
      "is_superset_of (m_range (rm_manager (rv_mem s))) nr"
    and ins: "\<And>v (t :: 'w machine). area_ok (m_range (rm_manager (rv_mem s))) v \<Longrightarrow> a_range v = nr
      \<Longrightarrow> \<exists>m'. insert_vrd k v (rm_manager (rv_mem s), t) = (Ok (), m', t) \<and> wf_manager m'
          \<and> same_region (rm_manager (rv_mem s)) m' \<and> mapped m' = mapped_of s \<union> addrs nr"
  shows "wp (mmap_finish pf ops rm k nr perm ob)
    (\<lambda>a s'. wf_rsrv (rv_mem s') \<and> rsrv_frame (rv_mem s) (rv_mem s') \<and> a = r_start nr
       \<and> mapped_of s' = mapped_of s \<union> addrs nr)
    (\<lambda>e s'. wf_rsrv (rv_mem s') \<and> rsrv_frame (rv_mem s) (rv_mem s') \<and> mapped_of s' = mapped_of s) s"
proof -
  let ?ok = "\<lambda>s1. wf_rsrv (rv_mem s1) \<and> rsrv_frame (rv_mem s) (rv_mem s1)
      \<and> rm_manager (rv_mem s1) = rm_manager (rv_mem s)"
  let ?in = "\<lambda>s1. r_end nr \<le> rm_base (rv_mem s1) + rm_committed_size (rv_mem s1)"
  have step: "?ok s1 \<Longrightarrow> ?ok (s1\<lparr>rv_machine := t\<rparr>)" for s1 t by simp
  have commit: "wp (commit_range pf nr) (\<lambda>_ s1. ?ok s1 \<and> ?in s1) (\<lambda>_ s1. ?ok s1) s"
  proof (rule wp_conseq [OF commit_range_wp [OF wf rng(1,3)]])
    fix s1 :: "'w rsrv"
    assume "\<exists>n. committed_to s n s1 \<and> rm_committed_size (rv_mem s) \<le> n \<and> r_end nr \<le> rm_base (rv_mem s) + n
        \<and> n \<le> rm_size (rv_mem s) \<and> is_page_aligned n"
    then show "?ok s1 \<and> ?in s1"
      using wf_rsrv_commit [OF wf] by (auto simp: rsrv_frame_def dest: committed_toD)
  next
    fix e s1 assume "e = ENOMEM \<and> committed_to s (rm_committed_size (rv_mem s)) s1"
    then show "?ok s1" using wf by (auto simp: rsrv_frame_def dest: committed_toD)
  qed
  have final: "wp (on_manager (insert_vrd k v))
      (\<lambda>_ s'. wf_rsrv (rv_mem s') \<and> rsrv_frame (rv_mem s) (rv_mem s') \<and> mapped_of s' = mapped_of s \<union> addrs nr)
      (\<lambda>_ _. False) s1"
    if s1: "?ok s1" "?in s1" and v: "area_shape v nr" for s1 :: "'w rsrv" and v
  proof -
    have "area_ok (m_range (rm_manager (rv_mem s))) v"
      using v rng by (simp add: area_ok_def area_shape_def)
    then obtain m' where m': "insert_vrd k v (rm_manager (rv_mem s), rv_machine s1) = (Ok (), m', rv_machine s1)"
      "wf_manager m'" "same_region (rm_manager (rv_mem s)) m'" "mapped m' = mapped_of s \<union> addrs nr"
      using ins [of v "rv_machine s1"] v unfolding area_shape_def by blast
    have "mapped m' \<subseteq> {rm_base (rv_mem s1) ..< rm_base (rv_mem s1) + rm_committed_size (rv_mem s1)}"
      using m'(4) s1 rng(3) wf_rsrvD(3) [OF wf]
      by (auto simp: wf_rsrv_def rsrv_frame_def addrs_def is_superset_of_def)
    then have "wf_rsrv ((rv_mem s1)\<lparr>rm_manager := m'\<rparr>)"
      using s1 m' by (intro wf_rsrv_manager) auto
    then show ?thesis using m' s1 by (simp add: wp) (simp add: wp_def rsrv_frame_def)
  qed
  let ?P = "\<lambda>a s'. wf_rsrv (rv_mem s') \<and> rsrv_frame (rv_mem s) (rv_mem s') \<and> a = r_start nr
       \<and> mapped_of s' = mapped_of s \<union> addrs nr"
  let ?Q = "\<lambda>e s'. wf_rsrv (rv_mem s') \<and> rsrv_frame (rv_mem s) (rv_mem s') \<and> mapped_of s' = mapped_of s"
  have put: "wp (on_manager (insert_vrd k v)) (\<lambda>_. ?P (r_start nr)) ?Q s1"
    if "?ok s1" "?in s1" "area_shape v nr" for s1 :: "'w rsrv" and v
    by (rule wp_conseq [OF final [OF that]]) auto
  have perm: "wp (on_area (apply_perm pf check_perm v p)) (\<lambda>v'. wp (on_manager (insert_vrd k v')) (\<lambda>_. ?P (r_start nr)) ?Q) ?Q s1"
    if "?ok s1" "?in s1" "area_shape v nr" for s1 :: "'w rsrv" and v p
    unfolding wp_on_area by (rule wp_conseq [OF apply_perm_wp [OF that(3)]], rule put) (use that in simp_all)
  have load: "wp (on_area (area_load ops v)) (\<lambda>v'. wp (on_area (apply_perm pf check_perm v' p))
        (\<lambda>v'. wp (on_manager (insert_vrd k v')) (\<lambda>_. ?P (r_start nr)) ?Q) ?Q) ?Q s1"
    if "?ok s1" "?in s1" "area_shape v nr" for s1 :: "'w rsrv" and v p
    unfolding wp_on_area [of "area_load ops v"]
    by (rule wp_conseq [OF area_load_wp [OF that(3)]], rule perm) (use that in simp_all)
  show ?thesis
    unfolding mmap_finish_def wp_seq wp_and_then wp_ret update_peak_def wp_modify
    by (rule wp_conseq [OF commit], rule wp_conseq [OF area_new_wp], rule load) auto
qed

lemma align_alloc_wp:
  "wp (align_alloc addr) (\<lambda>addr' s'. s' = s \<and> (\<forall>b. addr' = Need b \<longleftrightarrow> addr = Need b) \<and> (\<forall>b. addr' = Force b \<longleftrightarrow> addr = Force b))
     (\<lambda>_ s'. s' = s) s"
  by (cases addr) (simp_all add: align_alloc_def wp)

text \<open>What a mapping adds, and what it leaves when it fails.\<close>

definition mmap_post :: "MmAllocAddr \<Rightarrow> usize \<Rightarrow> 'w rsrv \<Rightarrow> usize \<Rightarrow> 'w rsrv \<Rightarrow> bool" where
  "mmap_post addr n s a s' \<longleftrightarrow> wf_rsrv (rv_mem s') \<and> rsrv_frame (rv_mem s) (rv_mem s')
     \<and> is_page_aligned a \<and> (\<forall>b. addr = Need b \<or> addr = Force b \<longrightarrow> a = b)
     \<and> (\<exists>U. U \<subseteq> mapped_of s \<and> mapped_of s' = U \<union> {a ..< a + n} \<and> {a ..< a + n} \<inter> U = {}
          \<and> ((\<forall>b. addr \<noteq> Force b) \<longrightarrow> U = mapped_of s))"

definition mmap_fail :: "MmAllocAddr \<Rightarrow> 'w rsrv \<Rightarrow> 'w rsrv \<Rightarrow> bool" where
  "mmap_fail addr s s' \<longleftrightarrow> wf_rsrv (rv_mem s') \<and> rsrv_frame (rv_mem s) (rv_mem s')
     \<and> mapped_of s' \<subseteq> mapped_of s \<and> ((\<forall>b. addr \<noteq> Force b) \<longrightarrow> mapped_of s' = mapped_of s)"

lemma mmap_search_wp:
  fixes s :: "'w rsrv"
  assumes wf: "wf_rsrv (rv_mem s)" and n: "0 < n" "is_page_aligned n"
  shows "wp (on_manager (find_free_range pf ops addr n))
    (\<lambda>(k, r). wp (and_then (gets rv_mem) (\<lambda>rm. seq (ensure (check_range (rm_manager rm) r) ENOMEM)
        (and_then (alloc_range_from addr n r) (\<lambda>nr. mmap_finish pf ops rm k nr perm ob))))
      (mmap_post addr n s) (\<lambda>_. mmap_fail addr s))
    (\<lambda>_. mmap_fail addr s) s"
  unfolding wp_on_manager
proof (rule wpI)
  fix e and mt :: "'w mm_state"
  assume run: "find_free_range pf ops addr n (rm_manager (rv_mem s), rv_machine s) = (Err e, mt)"
  obtain m' t' where mt: "mt = (m', t')" by (cases mt)
  note i = mm.search_inv [OF wf_rsrvD(1) [OF wf] run [unfolded mt]]
    and p = mm.search_pure [OF wf_rsrvD(1) [OF wf] run [unfolded mt]]
  have "mapped m' \<subseteq> {rm_base (rv_mem s) ..< rm_base (rv_mem s) + rm_committed_size (rv_mem s)}"
    using i wf by (auto simp: wf_rsrv_def)
  then show "case mt of (m, t) \<Rightarrow> mmap_fail addr s (s\<lparr>rv_mem := (rv_mem s)\<lparr>rm_manager := m\<rparr>, rv_machine := t\<rparr>)"
    using i p wf_rsrv_manager [OF wf, of m'] by (auto simp: mt mmap_fail_def rsrv_frame_def)
next
  fix kr and mt :: "'w mm_state"
  assume run0: "find_free_range pf ops addr n (rm_manager (rv_mem s), rv_machine s) = (Ok kr, mt)"
  obtain m' t' k r where mt: "mt = (m', t')" "kr = (k, r)" by (cases mt; cases kr) blast
  note run = run0 [unfolded mt] and wfm = wf_rsrvD(1,2) [OF wf]
  note i = mm.search_inv [OF wfm(1) run] and p = mm.search_pure [OF wfm(1) run]
    and room = mm.search_room [OF wfm(1) run]
  let ?s1 = "s\<lparr>rv_mem := (rv_mem s)\<lparr>rm_manager := m'\<rparr>, rv_machine := t'\<rparr>" and ?nr = "r\<lparr>r_end := r_start r + n\<rparr>"
  have sub: "mapped m' \<subseteq> {rm_base (rv_mem s) ..< rm_base (rv_mem s) + rm_committed_size (rv_mem s)}"
    using i wf by (auto simp: wf_rsrv_def)
  have wf1: "wf_rsrv (rv_mem ?s1)" using i sub wf_rsrv_manager [OF wf, of m'] by simp
  have R: "m_range m' = m_range (rm_manager (rv_mem s))" using i by (simp add: same_region_def)
  have lim: "r_start r + n < USIZE_LIMIT"
    using room wfm(2) by (auto simp: is_superset_of_def wf_range_def)
  have nr: "wf_range ?nr" "r_start ?nr < r_end ?nr" "is_superset_of (m_range m') ?nr"
    using room n lim R by (auto simp: wf_range_def is_superset_of_def)
  have fin: "wp (mmap_finish pf ops (rv_mem ?s1) k ?nr perm ob) (mmap_post addr n s) (\<lambda>_. mmap_fail addr s) ?s1"
  proof (rule wp_conseq [OF mmap_finish_wp [OF wf1 nr(1,2)]])
    show "is_superset_of (m_range (rm_manager (rv_mem ?s1))) ?nr" using nr(3) by simp
  next
    fix v and t :: "'w machine"
    assume "area_ok (m_range (rm_manager (rv_mem ?s1))) v" "a_range v = ?nr"
    then show "\<exists>m''. insert_vrd k v (rm_manager (rv_mem ?s1), t) = (Ok (), m'', t) \<and> wf_manager m''
          \<and> same_region (rm_manager (rv_mem ?s1)) m'' \<and> mapped m'' = mapped_of ?s1 \<union> addrs ?nr"
      using mm.place_ok [OF wfm(1) run, of v t] R room n by (simp add: is_superset_of_def)
  next
    fix a and s' :: "'w rsrv"
    assume "wf_rsrv (rv_mem s') \<and> rsrv_frame (rv_mem ?s1) (rv_mem s') \<and> a = r_start ?nr
       \<and> mapped_of s' = mapped_of ?s1 \<union> addrs ?nr"
    moreover have "{r_start r ..< r_start r + n} \<inter> mapped m' = {}" using room by (auto simp: addrs_def disjoint_iff)
    ultimately show "mmap_post addr n s a s'"
      using i p room mm.search_addr [OF run]
      by (auto simp: mmap_post_def rsrv_frame_def addrs_def intro!: exI [of _ "mapped m'"])
  next
    fix e and s' :: "'w rsrv"
    assume "wf_rsrv (rv_mem s') \<and> rsrv_frame (rv_mem ?s1) (rv_mem s') \<and> mapped_of s' = mapped_of ?s1"
    then show "mmap_fail addr s s'" using i p by (auto simp: mmap_fail_def rsrv_frame_def)
  qed
  have "check_range m' r" using room R by (simp add: check_range_def)
  moreover have alloc: "alloc_range_from addr n r = ret ?nr"
    unfolding alloc_range_from_def by (rule range_resize_ok [OF n(2) lim])
  ultimately show "case mt of (m, t) \<Rightarrow> (case kr of (k, r) \<Rightarrow> wp (and_then (gets rv_mem)
        (\<lambda>rm. seq (ensure (check_range (rm_manager rm) r) ENOMEM)
        (and_then (alloc_range_from addr n r) (\<lambda>nr. mmap_finish pf ops rm k nr perm ob))))
      (mmap_post addr n s) (\<lambda>_. mmap_fail addr s)) (s\<lparr>rv_mem := (rv_mem s)\<lparr>rm_manager := m\<rparr>, rv_machine := t\<rparr>)"
    using fin by (simp add: mt wp alloc)
qed

lemma rsrv_mmap_wp:
  fixes s :: "'w rsrv"
  assumes wf: "wf_rsrv (rv_mem s)"
  shows "wp (rsrv_mmap pf ops addr sz perm ob) (mmap_post addr (round_to_page sz) s) (\<lambda>_. mmap_fail addr s) s"
proof -
  let ?n = "round_to_page sz"
  have fail: "mmap_fail addr s s" using wf by (simp add: mmap_fail_def rsrv_frame_def)
  have kind: "mmap_post addr' n s = mmap_post addr n s" "mmap_fail addr' s = mmap_fail addr s"
    if "(\<forall>b. addr' = Need b \<longleftrightarrow> addr = Need b) \<and> (\<forall>b. addr' = Force b \<longleftrightarrow> addr = Force b)" for addr' n
    using that by (simp_all add: mmap_post_def mmap_fail_def fun_eq_iff)
  have search: "wp (on_manager (find_free_range pf ops addr' ?n))
    (\<lambda>(k, r). wp (and_then (gets rv_mem) (\<lambda>rm. seq (ensure (check_range (rm_manager rm) r) ENOMEM)
        (and_then (alloc_range_from addr' ?n r) (\<lambda>nr. mmap_finish pf ops rm k nr perm ob))))
      (mmap_post addr ?n s) (\<lambda>_. mmap_fail addr s)) (\<lambda>_. mmap_fail addr s) s"
    if "(\<forall>b. addr' = Need b \<longleftrightarrow> addr = Need b) \<and> (\<forall>b. addr' = Force b \<longleftrightarrow> addr = Force b)" "0 < ?n" for addr'
    using mmap_search_wp [OF wf that(2) round_to_page_aligned, of pf ops addr' perm ob] kind [OF that(1)] by simp
  have run: "rsrv_mmap pf ops addr sz perm ob =
    and_then (gets rv_mem) (\<lambda>rm. seq (ensure (?n > 0 \<and> ?n \<le> rm_size rm) EINVAL)
      (and_then (align_alloc addr) (\<lambda>addr'.
        seq (case ob of Some map_obj \<Rightarrow> ensure (pp_can_read (mo_perm map_obj)) EACCES | None \<Rightarrow> ret ())
        (and_then (on_manager (find_free_range pf ops addr' ?n)) (\<lambda>(k, r).
          and_then (gets rv_mem) (\<lambda>rm. seq (ensure (check_range (rm_manager rm) r) ENOMEM)
            (and_then (alloc_range_from addr' ?n r) (\<lambda>nr. mmap_finish pf ops rm k nr perm ob))))))))"
    by (simp add: rsrv_mmap_def mmap_finish_def Let_def)
  have obj: "wp (case ob of Some map_obj \<Rightarrow> ensure (pp_can_read (mo_perm map_obj)) EACCES | None \<Rightarrow> ret ())
      (\<lambda>_ s'. s' = s) (\<lambda>_ s'. s' = s) s"
    by (simp add: wp split: option.split)
  show ?thesis
  proof (cases "?n > 0 \<and> ?n \<le> rm_size (rv_mem s)")
    case False
    then show ?thesis using fail by (auto simp: run wp)
  next
    case True
    have "wp (seq (case ob of Some map_obj \<Rightarrow> ensure (pp_can_read (mo_perm map_obj)) EACCES | None \<Rightarrow> ret ())
        (and_then (on_manager (find_free_range pf ops addr' ?n)) (\<lambda>(k, r).
          and_then (gets rv_mem) (\<lambda>rm. seq (ensure (check_range (rm_manager rm) r) ENOMEM)
            (and_then (alloc_range_from addr' ?n r) (\<lambda>nr. mmap_finish pf ops rm k nr perm ob))))))
        (mmap_post addr ?n s) (\<lambda>_. mmap_fail addr s) s"
      if "(\<forall>b. addr' = Need b \<longleftrightarrow> addr = Need b) \<and> (\<forall>b. addr' = Force b \<longleftrightarrow> addr = Force b)" for addr'
      unfolding wp_seq wp_and_then [of "on_manager (find_free_range pf ops addr' ?n)"]
      by (rule wp_conseq [OF obj]) (use search [OF that] True fail in \<open>simp_all add: case_prod_unfold\<close>)
    then show ?thesis
      using True fail
      by (simp add: run wp_and_then wp_gets wp_seq wp_ensure)
        (rule wp_conseq [OF align_alloc_wp], auto simp: wp_seq wp_and_then)
  qed
qed

section \<open>Unmapping, protecting, synchronising\<close>

lemma checked_range_wp:
  "wp (checked_range pf addr sz)
     (\<lambda>r s'. s' = s \<and> wf_range r \<and> r = \<lparr>r_start = addr, r_end = addr + round_to_page sz\<rparr> \<and> 0 < round_to_page sz)
     (\<lambda>e s'. s' = s \<and> e = EINVAL) s"
proof -
  have "wp (range_new_with_size addr n)
      (\<lambda>r s'. s' = s \<and> wf_range r \<and> r = \<lparr>r_start = addr, r_end = addr + n\<rparr>) (\<lambda>e s'. s' = s \<and> e = EINVAL) s" for n
    by (auto simp: range_new_with_size_def wp wf_range_def checked_add_def split: option.split)
  from wp_conseq [OF this] show ?thesis
    by (auto simp: checked_range_def Let_def wp)
qed

definition munmap_post :: "MmRange \<Rightarrow> 'w rsrv \<Rightarrow> 'w rsrv \<Rightarrow> bool" where
  "munmap_post r s s' \<longleftrightarrow> wf_rsrv (rv_mem s') \<and> rsrv_frame (rv_mem s) (rv_mem s')
     \<and> mapped_of s' = mapped_of s - addrs r"

lemma rsrv_munmap_wp:
  fixes s :: "'w rsrv"
  assumes wf: "wf_rsrv (rv_mem s)"
  shows "wp (rsrv_munmap pf ops addr sz)
    (\<lambda>_. munmap_post \<lparr>r_start = addr, r_end = addr + round_to_page sz\<rparr> s) (\<lambda>_ s'. s' = s) s"
proof -
  let ?r = "\<lparr>r_start = addr, r_end = addr + round_to_page sz\<rparr>"
  have free: "wp (on_manager (free_vrds pf ops ?r)) (\<lambda>_. munmap_post ?r s) (\<lambda>_ s'. s' = s) s" if "wf_range ?r"
    unfolding wp_on_manager
  proof (rule wpI)
    fix u and mt :: "'w mm_state"
    assume run: "free_vrds pf ops ?r (rm_manager (rv_mem s), rv_machine s) = (Ok u, mt)"
    obtain m' t' where mt: "mt = (m', t')" by (cases mt)
    have f: "wf_manager m' \<and> same_region (rm_manager (rv_mem s)) m' \<and> mapped m' = mapped_of s - addrs ?r"
      using mm.release_Ok [OF wf_rsrvD(1) [OF wf] that] run mt by simp
    have "mapped m' \<subseteq> {rm_base (rv_mem s) ..< rm_base (rv_mem s) + rm_committed_size (rv_mem s)}"
      using f wf by (auto simp: wf_rsrv_def)
    then show "case mt of (m, t) \<Rightarrow> munmap_post ?r s (s\<lparr>rv_mem := (rv_mem s)\<lparr>rm_manager := m\<rparr>, rv_machine := t\<rparr>)"
      using f wf_rsrv_manager [OF wf, of m'] by (simp add: mt munmap_post_def rsrv_frame_def)
  next
    fix e and mt :: "'w mm_state"
    assume "free_vrds pf ops ?r (rm_manager (rv_mem s), rv_machine s) = (Err e, mt)"
    then show "case mt of (m, t) \<Rightarrow> s\<lparr>rv_mem := (rv_mem s)\<lparr>rm_manager := m\<rparr>, rv_machine := t\<rparr> = s"
      using mm.release_Err by (cases mt) fastforce
  qed
  show ?thesis
    unfolding rsrv_munmap_def wp_and_then
    by (rule wp_conseq [OF checked_range_wp]) (auto simp: free)
qed

text \<open>Protecting and synchronising do not touch the recorded areas, whatever their outcome.\<close>

lemma on_machine_iff: "on_machine f (m, t) = (x, m', t') \<longleftrightarrow> f t = (x, t') \<and> m' = m"
  by (auto simp: on_machine_def zoom_def split: prod.splits)

lemma apply_perm_vrds_manager: "apply_perm_vrds pf r p (m, t) = (x, m', t') \<Longrightarrow> m' = m"
  by (simp add: apply_perm_vrds_def on_machine_iff)

lemma flush_vrds_manager: "flush_vrds ops r (m, t) = (x, m', t') \<Longrightarrow> m' = m"
  by (auto simp: flush_vrds_def seq_def ensure_def bail_def on_machine_iff split: if_splits)

definition same_mappings :: "'w rsrv \<Rightarrow> 'w rsrv \<Rightarrow> bool" where
  "same_mappings s s' \<longleftrightarrow> wf_rsrv (rv_mem s') \<and> rsrv_frame (rv_mem s) (rv_mem s') \<and> mapped_of s' = mapped_of s"

lemma same_mappings_refl: "wf_rsrv (rv_mem s) \<Longrightarrow> same_mappings s s"
  by (simp add: same_mappings_def rsrv_frame_def)

lemma same_mappings_manager:
  assumes "same_mappings s s1" "wf_manager m" "same_region (rm_manager (rv_mem s1)) m" "mapped m = mapped_of s1"
  shows "same_mappings s (s1\<lparr>rv_mem := (rv_mem s1)\<lparr>rm_manager := m\<rparr>, rv_machine := t\<rparr>)"
  using assms by (auto simp: same_mappings_def rsrv_frame_def wf_rsrv_def same_region_def)

lemma rsrv_msync_wp:
  assumes "wf_rsrv (rv_mem s)"
  shows "wp (rsrv_msync pf ops addr sz) (\<lambda>_. same_mappings s) (\<lambda>_. same_mappings s) s"
proof -
  have "wp (on_manager (flush_vrds ops r)) (\<lambda>_. same_mappings s) (\<lambda>_. same_mappings s) s" for r
    unfolding wp_on_manager
    by (rule wpI) (auto dest!: flush_vrds_manager
        intro!: same_mappings_manager [OF same_mappings_refl [OF assms]] simp: wf_rsrvD(1) [OF assms])
  then show ?thesis
    unfolding rsrv_msync_def wp_and_then
    by (intro wp_conseq [OF checked_range_wp]) (auto intro: same_mappings_refl assms)
qed

lemma split_vrds_any:
  assumes "wf_manager m" "wf_range r" "r_start r < r_end r" "split_vrds r (m, t) = (x, m', t')"
  shows "wf_manager m' \<and> same_region m m' \<and> mapped m' = mapped m"
proof (cases "is_superset_of (m_range m) r")
  case True
  then show ?thesis using split_vrds_wf [OF assms(1-3), of t] assms(4) by auto
next
  case False
  then show ?thesis using assms by (simp add: split_vrds_sides check_range_def)
qed

lemma on_manager_same_wp:
  fixes s s1 :: "'w rsrv"
  assumes "same_mappings s s1"
    and "\<And>x m' t'. f (rm_manager (rv_mem s1), rv_machine s1) = (x, m', t')
      \<Longrightarrow> wf_manager m' \<and> same_region (rm_manager (rv_mem s1)) m' \<and> mapped m' = mapped_of s1"
  shows "wp (on_manager f) (\<lambda>_. same_mappings s) (\<lambda>_. same_mappings s) s1"
proof -
  have "case mt of (m, t) \<Rightarrow> same_mappings s (s1\<lparr>rv_mem := (rv_mem s1)\<lparr>rm_manager := m\<rparr>, rv_machine := t\<rparr>)"
    if "f (rm_manager (rv_mem s1), rv_machine s1) = (x, mt)" for x mt
    using that assms(2) same_mappings_manager [OF assms(1)] by (cases mt) blast
  then show ?thesis unfolding wp_on_manager by (intro wpI)
qed

lemma same_mappings_wf: "same_mappings s s1 \<Longrightarrow> wf_manager (rm_manager (rv_mem s1))"
  by (simp add: same_mappings_def wf_rsrv_def)

lemma apply_perm_vrds_wp:
  assumes "same_mappings s s1"
  shows "wp (on_manager (apply_perm_vrds pf r p)) (\<lambda>_. same_mappings s) (\<lambda>_. same_mappings s) s1"
proof (rule on_manager_same_wp [OF assms])
  fix x m' t'
  assume "apply_perm_vrds pf r p (rm_manager (rv_mem s1), rv_machine s1) = (x, m', t')"
  then have "m' = rm_manager (rv_mem s1)" by (rule apply_perm_vrds_manager)
  then show "wf_manager m' \<and> same_region (rm_manager (rv_mem s1)) m' \<and> mapped m' = mapped_of s1"
    using same_mappings_wf [OF assms] by simp
qed

lemma combine_vrds_wp:
  fixes s s1 :: "'w rsrv"
  assumes "same_mappings s s1"
  shows "wp (on_manager (combine_vrds r) :: ('w rsrv, errno, unit) rust) (\<lambda>_. same_mappings s) (\<lambda>_. same_mappings s) s1"
proof (rule on_manager_same_wp [OF assms])
  fix x :: "(errno, unit) res" and m' t'
  assume "combine_vrds r (rm_manager (rv_mem s1), rv_machine s1) = (x, m', t')"
  moreover obtain m1 where
    "combine_vrds r (rm_manager (rv_mem s1), rv_machine s1) = (Ok () :: (errno, unit) res, m1, rv_machine s1)"
    "wf_manager m1" "same_region (rm_manager (rv_mem s1)) m1" "mapped m1 = mapped_of s1"
    using combine_vrds_wf [OF same_mappings_wf [OF assms]] by blast
  ultimately show "wf_manager m' \<and> same_region (rm_manager (rv_mem s1)) m' \<and> mapped m' = mapped_of s1"
    by simp
qed

lemma mprotect_finish_wp:
  fixes s s1 :: "'w rsrv"
  assumes "same_mappings s s1"
  shows "wp (seq (ok_or found EFAULT)
    (and_then (attempt (on_manager (apply_perm_vrds pf r p))) (\<lambda>result.
     seq (on_manager (combine_vrds r)) (case result of Inl e \<Rightarrow> bail e | Inr _ \<Rightarrow> ret ()))))
    (\<lambda>_. same_mappings s) (\<lambda>_. same_mappings s) s1"
proof -
  have tail: "wp (seq (on_manager (combine_vrds r)) (case result of Inl e \<Rightarrow> bail e | Inr _ \<Rightarrow> ret ()))
      (\<lambda>_. same_mappings s) (\<lambda>_. same_mappings s) s2" if "same_mappings s s2"
    for s2 and result :: "errno + unit"
    unfolding wp_seq by (rule wp_conseq [OF combine_vrds_wp [OF that]]) (cases result; simp add: wp)+
  have "wp (and_then (attempt (on_manager (apply_perm_vrds pf r p))) (\<lambda>result.
     seq (on_manager (combine_vrds r)) (case result of Inl e \<Rightarrow> bail e | Inr _ \<Rightarrow> ret ())))
     (\<lambda>_. same_mappings s) (\<lambda>_. same_mappings s) s1"
    unfolding wp_and_then wp_attempt
    by (rule wp_conseq [OF apply_perm_vrds_wp [OF assms]]; rule tail; assumption)
  then show ?thesis
    using assms unfolding wp_seq [of "ok_or found EFAULT"] wp_ok_or by (simp split: option.split)
qed

lemma rsrv_mprotect_wp:
  fixes s :: "'w rsrv"
  assumes wf: "wf_rsrv (rv_mem s)"
  shows "wp (rsrv_mprotect pf addr sz perm) (\<lambda>_. same_mappings s) (\<lambda>_. same_mappings s) s"
proof -
  have split: "wp (on_manager (split_vrds r)) (\<lambda>_. same_mappings s) (\<lambda>_. same_mappings s) s"
    if "wf_range r" "r_start r < r_end r" for r
    by (rule on_manager_same_wp [OF same_mappings_refl [OF wf]]) (rule split_vrds_any [OF wf_rsrvD(1) [OF wf] that])
  have body: "wp (seq (map_err (\<lambda>_. ENOMEM) (on_manager (split_vrds r))) (and_then (gets rv_mem) rest))
      (\<lambda>_. same_mappings s) (\<lambda>_. same_mappings s) s"
    if "wf_range r" "r_start r < r_end r"
      "\<And>s1. same_mappings s s1 \<Longrightarrow> wp (rest (rv_mem s1)) (\<lambda>_. same_mappings s) (\<lambda>_. same_mappings s) s1" for r rest
    unfolding wp_seq wp_map_err wp_and_then wp_gets
    by (rule wp_conseq [OF split [OF that(1,2)]]) (rule that(3))
  show ?thesis
    unfolding rsrv_mprotect_def wp_and_then [of "checked_range pf addr sz"]
  proof (rule wp_conseq [OF checked_range_wp], elim conjE, hypsubst)
    fix e and s' :: "'w rsrv"
    assume "s' = s \<and> e = EINVAL"
    then show "same_mappings s s'" using same_mappings_refl [OF wf] by simp
  qed (rule body, assumption, simp, erule mprotect_finish_wp)
qed

section \<open>Sequences of operations\<close>

text \<open>
  One call of the interface with any arguments and any outcome but a panic, or a change of the
  memory or the outside world by other code.
\<close>

inductive rsrv_step :: "'w platform \<Rightarrow> 'w map_ops \<Rightarrow> 'w rsrv \<Rightarrow> 'w rsrv \<Rightarrow> bool"
  for pf :: "'w platform" and ops :: "'w map_ops" where
  step_mmap: "rsrv_mmap pf ops addr sz perm ob s = (x, s') \<Longrightarrow> x \<noteq> Panic \<Longrightarrow> rsrv_step pf ops s s'"
| step_munmap: "rsrv_munmap pf ops addr sz s = (x, s') \<Longrightarrow> x \<noteq> Panic \<Longrightarrow> rsrv_step pf ops s s'"
| step_mprotect: "rsrv_mprotect pf addr sz p s = (x, s') \<Longrightarrow> x \<noteq> Panic \<Longrightarrow> rsrv_step pf ops s s'"
| step_msync: "rsrv_msync pf ops addr sz s = (x, s') \<Longrightarrow> x \<noteq> Panic \<Longrightarrow> rsrv_step pf ops s s'"
| step_other: "rsrv_step pf ops s (s\<lparr>rv_machine := t\<rparr>)"

lemma wp_outcome: "wp m (\<lambda>_. P) (\<lambda>_. P) s \<Longrightarrow> m s = (x, s') \<Longrightarrow> x \<noteq> Panic \<Longrightarrow> P s'"
  by (cases x) (auto simp: wp_def)

lemma rsrv_step_inv:
  assumes "rsrv_step pf ops s s'" "wf_rsrv (rv_mem s)"
  shows "wf_rsrv (rv_mem s') \<and> rsrv_frame (rv_mem s) (rv_mem s')"
  using assms
proof (induction rule: rsrv_step.induct)
  case (step_mmap addr sz perm ob s x s')
  have "wp (rsrv_mmap pf ops addr sz perm ob) (\<lambda>_ s'. wf_rsrv (rv_mem s') \<and> rsrv_frame (rv_mem s) (rv_mem s'))
      (\<lambda>_ s'. wf_rsrv (rv_mem s') \<and> rsrv_frame (rv_mem s) (rv_mem s')) s"
    by (rule wp_conseq [OF rsrv_mmap_wp [OF step_mmap(3)]]) (auto simp: mmap_post_def mmap_fail_def)
  then show ?case by (rule wp_outcome) fact+
next
  case (step_munmap addr sz s x s')
  have "wp (rsrv_munmap pf ops addr sz) (\<lambda>_ s'. wf_rsrv (rv_mem s') \<and> rsrv_frame (rv_mem s) (rv_mem s'))
      (\<lambda>_ s'. wf_rsrv (rv_mem s') \<and> rsrv_frame (rv_mem s) (rv_mem s')) s"
    by (rule wp_conseq [OF rsrv_munmap_wp [OF step_munmap(3)]])
      (use step_munmap(3) in \<open>auto simp: munmap_post_def rsrv_frame_def\<close>)
  then show ?case by (rule wp_outcome) fact+
next
  case (step_mprotect addr sz p s x s')
  from wp_outcome [OF rsrv_mprotect_wp [OF step_mprotect(3)] step_mprotect(1,2)]
  show ?case by (simp add: same_mappings_def)
next
  case (step_msync addr sz s x s')
  from wp_outcome [OF rsrv_msync_wp [OF step_msync(3)] step_msync(1,2)]
  show ?case by (simp add: same_mappings_def)
next
  case (step_other s t)
  then show ?case by (simp add: rsrv_frame_def)
qed

lemma rsrv_reach_inv:
  assumes "(rsrv_step pf ops)\<^sup>*\<^sup>* s s'" "wf_rsrv (rv_mem s)"
  shows "wf_rsrv (rv_mem s') \<and> rsrv_frame (rv_mem s) (rv_mem s')"
  using assms
proof (induction rule: rtranclp_induct)
  case base
  then show ?case by (simp add: rsrv_frame_def)
next
  case (step s1 s2)
  have "wf_rsrv (rv_mem s1)" "rsrv_frame (rv_mem s) (rv_mem s1)" using step by simp_all
  then show ?case using rsrv_step_inv [OF step(2)] by (auto simp: rsrv_frame_def)
qed

lemma pages_of_id_aligned: "is_page_aligned (pages_of_id pf i)"
proof -
  have "(4096 :: nat) dvd USIZE_LIMIT" by (simp add: USIZE_LIMIT_def)
  then have "is_page_aligned (shl_page n)" for n
    by (simp add: page_aligned_dvd shl_page_def SE_PAGE_SHIFT_def dvd_mod)
  then show ?thesis by (simp add: pages_of_id_def page_aligned_dvd split: option.split)
qed

lemma manager_new_wf:
  assumes "manager_new pf base sz perm s = (Ok m, s')" "image_base pf \<le> base" "0 < sz"
  shows "wf_manager m" "m_range m = \<lparr>r_start = base, r_end = base + sz\<rparr>" "m_perm m = perm" "mapped m = {}"
  using assms
  by (auto simp: manager_new_def range_new_def range_new_empty_def area_new_def Ok_iffs range_new_with_size_Ok_iff
      Let_def wf_manager_def vrds_ok_def inner_def guard_low_def guard_high_def wf_range_def mapped_def)

text \<open>A sane layout: the region follows the image, and the part that is there from the start fits in it.\<close>

definition rsrv_layout_ok :: "'w platform \<Rightarrow> bool" where
  "rsrv_layout_ok pf \<longleftrightarrow> image_base pf \<le> rsrvmem_base pf \<and> rsrvmem_min_size pf \<le> rsrvmem_size pf"

lemma rsrv_init_wf:
  assumes "rsrv_init pf s = (Ok rm, s')" "rsrv_layout_ok pf"
  shows "wf_rsrv rm" "mapped (rm_manager rm) = {}"
proof -
  let ?b = "rsrvmem_base pf" and ?n = "rsrvmem_size pf" and ?m = "rsrvmem_min_size pf"
  from assms(1) obtain m perm where init: "?b \<noteq> 0" "?n \<noteq> 0" "manager_new pf ?b ?n perm s = (Ok m, s')"
    and rm: "rm = \<lparr>rm_base = ?b, rm_size = ?n, rm_min_size = ?m, rm_perm = perm, rm_committed_size = 0, rm_manager = m\<rparr>"
    by (auto simp: rsrv_init_def Let_def Ok_iffs)
  have m: "wf_manager m" "m_range m = \<lparr>r_start = ?b, r_end = ?b + ?n\<rparr>" "m_perm m = perm" "mapped m = {}"
    using manager_new_wf [OF init(3)] init(2) assms(2) by (simp_all add: rsrv_layout_ok_def)
  have "?b + ?n < USIZE_LIMIT" using m(1,2) by (simp add: wf_manager_def wf_range_def)
  moreover have "is_page_aligned ?m"
    using pages_of_id_aligned [of pf LAYOUT_ID_RSRV_MIN] by (simp add: rsrvmem_min_size_def page_aligned_dvd)
  ultimately show "wf_rsrv rm" "mapped (rm_manager rm) = {}"
    using m init(1) assms(2) by (simp_all add: rm wf_rsrv_def rsrv_layout_ok_def page_aligned_dvd)
qed

lemma mmap_free_Ok:
  assumes "wf_rsrv (rv_mem s)" "\<forall>b. addr \<noteq> Force b" "rsrv_mmap pf ops addr sz perm ob s = (Ok a, s')"
  shows "wf_rsrv (rv_mem s')" "is_page_aligned a" "\<forall>b. addr = Need b \<longrightarrow> a = b"
    "{a ..< a + round_to_page sz} \<inter> mapped_of s = {}"
    "mapped_of s' = mapped_of s \<union> {a ..< a + round_to_page sz}"
proof -
  have post: "mmap_post addr (round_to_page sz) s a s'" by (rule wp_Ok [OF rsrv_mmap_wp [OF assms(1)] assms(3)])
  then obtain U where "U = mapped_of s" "mapped_of s' = U \<union> {a ..< a + round_to_page sz}"
      "{a ..< a + round_to_page sz} \<inter> U = {}"
    using assms(2) unfolding mmap_post_def by blast
  then show "{a ..< a + round_to_page sz} \<inter> mapped_of s = {}"
    "mapped_of s' = mapped_of s \<union> {a ..< a + round_to_page sz}" by simp_all
  show "wf_rsrv (rv_mem s')" "is_page_aligned a" "\<forall>b. addr = Need b \<longrightarrow> a = b"
    using post by (simp_all add: mmap_post_def)
qed

lemma mmap_free_Err:
  assumes "wf_rsrv (rv_mem s)" "\<forall>b. addr \<noteq> Force b" "rsrv_mmap pf ops addr sz perm ob s = (Err e, s')"
  shows "wf_rsrv (rv_mem s')" "mapped_of s' = mapped_of s"
  using wp_Err [OF rsrv_mmap_wp [OF assms(1)] assms(3)] assms(2) by (simp_all add: mmap_fail_def)

lemma munmap_Ok:
  assumes "wf_rsrv (rv_mem s)" "rsrv_munmap pf ops addr sz s = (Ok u, s')"
  shows "wf_rsrv (rv_mem s')" "mapped_of s' = mapped_of s - {addr ..< addr + round_to_page sz}"
  using wp_Ok [OF rsrv_munmap_wp [OF assms(1)] assms(2)] by (simp_all add: munmap_post_def addrs_def)

lemma munmap_Err:
  assumes "wf_rsrv (rv_mem s)" "rsrv_munmap pf ops addr sz s = (Err e, s')"
  shows "s' = s"
  using wp_Err [OF rsrv_munmap_wp [OF assms(1)] assms(2)] .

text \<open>Applying the permission that the areas already record is idle.\<close>

lemma apply_perm_recorded_idle:
  assumes "\<forall>v \<in> set vs. addrs (a_range v) \<inter> addrs rng \<noteq> {} \<longrightarrow> a_perm v = q \<and> a_object v = None"
  shows "for_each (\<lambda>vrd. and_then (area_intersect vrd rng) (\<lambda>inter. case inter of None \<Rightarrow> ret ()
      | Some v \<Rightarrow> if a_typ v = MT_Reg then seq (apply_perm pf check_perm v q) (ret ()) else ret ())) vs t = (Ok (), t)"
  using assms
proof (induction vs)
  case (Cons v vs)
  have "(case map_option (area_at v) (range_intersect (a_range v) rng) of None \<Rightarrow> ret ()
      | Some v \<Rightarrow> if a_typ v = MT_Reg then seq (apply_perm pf check_perm v q) (ret ()) else ret ()) t = (Ok (), t)"
  proof (cases "range_intersect (a_range v) rng")
    case (Some i)
    then have "addrs (a_range v) \<inter> addrs rng \<noteq> {}" using range_intersect_Some by fastforce
    then have v: "a_perm v = q" "a_object v = None" using Cons.prems by auto
    have "apply_perm pf check_perm (area_at v i) q t = (Ok (area_at v i), t)"
      using apply_perm_same [of check_perm "area_at v i"] v by (simp add: check_perm_def area_at_def)
    then show ?thesis by (simp add: Some seq_def and_then_def ret_def)
  qed (simp add: ret_def)
  then show ?case using Cons by (simp add: area_intersect_ok and_then_def seq_def)
qed (simp add: ret_def)

section \<open>Properties\<close>

text \<open>
  C28: in every state that calls of the interface can reach from initialisation, whatever their
  arguments and outcomes and whatever other code does to the memory in between, the recorded areas
  are in address order, disjoint, page aligned, and inside the part of the region that has been
  committed.
\<close>

theorem rsrv_reachable_areas:
  assumes "rsrv_init pf () = (Ok rm, ())" "rsrv_layout_ok pf" "rv_mem s = rm" "(rsrv_step pf ops)\<^sup>*\<^sup>* s s'"
  shows "wf_rsrv (rv_mem s')
    \<and> sorted_wrt (\<lambda>a b. a_end a \<le> a_start b) (inner (m_vrds (rm_manager (rv_mem s'))))
    \<and> (\<forall>v \<in> set (inner (m_vrds (rm_manager (rv_mem s')))).
         wf_range (a_range v) \<and> a_start v < a_end v \<and> rm_base rm \<le> a_start v
         \<and> a_end v \<le> rm_base rm + rm_committed_size (rv_mem s'))
    \<and> rm_committed_size (rv_mem s') \<le> rm_size rm"
proof -
  have inv: "wf_rsrv (rv_mem s')" "rsrv_frame rm (rv_mem s')"
    using rsrv_reach_inv [OF assms(4)] rsrv_init_wf(1) [OF assms(1,2)] assms(3) by simp_all
  have mid: "mid_ok (m_range (rm_manager (rv_mem s'))) (inner (m_vrds (rm_manager (rv_mem s'))))"
    using wf_rsrvD(1) [OF inv(1)] by (simp add: wf_manager_def vrds_ok_def)
  have "wf_range (a_range v) \<and> a_start v < a_end v \<and> rm_base rm \<le> a_start v
      \<and> a_end v \<le> rm_base rm + rm_committed_size (rv_mem s')"
    if v: "v \<in> set (inner (m_vrds (rm_manager (rv_mem s'))))" for v
  proof -
    have ok: "wf_range (a_range v)" "a_start v < a_end v" using mid_ok_area [OF mid v] by (auto simp: area_ok_def)
    have "addrs (a_range v) \<subseteq> {rm_base rm ..< rm_base rm + rm_committed_size (rv_mem s')}"
      using inv v by (auto simp: wf_rsrv_def rsrv_frame_def mapped_def covered_def)
    then show ?thesis using ok by (simp add: addrs_def ivl_subset)
  qed
  moreover have "rm_committed_size (rv_mem s') \<le> rm_size rm" using inv by (simp add: wf_rsrv_def rsrv_frame_def)
  ultimately show ?thesis using inv(1) mid by (simp add: mid_ok_def)
qed


text \<open>
  C29: a successful \<open>mmap\<close> for any address, a hint or a needed address, but not a forced one, adds one page aligned range of the requested size, rounded up to pages,
  that no other mapping uses; a needed address is where it starts. Every earlier mapping is still
  there. A failing \<open>mmap\<close> of these kinds adds and removes nothing.
\<close>

theorem rsrv_mmap_maps:
  assumes "wf_rsrv (rv_mem s)" "\<forall>b. addr \<noteq> Force b" "rsrv_mmap pf ops addr sz perm ob s = (x, s')"
  shows "case x of
      Ok a \<Rightarrow> wf_rsrv (rv_mem s') \<and> is_page_aligned a \<and> (\<forall>b. addr = Need b \<longrightarrow> a = b)
        \<and> {a ..< a + round_to_page sz} \<inter> mapped_of s = {}
        \<and> mapped_of s' = mapped_of s \<union> {a ..< a + round_to_page sz}
    | Err e \<Rightarrow> wf_rsrv (rv_mem s') \<and> mapped_of s' = mapped_of s
    | Panic \<Rightarrow> True"
proof (cases x)
  case (Ok a)
  show ?thesis using mmap_free_Ok [OF assms(1,2)] assms(3) Ok by simp
next
  case (Err e)
  show ?thesis using mmap_free_Err [OF assms(1,2)] assms(3) Err by simp
qed simp

text \<open>
  C30: a successful \<open>munmap\<close> removes exactly the addresses of its range, rounded up to pages, from
  the mappings, cutting the areas that it meets; a failing one changes nothing at all.
\<close>

theorem rsrv_munmap_unmaps:
  assumes "wf_rsrv (rv_mem s)" "rsrv_munmap pf ops addr sz s = (x, s')"
  shows "case x of
      Ok _ \<Rightarrow> wf_rsrv (rv_mem s') \<and> mapped_of s' = mapped_of s - {addr ..< addr + round_to_page sz}
    | Err e \<Rightarrow> s' = s
    | Panic \<Rightarrow> True"
proof (cases x)
  case (Ok a)
  show ?thesis using munmap_Ok [OF assms(1)] assms(2) Ok by simp
next
  case (Err e)
  show ?thesis using munmap_Err [OF assms(1)] assms(2) Err by simp
qed simp

text \<open>
  C36: changing permissions forgets them. Applying a permission to a range leaves the recorded areas
  as they were, so applying the recorded permission afterwards, to give the old access back, does
  nothing: no instruction and no call to the host, and the pages keep the access of the first change.
\<close>

theorem apply_perm_vrds_not_recorded:
  assumes "apply_perm_vrds pf rng p (m, t) = (x, m', t')"
    and "\<forall>v \<in> set (m_vrds m). addrs (a_range v) \<inter> addrs rng \<noteq> {} \<longrightarrow> a_perm v = q \<and> a_object v = None"
  shows "m' = m \<and> apply_perm_vrds pf rng q (m', t') = (Ok (), m', t')"
proof -
  have m': "m' = m" using apply_perm_vrds_manager [OF assms(1)] .
  have "\<forall>v \<in> set (takeWhile (\<lambda>vrd. \<not> a_start vrd \<ge> r_end rng) (m_vrds m)).
      addrs (a_range v) \<inter> addrs rng \<noteq> {} \<longrightarrow> a_perm v = q \<and> a_object v = None"
    using assms(2) set_takeWhileD by fastforce
  from apply_perm_recorded_idle [OF this]
  show ?thesis by (simp add: m' apply_perm_vrds_def get_vrds_def on_machine_iff)
qed

section \<open>A concrete region\<close>

definition demo_rsrv :: "log_event list rsrv" where
  "demo_rsrv =
     \<lparr>rv_mem = \<lparr>rm_base = 0x14000, rm_size = 0x8000, rm_min_size = 0x2000, rm_perm = MP_RW,
                rm_committed_size = 0x3000, rm_manager = demo_manager\<rparr>,
      rv_peak = 0x3000, rv_machine = demo_machine\<rparr>"

lemma demo_rsrv_wf: "wf_rsrv (rv_mem demo_rsrv)"
  using demo_manager_wf
  by (simp add: demo_rsrv_def wf_rsrv_def is_page_aligned_iff USIZE_LIMIT_def) (simp add: demo_defs)

lemma demo_mapped: "mapped_of demo_rsrv = {0x16000 ..< 0x17000}"
  by (simp add: demo_rsrv_def demo_manager_wf)

theorem rsrv_mmap_maps_witness:
  "case rsrv_mmap (demo_platform True) demo_ops (Need 0x15000) 0x800 None None demo_rsrv of (x, s') \<Rightarrow>
     x = Ok 0x15000 \<and> mapped_of s' = {0x15000 ..< 0x17000}"
proof -
  obtain x s' where run: "rsrv_mmap (demo_platform True) demo_ops (Need 0x15000) 0x800 None None demo_rsrv = (x, s')"
    by (cases "rsrv_mmap (demo_platform True) demo_ops (Need 0x15000) 0x800 None None demo_rsrv")
  moreover have "fst (rsrv_mmap (demo_platform True) demo_ops (Need 0x15000) 0x800 None None demo_rsrv) = Ok 0x15000"
    by code_simp
  ultimately have x: "x = Ok 0x15000" by simp
  have "round_to_page 0x800 = 0x1000" by code_simp
  then have "mapped_of s' = {0x16000 ..< 0x17000} \<union> {0x15000 ..< 0x16000}"
    using rsrv_mmap_maps [OF demo_rsrv_wf _ run] by (simp add: x demo_mapped)
  also have "\<dots> = {0x15000 ..< 0x17000}" by auto
  finally show ?thesis by (simp add: run x)
qed

theorem rsrv_munmap_unmaps_witness:
  "case rsrv_munmap (demo_platform True) demo_ops 0x16000 0x800 demo_rsrv of (x, s') \<Rightarrow> x = Ok () \<and> mapped_of s' = {}"
proof -
  obtain x s' where run: "rsrv_munmap (demo_platform True) demo_ops 0x16000 0x800 demo_rsrv = (x, s')"
    by (cases "rsrv_munmap (demo_platform True) demo_ops 0x16000 0x800 demo_rsrv")
  moreover have "fst (rsrv_munmap (demo_platform True) demo_ops 0x16000 0x800 demo_rsrv) = Ok ()" by code_simp
  ultimately have x: "x = Ok ()" by simp
  have "round_to_page 0x800 = 0x1000" by code_simp
  then have "mapped_of s' = {}" using rsrv_munmap_unmaps [OF demo_rsrv_wf run] by (simp add: x demo_mapped)
  then show ?thesis by (simp add: run x)
qed

lemma demo_layout_ok: "rsrv_layout_ok (demo_platform True)"
  by code_simp

theorem rsrv_reachable_areas_witness:
  "\<exists>rm s s'. rsrv_init (demo_platform True) () = (Ok rm, ()) \<and> rv_mem s = rm
     \<and> (rsrv_step (demo_platform True) demo_ops)\<^sup>*\<^sup>* s s' \<and> wf_rsrv (rv_mem s')
     \<and> rm_committed_size (rv_mem s') \<le> rm_size rm"
proof -
  let ?s = "\<lambda>rm. \<lparr>rv_mem = rm, rv_peak = 0, rv_machine = demo_machine\<rparr>"
  have "case rsrv_init (demo_platform True) () of (Ok rm, _) \<Rightarrow>
      fst (rsrv_mmap (demo_platform True) demo_ops Any 0x800 None None (?s rm)) \<noteq> Panic | _ \<Rightarrow> False"
    by code_simp
  then obtain rm where rm: "rsrv_init (demo_platform True) () = (Ok rm, ())"
      "fst (rsrv_mmap (demo_platform True) demo_ops Any 0x800 None None (?s rm)) \<noteq> Panic"
    by (auto split: prod.splits res.splits)
  obtain x s' where "rsrv_mmap (demo_platform True) demo_ops Any 0x800 None None (?s rm) = (x, s')"
    by (cases "rsrv_mmap (demo_platform True) demo_ops Any 0x800 None None (?s rm)")
  then have "(rsrv_step (demo_platform True) demo_ops)\<^sup>*\<^sup>* (?s rm) s'"
    using rm(2) by (intro r_into_rtranclp rsrv_step.step_mmap) simp_all
  from rsrv_reachable_areas [OF rm(1) demo_layout_ok _ this] this rm(1) show ?thesis
    by (intro exI [of _ rm] exI [of _ "?s rm"] exI [of _ s']) simp
qed

theorem apply_perm_vrds_not_recorded_witness:
  "case apply_perm_vrds (demo_platform True) \<lparr>r_start = 0x16000, r_end = 0x17000\<rparr> MP_R (demo_manager, demo_machine) of
     (x, m', t') \<Rightarrow> x = Ok () \<and> outside t' \<noteq> []
       \<and> apply_perm_vrds (demo_platform True) \<lparr>r_start = 0x16000, r_end = 0x17000\<rparr> MP_RW (m', t') = (Ok (), m', t')"
proof -
  let ?f = "apply_perm_vrds (demo_platform True) \<lparr>r_start = 0x16000, r_end = 0x17000\<rparr>"
  obtain x m' t' where run: "?f MP_R (demo_manager, demo_machine) = (x, m', t')"
    by (cases "?f MP_R (demo_manager, demo_machine)")
  have "\<forall>v \<in> set (m_vrds demo_manager). addrs (a_range v) \<inter> addrs \<lparr>r_start = 0x16000, r_end = 0x17000\<rparr> \<noteq> {} \<longrightarrow>
      a_perm v = MP_RW \<and> a_object v = None"
    by (simp add: demo_defs addrs_def)
  moreover have "case ?f MP_R (demo_manager, demo_machine) of (x, m', t') \<Rightarrow> x = Ok () \<and> outside t' \<noteq> []"
    by code_simp
  ultimately show ?thesis using apply_perm_vrds_not_recorded [OF run] by (simp add: run)
qed

end
