(* ===== verification/Aes_Gcm.thy ===== *)
theory Aes_Gcm
  imports Status
begin

text \<open>
  AES-GCM, \<open>sgx_crypto/src/aes/gcm.rs\<close>, and the CMAC of \<open>sgx_crypto/src/mac/cmac.rs\<close> as the protected file
  system uses them. The C functions they call are the parameter \<open>crypto_sys\<close>; a message authentication code
  and the output buffer come back with the status. \<open>gcm_correct\<close> is what the documentation of the
  functions promises: decryption inverts encryption and outputs are as long as inputs.
\<close>

type_synonym key128 = "byte list"
type_synonym mac128 = "byte list"

definition I32_MAX :: nat where
  "I32_MAX = 0x7FFFFFFF"

definition AESGCM_IV_SIZE :: nat where
  "AESGCM_IV_SIZE = 12"

record crypto_sys =
  rijndael128GCM_encrypt :: "key128 \<Rightarrow> byte list \<Rightarrow> byte list \<Rightarrow> byte list \<Rightarrow> SgxStatus \<times> byte list \<times> mac128"
  rijndael128GCM_decrypt :: "key128 \<Rightarrow> byte list \<Rightarrow> byte list \<Rightarrow> byte list \<Rightarrow> mac128 \<Rightarrow> SgxStatus \<times> byte list"
  rijndael128_cmac_msg :: "key128 \<Rightarrow> byte list \<Rightarrow> SgxStatus \<times> mac128"

record AesGcm =
  gcm_key :: key128
  gcm_iv :: "byte list"
  gcm_aad :: "byte list"

definition nonce_zeroed :: "byte list" where
  "nonce_zeroed = replicate AESGCM_IV_SIZE 0"

definition gcm_new :: "key128 \<Rightarrow> byte list \<Rightarrow> byte list \<Rightarrow> (SgxStatus, AesGcm) res" where
  "gcm_new key iv aad =
     (if length aad < I32_MAX then Ok \<lparr>gcm_key = key, gcm_iv = iv, gcm_aad = aad\<rparr>
      else Err Sgx_InvalidParameter)"

text \<open>An operation on an output buffer returns its result and what is in the buffer afterwards.\<close>

definition gcm_encrypt ::
    "crypto_sys \<Rightarrow> AesGcm \<Rightarrow> byte list \<Rightarrow> byte list \<Rightarrow> (SgxStatus, mac128) res \<times> byte list" where
  "gcm_encrypt c aes src dst =
     (if \<not> length src < I32_MAX then (Err Sgx_InvalidParameter, dst)
      else if length src \<noteq> length dst then (Err Sgx_InvalidParameter, dst)
      else case rijndael128GCM_encrypt c (gcm_key aes) src (gcm_iv aes) (gcm_aad aes) of
        (status, dst', mac) \<Rightarrow> (if sgx_is_success status then Ok mac else Err status, dst'))"

definition gcm_encrypt_in_place ::
    "crypto_sys \<Rightarrow> AesGcm \<Rightarrow> byte list \<Rightarrow> (SgxStatus, mac128) res \<times> byte list" where
  "gcm_encrypt_in_place c aes in_out =
     (case gcm_encrypt c aes in_out (replicate (length in_out) 0) of
        (Ok mac, dst) \<Rightarrow> (Ok mac, dst)
      | (r, dst) \<Rightarrow> (r, in_out))"

definition gcm_decrypt ::
    "crypto_sys \<Rightarrow> AesGcm \<Rightarrow> byte list \<Rightarrow> byte list \<Rightarrow> mac128 \<Rightarrow> (SgxStatus, unit) res \<times> byte list" where
  "gcm_decrypt c aes src dst mac =
     (if \<not> length src < I32_MAX then (Err Sgx_InvalidParameter, dst)
      else if length src \<noteq> length dst then (Err Sgx_InvalidParameter, dst)
      else case rijndael128GCM_decrypt c (gcm_key aes) src (gcm_iv aes) (gcm_aad aes) mac of
        (status, dst') \<Rightarrow> (if sgx_is_success status then Ok () else Err status, dst'))"

definition gcm_decrypt_in_place ::
    "crypto_sys \<Rightarrow> AesGcm \<Rightarrow> byte list \<Rightarrow> mac128 \<Rightarrow> (SgxStatus, unit) res \<times> byte list" where
  "gcm_decrypt_in_place c aes in_out mac =
     (case gcm_decrypt c aes in_out (replicate (length in_out) 0) mac of
        (Ok u, dst) \<Rightarrow> (Ok u, dst)
      | (r, dst) \<Rightarrow> (r, in_out))"

definition gcm_mac :: "crypto_sys \<Rightarrow> AesGcm \<Rightarrow> (SgxStatus, mac128) res" where
  "gcm_mac c aes =
     (if gcm_aad aes = [] then Err Sgx_InvalidParameter
      else case rijndael128GCM_encrypt c (gcm_key aes) [] (gcm_iv aes) (gcm_aad aes) of
        (status, _, mac) \<Rightarrow> if sgx_is_success status then Ok mac else Err status)"

definition gcm_verify_mac :: "crypto_sys \<Rightarrow> AesGcm \<Rightarrow> mac128 \<Rightarrow> (SgxStatus, unit) res" where
  "gcm_verify_mac c aes mac =
     (if gcm_aad aes = [] then Err Sgx_InvalidParameter
      else case rijndael128GCM_decrypt c (gcm_key aes) [] (gcm_iv aes) (gcm_aad aes) mac of
        (status, _) \<Rightarrow> if sgx_is_success status then Ok () else Err status)"

definition cmac :: "crypto_sys \<Rightarrow> key128 \<Rightarrow> byte list \<Rightarrow> (SgxStatus, mac128) res" where
  "cmac c key data =
     (if \<not> (0 < length data \<and> length data < I32_MAX) then Err Sgx_InvalidParameter
      else case rijndael128_cmac_msg c key data of
        (status, mac) \<Rightarrow> if sgx_is_success status then Ok mac else Err status)"

section \<open>What the C functions promise\<close>

definition gcm_correct :: "crypto_sys \<Rightarrow> bool" where
  "gcm_correct c \<longleftrightarrow> (\<forall>key src iv aad dst mac.
     rijndael128GCM_encrypt c key src iv aad = (Sgx_Success, dst, mac) \<longrightarrow>
       length dst = length src \<and> length mac = 16 \<and> rijndael128GCM_decrypt c key dst iv aad mac = (Sgx_Success, src))"

lemma gcm_correctD:
  assumes "gcm_correct c" "rijndael128GCM_encrypt c key src iv aad = (Sgx_Success, dst, mac)"
  shows "length dst = length src" "length mac = 16" "rijndael128GCM_decrypt c key dst iv aad mac = (Sgx_Success, src)"
  using assms unfolding gcm_correct_def by blast+

text \<open>Outputs are as long as the buffers they are written to, whatever the status.\<close>

definition crypto_ok :: "crypto_sys \<Rightarrow> bool" where
  "crypto_ok c \<longleftrightarrow>
     (\<forall>key src iv aad. case rijndael128GCM_encrypt c key src iv aad of (_, dst, mac) \<Rightarrow> length dst = length src \<and> length mac = 16)
   \<and> (\<forall>key src iv aad mac. case rijndael128GCM_decrypt c key src iv aad mac of (_, dst) \<Rightarrow> length dst = length src)
   \<and> (\<forall>key data. length (snd (rijndael128_cmac_msg c key data)) = 16)"

lemma crypto_okD:
  assumes "crypto_ok c"
  shows "rijndael128GCM_encrypt c key src iv aad = (st, dst, mac) \<Longrightarrow> length dst = length src \<and> length mac = 16"
    "rijndael128GCM_decrypt c key src iv aad mac = (st, dst) \<Longrightarrow> length dst = length src"
    "rijndael128_cmac_msg c key data = (st, mac) \<Longrightarrow> length mac = 16"
proof -
  have e: "case rijndael128GCM_encrypt c key src iv aad of (_, dst, mac) \<Rightarrow> length dst = length src \<and> length mac = 16"
    and d: "case rijndael128GCM_decrypt c key src iv aad mac of (_, dst) \<Rightarrow> length dst = length src"
    and m: "length (snd (rijndael128_cmac_msg c key data)) = 16"
    using assms by (simp_all add: crypto_ok_def)
  show "rijndael128GCM_encrypt c key src iv aad = (st, dst, mac) \<Longrightarrow> length dst = length src \<and> length mac = 16"
    "rijndael128GCM_decrypt c key src iv aad mac = (st, dst) \<Longrightarrow> length dst = length src"
    "rijndael128_cmac_msg c key data = (st, mac) \<Longrightarrow> length mac = 16"
    using e d m by simp_all
qed

lemma gcm_ops_total:
  assumes "crypto_ok c"
  shows "gcm_encrypt c aes src dst = (r, d) \<Longrightarrow> length dst = length src \<Longrightarrow>
      length d = length src \<and> r \<noteq> Panic \<and> (\<forall>mac. r = Ok mac \<longrightarrow> length mac = 16)"
    "gcm_decrypt c aes src dst mac = (r', d) \<Longrightarrow> length dst = length src \<Longrightarrow> length d = length src \<and> r' \<noteq> Panic"
    "gcm_mac c aes \<noteq> Panic" "gcm_mac c aes = Ok mac \<Longrightarrow> length mac = 16" "gcm_verify_mac c aes mac \<noteq> Panic"
  using crypto_okD [OF assms]
  by (force simp: gcm_encrypt_def gcm_decrypt_def gcm_mac_def gcm_verify_mac_def split: if_splits prod.splits)+

lemma gcm_new_total: "gcm_new key iv aad \<noteq> Panic"
  by (simp add: gcm_new_def)

text \<open>
  What AES-GCM encrypts in place it decrypts in place under the same key, nonce and associated data, and a
  code computed over associated data alone verifies.
\<close>

lemma gcm_in_place_roundtrip:
  assumes "gcm_correct c" "gcm_new key iv aad = Ok aes"
  shows "(gcm_encrypt_in_place c aes src = (Ok mac, dst) \<longrightarrow> gcm_decrypt_in_place c aes dst mac = (Ok (), src))
    \<and> (gcm_mac c aes = Ok mac \<longrightarrow> gcm_verify_mac c aes mac = Ok ())"
proof (intro conjI impI)
  assume enc: "gcm_encrypt_in_place c aes src = (Ok mac, dst)"
  then have "length src < I32_MAX"
      "rijndael128GCM_encrypt c (gcm_key aes) src (gcm_iv aes) (gcm_aad aes) = (Sgx_Success, dst, mac)"
    by (auto simp: gcm_encrypt_in_place_def gcm_encrypt_def sgx_is_success_def
        split: prod.splits res.splits if_splits)
  with gcm_correctD [OF assms(1) this(2)] show "gcm_decrypt_in_place c aes dst mac = (Ok (), src)"
    by (simp add: gcm_decrypt_in_place_def gcm_decrypt_def sgx_is_success_def)
next
  assume "gcm_mac c aes = Ok mac"
  then obtain dst where "gcm_aad aes \<noteq> []"
      "rijndael128GCM_encrypt c (gcm_key aes) [] (gcm_iv aes) (gcm_aad aes) = (Sgx_Success, dst, mac)"
    by (auto simp: gcm_mac_def sgx_is_success_def split: if_splits prod.splits)
  with gcm_correctD [OF assms(1) this(2)] show "gcm_verify_mac c aes mac = Ok ()"
    by (simp add: gcm_verify_mac_def sgx_is_success_def)
qed

text \<open>
  A cipher that satisfies the contract: the plain text itself, with a code that depends on key and
  data.
\<close>

definition demo_mac :: "key128 \<Rightarrow> byte list \<Rightarrow> byte list \<Rightarrow> mac128" where
  "demo_mac key src aad = (sum_list key + sum_list src + sum_list aad) # replicate 15 0"

definition demo_crypto :: crypto_sys where
  "demo_crypto =
     \<lparr>rijndael128GCM_encrypt = (\<lambda>key src iv aad. (Sgx_Success, src, demo_mac key src aad)),
      rijndael128GCM_decrypt = (\<lambda>key src iv aad mac.
        (if mac = demo_mac key src aad then Sgx_Success else Sgx_MacMismatch, src)),
      rijndael128_cmac_msg = (\<lambda>key data. (Sgx_Success, demo_mac key data []))\<rparr>"

lemma demo_crypto_correct: "gcm_correct demo_crypto"
  by (simp add: gcm_correct_def demo_crypto_def demo_mac_def)

end
