(* ===== verification/Loops.thy ===== *)
theory Loops
  imports Prelude
begin

text \<open>
  Computations that may not return. A \<open>prog\<close> yields \<open>None\<close> when its loops run forever, and the outcome of
  a \<open>rust\<close> computation otherwise, so that loops without a bound are written with
  \<open>partial_function (option)\<close>. \<open>twp\<close> and \<open>pwp\<close> are total: they exclude panics and, for a \<open>prog\<close>,
  loops that do not end. \<open>gwp T\<close> excludes panics, and loops that do not end when \<open>T\<close> holds, so that safety
  and termination share their proofs.
\<close>

named_theorems twp \<open>total weakest preconditions of the combinators\<close>
named_theorems gwp \<open>weakest preconditions under a condition for termination\<close>
named_theorems pwp \<open>total weakest preconditions of computations that may not return\<close>

type_synonym ('s, 'e, 'a) prog = "'s \<Rightarrow> (('e, 'a) res \<times> 's) option"

definition returns :: "('s, 'e, 'a) rust \<Rightarrow> ('s, 'e, 'a) prog" where
  "returns m s = Some (m s)"

definition p_then :: "('s, 'e, 'a) prog \<Rightarrow> ('a \<Rightarrow> ('s, 'e, 'b) prog) \<Rightarrow> ('s, 'e, 'b) prog" where
  "p_then m f s =
     (case m s of
        None \<Rightarrow> None
      | Some (Ok a, s') \<Rightarrow> f a s'
      | Some (Err e, s') \<Rightarrow> Some (Err e, s')
      | Some (Panic, s') \<Rightarrow> Some (Panic, s'))"

definition p_seq :: "('s, 'e, 'a) prog \<Rightarrow> ('s, 'e, 'b) prog \<Rightarrow> ('s, 'e, 'b) prog" where
  "p_seq m n = p_then m (\<lambda>_. n)"

definition p_attempt :: "('s, 'e, 'a) prog \<Rightarrow> ('s, 'f, 'e + 'a) prog" where
  "p_attempt m s =
     (case m s of
        None \<Rightarrow> None
      | Some (Ok a, s') \<Rightarrow> Some (Ok (Inr a), s')
      | Some (Err e, s') \<Rightarrow> Some (Ok (Inl e), s')
      | Some (Panic, s') \<Rightarrow> Some (Panic, s'))"

text \<open>\<open>m.map_err(|e| { h(e); e })\<close>: \<open>h\<close> runs on the state an error leaves, the error is kept.\<close>

definition on_err :: "('e \<Rightarrow> ('s, 'e, unit) rust) \<Rightarrow> ('s, 'e, 'a) rust \<Rightarrow> ('s, 'e, 'a) rust" where
  "on_err h m = and_then (attempt m) (\<lambda>r. case r of Inl e \<Rightarrow> seq (h e) (bail e) | Inr a \<Rightarrow> ret a)"

definition p_on_err :: "('e \<Rightarrow> ('s, 'e, unit) rust) \<Rightarrow> ('s, 'e, 'a) prog \<Rightarrow> ('s, 'e, 'a) prog" where
  "p_on_err h m = p_then (p_attempt m) (\<lambda>r. returns (case r of Inl e \<Rightarrow> seq (h e) (bail e) | Inr a \<Rightarrow> ret a))"

fun p_for_each :: "('a \<Rightarrow> ('s, 'e, unit) prog) \<Rightarrow> 'a list \<Rightarrow> ('s, 'e, unit) prog" where
  "p_for_each f [] = returns (ret ())"
| "p_for_each f (x # xs) = p_then (f x) (\<lambda>_. p_for_each f xs)"

lemma p_then_mono [partial_function_mono]:
  assumes "\<And>s. mono_option (\<lambda>f. B f s)" "\<And>a s. mono_option (\<lambda>f. C a f s)"
  shows "mono_option (\<lambda>f. p_then (B f) (\<lambda>a. C a f) s)"
proof -
  let ?C = "\<lambda>x f. case x of (r, s') \<Rightarrow> (case r of
      Ok a \<Rightarrow> C a f s' | Err e \<Rightarrow> Some (Err e, s') | Panic \<Rightarrow> Some (Panic, s'))"
  have "(\<lambda>f. p_then (B f) (\<lambda>a. C a f) s) = (\<lambda>f. Option.bind (B f s) (\<lambda>x. ?C x f))"
    by (auto simp: fun_eq_iff p_then_def split: option.splits prod.splits res.splits)
  moreover have "mono_option (?C x)" for x
  proof (cases x)
    case (Pair r s')
    show ?thesis using assms(2) by (cases r) (simp_all add: Pair option.const_mono)
  qed
  ultimately show ?thesis using bind_mono [OF assms(1), of ?C] by (simp only:)
qed

lemma p_seq_mono [partial_function_mono]:
  assumes "\<And>s. mono_option (\<lambda>f. B f s)" "\<And>s. mono_option (\<lambda>f. C f s)"
  shows "mono_option (\<lambda>f. p_seq (B f) (C f) s)"
  unfolding p_seq_def by (rule p_then_mono [OF assms])

lemma p_if_mono [partial_function_mono]:
  assumes "mono_option (\<lambda>f. B f s)" "mono_option (\<lambda>f. C f s)"
  shows "mono_option (\<lambda>f. (if c then B f else C f) s)"
  using assms by (cases c) simp_all

lemmas prog_defs = returns_def p_then_def p_seq_def p_attempt_def on_err_def p_on_err_def

lemma p_then_returns [simp]: "p_then (returns (ret a)) f = f a"
  by (simp add: fun_eq_iff prog_defs ret_def)

lemma p_then_gets [simp]: "p_then (returns (gets f)) g s = g (f s) s"
  by (simp add: prog_defs gets_def)

lemma p_then_modify [simp]:
  "p_then (returns (modify f)) g s = g () (f s)" "p_seq (returns (modify f)) n s = n (f s)"
  by (simp_all add: prog_defs modify_def)

section \<open>Total weakest preconditions\<close>

definition twp :: "('s, 'e, 'a) rust \<Rightarrow> ('a \<Rightarrow> 's \<Rightarrow> bool) \<Rightarrow> ('e \<Rightarrow> 's \<Rightarrow> bool) \<Rightarrow> 's \<Rightarrow> bool" where
  "twp m P Q s = (case m s of (Ok a, s') \<Rightarrow> P a s' | (Err e, s') \<Rightarrow> Q e s' | (Panic, s') \<Rightarrow> False)"

definition pwp :: "('s, 'e, 'a) prog \<Rightarrow> ('a \<Rightarrow> 's \<Rightarrow> bool) \<Rightarrow> ('e \<Rightarrow> 's \<Rightarrow> bool) \<Rightarrow> 's \<Rightarrow> bool" where
  "pwp m P Q s = (case m s of
     None \<Rightarrow> False | Some (Ok a, s') \<Rightarrow> P a s' | Some (Err e, s') \<Rightarrow> Q e s' | Some (Panic, s') \<Rightarrow> False)"

lemma twp_conseq:
  assumes "twp m P Q s" "\<And>a s'. P a s' \<Longrightarrow> P' a s'" "\<And>e s'. Q e s' \<Longrightarrow> Q' e s'"
  shows "twp m P' Q' s"
  using assms by (auto simp: twp_def split: prod.splits res.splits)

lemma pwp_conseq:
  assumes "pwp m P Q s" "\<And>a s'. P a s' \<Longrightarrow> P' a s'" "\<And>e s'. Q e s' \<Longrightarrow> Q' e s'"
  shows "pwp m P' Q' s"
  using assms by (auto simp: pwp_def split: option.splits prod.splits res.splits)

lemma pwpE:
  assumes "pwp m P Q s"
  obtains a s' where "m s = Some (Ok a, s')" "P a s'" | e s' where "m s = Some (Err e, s')" "Q e s'"
  using assms by (auto simp: pwp_def split: option.splits prod.splits res.splits)

lemma twpE:
  assumes "twp m P Q s"
  obtains a s' where "m s = (Ok a, s')" "P a s'" | e s' where "m s = (Err e, s')" "Q e s'"
  using assms by (auto simp: twp_def split: prod.splits res.splits)

lemma twp_ret [twp]: "twp (ret a) P Q s \<longleftrightarrow> P a s"
  by (simp add: twp_def rust_defs)

lemma twp_bail [twp]: "twp (bail e) P Q s \<longleftrightarrow> Q e s"
  by (simp add: twp_def rust_defs)

lemma twp_panic [twp]: "twp panic P Q s \<longleftrightarrow> False"
  by (simp add: twp_def rust_defs)

lemma twp_and_then [twp]: "twp (and_then m f) P Q s \<longleftrightarrow> twp m (\<lambda>a. twp (f a) P Q) Q s"
  by (auto simp: twp_def rust_defs split: prod.splits res.splits)

lemma twp_seq [twp]: "twp (seq m n) P Q s \<longleftrightarrow> twp m (\<lambda>_. twp n P Q) Q s"
  by (simp add: seq_def twp_and_then)

lemma twp_ensure [twp]: "twp (ensure b e) P Q s \<longleftrightarrow> (if b then P () s else Q e s)"
  by (simp add: twp_def rust_defs)

lemma twp_rassert [twp]: "twp (rassert b) P Q s \<longleftrightarrow> b \<and> P () s"
  by (simp add: twp_def rust_defs)

lemma twp_gets [twp]: "twp (gets f) P Q s \<longleftrightarrow> P (f s) s"
  by (simp add: twp_def rust_defs)

lemma twp_modify [twp]: "twp (modify g) P Q s \<longleftrightarrow> P () (g s)"
  by (simp add: twp_def rust_defs)

lemma twp_attempt [twp]: "twp (attempt m) P Q s \<longleftrightarrow> twp m (\<lambda>a. P (Inr a)) (\<lambda>e. P (Inl e)) s"
  by (auto simp: twp_def rust_defs split: prod.splits res.splits)

lemma twp_map_err [twp]: "twp (map_err h m) P Q s \<longleftrightarrow> twp m P (\<lambda>e. Q (h e)) s"
  by (auto simp: twp_def rust_defs split: prod.splits res.splits)

lemma twp_ok_or [twp]: "twp (ok_or x e) P Q s \<longleftrightarrow> (case x of Some a \<Rightarrow> P a s | None \<Rightarrow> Q e s)"
  by (auto simp: twp_def rust_defs split: option.splits)

lemma twp_zoom [twp]: "twp (zoom g p m) P Q s \<longleftrightarrow> twp m (\<lambda>a t. P a (p t s)) (\<lambda>e t. Q e (p t s)) (g s)"
  by (auto simp: twp_def rust_defs split: prod.splits res.splits)

lemma twp_on_err [twp]: "twp (on_err h m) P Q s \<longleftrightarrow> twp m P (\<lambda>e. twp (h e) (\<lambda>_. Q e) Q) s"
proof -
  have "(\<lambda>r. twp (case r of Inl e \<Rightarrow> seq (h e) (bail e) | Inr a \<Rightarrow> ret a) P Q)
      = case_sum (\<lambda>e. twp (h e) (\<lambda>_. Q e) Q) (\<lambda>a. P a)"
    by (auto simp: fun_eq_iff twp split: sum.splits elim!: twp_conseq)
  then show ?thesis by (simp add: on_err_def twp_and_then twp_attempt)
qed

lemma twp_if [twp]: "twp (if b then m else n) P Q s \<longleftrightarrow> (if b then twp m P Q s else twp n P Q s)"
  by simp

lemma twp_for_each:
  assumes "I s" "\<And>x t. x \<in> set xs \<Longrightarrow> I t \<Longrightarrow> twp (f x) (\<lambda>_. I) Q t"
  shows "twp (for_each f xs) (\<lambda>_. I) Q s"
  using assms
proof (induction xs arbitrary: s)
  case (Cons x xs)
  have "twp (f x) (\<lambda>_. I) Q s" using Cons.prems by simp
  then show ?case
    unfolding for_each.simps twp_and_then by (rule twp_conseq) (simp_all add: Cons.IH Cons.prems(2))
qed (simp add: twp)

lemma pwp_returns [pwp]: "pwp (returns m) P Q s \<longleftrightarrow> twp m P Q s"
  by (simp add: pwp_def twp_def returns_def)

lemma pwp_then [pwp]: "pwp (p_then m f) P Q s \<longleftrightarrow> pwp m (\<lambda>a. pwp (f a) P Q) Q s"
  by (auto simp: pwp_def p_then_def split: option.splits prod.splits res.splits)

lemma pwp_seq [pwp]: "pwp (p_seq m n) P Q s \<longleftrightarrow> pwp m (\<lambda>_. pwp n P Q) Q s"
  by (simp add: p_seq_def pwp_then)

lemma pwp_attempt [pwp]: "pwp (p_attempt m) P Q s \<longleftrightarrow> pwp m (\<lambda>a. P (Inr a)) (\<lambda>e. P (Inl e)) s"
  by (auto simp: pwp_def p_attempt_def split: option.splits prod.splits res.splits)

lemma pwp_on_err [pwp]: "pwp (p_on_err h m) P Q s \<longleftrightarrow> pwp m P (\<lambda>e. twp (h e) (\<lambda>_. Q e) Q) s"
proof -
  have "(\<lambda>r. pwp (returns (case r of Inl e \<Rightarrow> seq (h e) (bail e) | Inr a \<Rightarrow> ret a)) P Q)
      = case_sum (\<lambda>e. twp (h e) (\<lambda>_. Q e) Q) (\<lambda>a. P a)"
    by (auto simp: fun_eq_iff twp pwp split: sum.splits elim!: twp_conseq)
  then show ?thesis by (simp add: p_on_err_def pwp_then pwp_attempt)
qed

lemma pwp_for_each:
  assumes "I s" "\<And>x t. x \<in> set xs \<Longrightarrow> I t \<Longrightarrow> pwp (f x) (\<lambda>_. I) Q t"
  shows "pwp (p_for_each f xs) (\<lambda>_. I) Q s"
  using assms
proof (induction xs arbitrary: s)
  case (Cons x xs)
  have "pwp (f x) (\<lambda>_. I) Q s" using Cons.prems by simp
  then show ?case
    unfolding p_for_each.simps pwp_then by (rule pwp_conseq) (simp_all add: Cons.IH Cons.prems(2))
qed (simp add: pwp twp)

section \<open>Safety, and termination under a condition\<close>

definition gwp :: "bool \<Rightarrow> ('s, 'e, 'a) prog \<Rightarrow> ('a \<Rightarrow> 's \<Rightarrow> bool) \<Rightarrow> ('e \<Rightarrow> 's \<Rightarrow> bool) \<Rightarrow> 's \<Rightarrow> bool" where
  "gwp T m P Q s = (case m s of
     None \<Rightarrow> \<not> T | Some (Ok a, s') \<Rightarrow> P a s' | Some (Err e, s') \<Rightarrow> Q e s' | Some (Panic, s') \<Rightarrow> False)"

lemma gwp_True: "gwp True m P Q s \<longleftrightarrow> pwp m P Q s"
  by (simp add: pwp_def gwp_def split: option.splits)

lemma gwp_iff: "gwp T m P Q s \<longleftrightarrow> gwp False m P Q s \<and> (T \<longrightarrow> m s \<noteq> None)"
  by (auto simp: gwp_def split: option.splits)

lemma gwp_conseq:
  assumes "gwp T m P Q s" "\<And>a s'. P a s' \<Longrightarrow> P' a s'" "\<And>e s'. Q e s' \<Longrightarrow> Q' e s'"
  shows "gwp T m P' Q' s"
  using assms by (auto simp: gwp_def split: option.splits prod.splits res.splits)

lemma pwp_gwp:
  assumes "pwp m P Q s" "\<And>a s'. P a s' \<Longrightarrow> P' a s'" "\<And>e s'. Q e s' \<Longrightarrow> Q' e s'"
  shows "gwp T m P' Q' s"
  using assms by (auto simp: pwp_def gwp_def split: option.splits prod.splits res.splits)

lemma gwp_returns [gwp]: "gwp T (returns m) P Q s \<longleftrightarrow> twp m P Q s"
  by (simp add: gwp_def twp_def returns_def)

lemma gwp_then [gwp]: "gwp T (p_then m f) P Q s \<longleftrightarrow> gwp T m (\<lambda>a. gwp T (f a) P Q) Q s"
  by (auto simp: gwp_def p_then_def split: option.splits prod.splits res.splits)

lemma gwp_seq [gwp]: "gwp T (p_seq m n) P Q s \<longleftrightarrow> gwp T m (\<lambda>_. gwp T n P Q) Q s"
  by (simp add: p_seq_def gwp_then)

lemma gwp_attempt [gwp]: "gwp T (p_attempt m) P Q s \<longleftrightarrow> gwp T m (\<lambda>a. P (Inr a)) (\<lambda>e. P (Inl e)) s"
  by (auto simp: gwp_def p_attempt_def split: option.splits prod.splits res.splits)

lemma gwp_on_err [gwp]: "gwp T (p_on_err h m) P Q s \<longleftrightarrow> gwp T m P (\<lambda>e. twp (h e) (\<lambda>_. Q e) Q) s"
proof -
  have "(\<lambda>r. gwp T (returns (case r of Inl e \<Rightarrow> seq (h e) (bail e) | Inr a \<Rightarrow> ret a)) P Q)
      = case_sum (\<lambda>e. twp (h e) (\<lambda>_. Q e) Q) (\<lambda>a. P a)"
    by (auto simp: fun_eq_iff twp gwp split: sum.splits elim!: twp_conseq)
  then show ?thesis by (simp add: p_on_err_def gwp_then gwp_attempt)
qed

text \<open>Safety on an invariant, in the form that the induction rules of partial functions have.\<close>

lemma gwp_allI:
  assumes "\<And>s y. m s = Some y \<Longrightarrow> I s \<longrightarrow> (case y of (Ok a, s') \<Rightarrow> P a s' | (Err e, s') \<Rightarrow> Q e s' | (Panic, s') \<Rightarrow> False)"
    and "I s"
  shows "gwp False m P Q s"
  using assms by (auto simp: gwp_def split: option.splits)

lemma gwp_Some:
  assumes "gwp T m P Q s" "m s = Some y"
  shows "case y of (Ok a, s') \<Rightarrow> P a s' | (Err e, s') \<Rightarrow> Q e s' | (Panic, s') \<Rightarrow> False"
  using assms by (simp add: gwp_def)

end
