(* ===== verification/Pfs_Host.thy ===== *)
theory Pfs_Host
  imports Aes_Gcm Enclave_Mem Loops
begin

text \<open>
  The outside of the protected file system: its errors (\<open>tfs/src/sys/error.rs\<close>), the files of the untrusted host
  behind ocalls (\<open>tfs/src/sys/host\<close>), and what the library calls beyond the crate, collected in the parameter
  \<open>fs_env\<close>. The host is an arbitrary function on the outside world: nothing is assumed about what
  it returns. Paths are the results of parsing them with \<open>std::path\<close>; a string is its bytes.
\<close>

section \<open>Errors\<close>

datatype FsError = SgxError SgxStatus | OsError errno

definition fs_is_success :: "FsError \<Rightarrow> bool" where
  "fs_is_success e = (case e of SgxError status \<Rightarrow> sgx_is_success status | OsError errno \<Rightarrow> errno = Errno 0)"

definition equal_to_sgx_error :: "FsError \<Rightarrow> SgxStatus \<Rightarrow> bool" where
  "equal_to_sgx_error e other = (case e of SgxError e \<Rightarrow> e = other | OsError _ \<Rightarrow> False)"

definition equal_to_os_error :: "FsError \<Rightarrow> errno \<Rightarrow> bool" where
  "equal_to_os_error e other = (case e of SgxError _ \<Rightarrow> False | OsError e \<Rightarrow> e = other)"

definition to_errno :: "FsError \<Rightarrow> int" where
  "to_errno e = (case e of SgxError status \<Rightarrow> int (sgx_status_code status) | OsError errno \<Rightarrow> errno_code errno)"

section \<open>Paths\<close>

record Path =
  path_str :: "string option"
  path_name :: "string option"
  path_dir :: string

definition with_file_name :: "Path \<Rightarrow> string \<Rightarrow> Path" where
  "with_file_name p name =
     \<lparr>path_str = map_option (\<lambda>_. path_dir p @ name) (path_str p), path_name = Some name, path_dir = path_dir p\<rparr>"

definition path_is_empty :: "Path \<Rightarrow> bool" where
  "path_is_empty p \<longleftrightarrow> path_str p = Some ''''"

definition cstr :: "Path \<Rightarrow> ('s, FsError, string) rust" where
  "cstr p = and_then (ok_or (path_str p) (OsError EINVAL))
     (\<lambda>name. seq (ensure (CHR 0x00 \<notin> set name) (OsError EINVAL)) (ret name))"

section \<open>The parameters\<close>

text \<open>
  The ocalls, with their output parameters: a status, the result and the error of the host, and the
  pointer or the bytes they return. A null pointer is 0.
\<close>

record 'w host_calls =
  u_sgxfs_open_ocall :: "string \<Rightarrow> bool \<Rightarrow> 'w \<Rightarrow> (SgxStatus \<times> nat \<times> int \<times> usize) \<times> 'w"
  u_sgxfs_read_ocall :: "nat \<Rightarrow> nat \<Rightarrow> usize \<Rightarrow> 'w \<Rightarrow> (SgxStatus \<times> int \<times> int \<times> byte list) \<times> 'w"
  u_sgxfs_write_ocall :: "nat \<Rightarrow> nat \<Rightarrow> byte list \<Rightarrow> 'w \<Rightarrow> (SgxStatus \<times> int \<times> int) \<times> 'w"
  u_sgxfs_flush_ocall :: "nat \<Rightarrow> 'w \<Rightarrow> (SgxStatus \<times> int \<times> int) \<times> 'w"
  u_sgxfs_close_ocall :: "nat \<Rightarrow> 'w \<Rightarrow> (SgxStatus \<times> int \<times> int) \<times> 'w"
  u_sgxfs_exists_ocall :: "string \<Rightarrow> 'w \<Rightarrow> (SgxStatus \<times> int \<times> int \<times> byte) \<times> 'w"
  u_sgxfs_remove_ocall :: "string \<Rightarrow> 'w \<Rightarrow> (SgxStatus \<times> int \<times> int) \<times> 'w"
  u_sgxfs_open_recovery_ocall :: "string \<Rightarrow> 'w \<Rightarrow> (SgxStatus \<times> nat \<times> int) \<times> 'w"
  u_sgxfs_write_recovery_ocall :: "nat \<Rightarrow> byte list \<Rightarrow> 'w \<Rightarrow> (SgxStatus \<times> int \<times> int) \<times> 'w"
  u_sgxfs_close_recovery_ocall :: "nat \<Rightarrow> 'w \<Rightarrow> (SgxStatus \<times> int \<times> int) \<times> 'w"
  u_sgxfs_recovery_ocall :: "string \<Rightarrow> string \<Rightarrow> 'w \<Rightarrow> (SgxStatus \<times> int \<times> int) \<times> 'w"

record KeyRequest =
  kr_key_policy :: "16 word"
  kr_isv_svn :: nat
  kr_cpu_svn :: "byte list"
  kr_key_id :: "byte list"

record 'w fs_env =
  env_platform :: "'w platform"
  env_crypto :: crypto_sys
  env_host :: "'w host_calls"
  env_rdrand :: bool
  env_fill_bytes :: "nat \<Rightarrow> 'w \<Rightarrow> byte list \<times> 'w"
  env_get_key :: "KeyRequest \<Rightarrow> (SgxStatus, key128) res"
  env_isv_svn :: nat
  env_cpu_svn :: "byte list"
  env_zeros :: usize

text \<open>An ocall as a computation on the outside world, and an ocall that fills a buffer of a size.\<close>

definition call :: "('w \<Rightarrow> 'r \<times> 'w) \<Rightarrow> ('w, 'e, 'r) rust" where
  "call f w = (case f w of (r, w') \<Rightarrow> (Ok r, w'))"

definition fit :: "nat \<Rightarrow> byte list \<Rightarrow> byte list" where
  "fit n bs = take n bs @ replicate (n - length bs) 0"

lemma length_fit [simp]: "length (fit n bs) = n"
  by (simp add: fit_def)

text \<open>A value dropped when the computation leaves its scope, by any path.\<close>

definition scoped :: "('s, 'e, 'a) rust \<Rightarrow> ('s, 'e, 'b) rust \<Rightarrow> ('s, 'e, 'a) rust" where
  "scoped m d = and_then (attempt m) (\<lambda>r.
     seq (attempt d :: ('s, 'e, 'e + 'b) rust) (case r of Inl e \<Rightarrow> bail e | Inr a \<Rightarrow> ret a))"

section \<open>Host files\<close>

record HostFile =
  hf_file :: nat
  hf_size :: usize

definition I64_MAX :: nat where
  "I64_MAX = 0x7FFFFFFFFFFFFFFF"

definition NODE_SIZE :: usize where
  "NODE_SIZE = 4096"

definition os_or :: "int \<Rightarrow> errno \<Rightarrow> FsError" where
  "os_or error dflt = OsError (if error \<noteq> 0 then Errno error else dflt)"

definition host_file_open :: "'w fs_env \<Rightarrow> Path \<Rightarrow> bool \<Rightarrow> ('w, FsError, HostFile) rust" where
  "host_file_open env name readonly =
     and_then (cstr name) (\<lambda>name.
     and_then (call (u_sgxfs_open_ocall (env_host env) name readonly)) (\<lambda>(status, file, error, sz).
     seq (ensure (sgx_is_success status) (SgxError status))
    (seq (ensure (file \<noteq> 0) (os_or error EACCES))
    (seq (ensure (sz \<le> I64_MAX \<and> sz mod NODE_SIZE = 0) (SgxError Sgx_NotSgxFile))
         (ret \<lparr>hf_file = file, hf_size = sz\<rparr>)))))"

definition host_file_close :: "'w fs_env \<Rightarrow> HostFile \<Rightarrow> ('w, FsError, unit) rust" where
  "host_file_close env f =
     and_then (call (u_sgxfs_close_ocall (env_host env) (hf_file f))) (\<lambda>(status, result, error).
     seq (ensure (sgx_is_success status) (SgxError status))
         (ensure (result = 0) (if error \<noteq> 0 then OsError (Errno error) else SgxError Sgx_CloseFailed)))"

definition host_file_read :: "'w fs_env \<Rightarrow> HostFile \<Rightarrow> nat \<Rightarrow> usize \<Rightarrow> ('w, FsError, byte list) rust" where
  "host_file_read env f number sz =
     and_then (call (u_sgxfs_read_ocall (env_host env) (hf_file f) number sz)) (\<lambda>(status, result, error, node).
     seq (ensure (sgx_is_success status) (SgxError status))
    (seq (ensure (result = 0) (os_or error EIO))
         (ret (fit sz node))))"

definition host_file_write :: "'w fs_env \<Rightarrow> HostFile \<Rightarrow> nat \<Rightarrow> byte list \<Rightarrow> ('w, FsError, unit) rust" where
  "host_file_write env f number node =
     and_then (call (u_sgxfs_write_ocall (env_host env) (hf_file f) number node)) (\<lambda>(status, result, error).
     seq (ensure (sgx_is_success status) (SgxError status))
         (ensure (result = 0) (os_or error EIO)))"

definition host_file_flush :: "'w fs_env \<Rightarrow> HostFile \<Rightarrow> ('w, FsError, unit) rust" where
  "host_file_flush env f =
     and_then (call (u_sgxfs_flush_ocall (env_host env) (hf_file f))) (\<lambda>(status, result, error).
     seq (ensure (sgx_is_success status) (SgxError status))
         (ensure (result = 0) (SgxError Sgx_FluchFailed)))"

definition recovery_file_open :: "'w fs_env \<Rightarrow> Path \<Rightarrow> ('w, FsError, nat) rust" where
  "recovery_file_open env name =
     and_then (cstr name) (\<lambda>name.
     and_then (call (u_sgxfs_open_recovery_ocall (env_host env) name)) (\<lambda>(status, file, error).
     seq (ensure (sgx_is_success status) (SgxError status))
    (seq (ensure (file \<noteq> 0) (SgxError Sgx_CantOpenRecoveryFile))
         (ret file))))"

definition recovery_file_close :: "'w fs_env \<Rightarrow> nat \<Rightarrow> ('w, FsError, unit) rust" where
  "recovery_file_close env f =
     and_then (call (u_sgxfs_close_recovery_ocall (env_host env) f)) (\<lambda>(status, result, error).
     seq (ensure (sgx_is_success status) (SgxError status))
         (ensure (result = 0) (if error \<noteq> 0 then OsError (Errno error) else SgxError Sgx_CloseFailed)))"

text \<open>A recovery file is a log: the node number is in the bytes.\<close>

definition recovery_file_write :: "'w fs_env \<Rightarrow> nat \<Rightarrow> byte list \<Rightarrow> ('w, FsError, unit) rust" where
  "recovery_file_write env f node =
     and_then (call (u_sgxfs_write_recovery_ocall (env_host env) f node)) (\<lambda>(status, result, error).
     seq (ensure (sgx_is_success status) (SgxError status))
         (ensure (result = 0) (SgxError Sgx_CantWriteRecoveryFile)))"

definition try_exists :: "'w fs_env \<Rightarrow> Path \<Rightarrow> ('w, FsError, bool) rust" where
  "try_exists env name =
     and_then (cstr name) (\<lambda>name.
     and_then (call (u_sgxfs_exists_ocall (env_host env) name)) (\<lambda>(status, result, error, is_exists).
     seq (ensure (sgx_is_success status) (SgxError status))
    (seq (ensure (result \<ge> 0) (OsError (Errno error)))
         (ret (is_exists \<noteq> 0)))))"

definition host_remove :: "'w fs_env \<Rightarrow> Path \<Rightarrow> ('w, FsError, unit) rust" where
  "host_remove env name =
     and_then (cstr name) (\<lambda>name.
     and_then (call (u_sgxfs_remove_ocall (env_host env) name)) (\<lambda>(status, result, error).
     seq (ensure (sgx_is_success status) (SgxError status))
         (ensure (result = 0) (os_or error EPERM))))"

definition host_recovery :: "'w fs_env \<Rightarrow> Path \<Rightarrow> Path \<Rightarrow> ('w, FsError, unit) rust" where
  "host_recovery env source recovery =
     and_then (cstr source) (\<lambda>source.
     and_then (cstr recovery) (\<lambda>recovery.
     and_then (call (u_sgxfs_recovery_ocall (env_host env) source recovery)) (\<lambda>(status, result, error).
     seq (ensure (sgx_is_success status) (SgxError status))
         (ensure (result = 0) (os_or error EINVAL)))))"

section \<open>Lemmas\<close>

lemma twp_call [twp]: "twp (call f) P Q w \<longleftrightarrow> (case f w of (r, w') \<Rightarrow> P r w')"
  by (simp add: twp_def call_def split: prod.splits)

lemma twp_scoped [twp]:
  "twp (scoped m d) P Q s \<longleftrightarrow>
     twp m (\<lambda>a. twp d (\<lambda>_. P a) (\<lambda>_. P a)) (\<lambda>e. twp d (\<lambda>_. Q e) (\<lambda>_. Q e)) s"
proof -
  have "(\<lambda>r. twp (seq (attempt d :: ('a, 'b, 'b + 'd) rust) (case r of Inl e \<Rightarrow> bail e | Inr a \<Rightarrow> ret a)) P Q)
      = case_sum (\<lambda>e. twp d (\<lambda>_. Q e) (\<lambda>_. Q e)) (\<lambda>a. twp d (\<lambda>_. P a) (\<lambda>_. P a))"
    by (auto simp: fun_eq_iff twp twp_ret twp_bail split: sum.splits elim!: twp_conseq)
  then show ?thesis by (simp add: scoped_def twp_and_then twp_attempt)
qed

text \<open>
  Whatever the host does, an operation on its files returns: it succeeds or reports an error, and
  never panics.
\<close>

lemma cstr_total: "twp (cstr p) (\<lambda>_ s'. s' = s) (\<lambda>_ s'. s' = s) s"
  by (cases "path_str p") (auto simp: cstr_def twp)

lemma host_ops_total:
  "twp (host_file_read env f number sz) (\<lambda>bs _. length bs = sz) (\<lambda>_ _. True) w"
  "twp (host_file_write env f number node) (\<lambda>_ _. True) (\<lambda>_ _. True) w"
  "twp (host_file_flush env f) (\<lambda>_ _. True) (\<lambda>_ _. True) w"
  "twp (host_file_close env f) (\<lambda>_ _. True) (\<lambda>_ _. True) w"
  "twp (recovery_file_write env r node) (\<lambda>_ _. True) (\<lambda>_ _. True) w"
  "twp (recovery_file_close env r) (\<lambda>_ _. True) (\<lambda>_ _. True) w"
  by (auto simp: host_file_read_def host_file_write_def host_file_flush_def host_file_close_def
      recovery_file_write_def recovery_file_close_def twp split: prod.splits)

lemma host_paths_total:
  "twp (host_file_open env p ro) (\<lambda>f _. hf_size f \<le> I64_MAX \<and> hf_size f mod NODE_SIZE = 0) (\<lambda>_ _. True) w"
  "twp (recovery_file_open env p) (\<lambda>_ _. True) (\<lambda>_ _. True) w"
  "twp (try_exists env p) (\<lambda>_ _. True) (\<lambda>_ _. True) w"
  "twp (host_remove env p) (\<lambda>_ _. True) (\<lambda>_ _. True) w"
  "twp (host_recovery env p q) (\<lambda>_ _. True) (\<lambda>_ _. True) w"
  unfolding host_file_open_def recovery_file_open_def try_exists_def host_remove_def host_recovery_def twp_and_then
  by (rule twp_conseq [OF cstr_total]; auto simp: twp split: prod.splits)+

end
