(* ===== verification/Pfs_Keys.thy ===== *)
theory Pfs_Keys
  imports Pfs_Host
begin

text \<open>
  Key derivation of the protected file system, \<open>tfs/src/sys/keys.rs\<close>, and the ways of opening a file that
  select it (\<open>OpenMode\<close> of \<open>tfs/src/sys/file/mod.rs\<close>). The key of a node is derived from a master key, which is replaced
  after 65536 uses; the key of the metadata comes from the user or from the sealing key of the
  processor. Randomness is drawn from the outside world. A key request has the fields that vary.
\<close>

section \<open>Bytes\<close>

text \<open>The little-endian bytes of a number, and the number of some bytes.\<close>

fun le_bytes :: "nat \<Rightarrow> nat \<Rightarrow> byte list" where
  "le_bytes 0 n = []"
| "le_bytes (Suc k) n = of_nat n # le_bytes k (n div 256)"

fun of_le :: "byte list \<Rightarrow> nat" where
  "of_le [] = 0"
| "of_le (b # bs) = unat b + 256 * of_le bs"

lemma length_le_bytes [simp]: "length (le_bytes k n) = k"
  by (induction k arbitrary: n) auto

lemma of_le_le_bytes: "n < 256 ^ k \<Longrightarrow> of_le (le_bytes k n) = n"
proof (induction k arbitrary: n)
  case (Suc k)
  have "n div 256 < 256 ^ k" using Suc.prems by (simp add: less_mult_imp_div_less mult.commute)
  then show ?case using Suc.IH by (simp add: unat_of_nat)
qed simp

lemma byte_bound: "unat (b :: byte) < 256"
  using unsigned_less [where 'a = nat, of b] by simp

lemma le_bytes_of_le: "length bs = k \<Longrightarrow> le_bytes k (of_le bs) = bs"
proof (induction bs arbitrary: k)
  case (Cons b bs)
  have "(unat b + 256 * of_le bs) div 256 = of_le bs" using byte_bound [of b] by simp
  moreover have "(256 :: byte) = 0" by simp
  then have "of_nat (unat b + 256 * of_le bs) = b" by (simp only: of_nat_add of_nat_mult of_nat_numeral) simp
  ultimately show ?case using Cons by auto
qed simp

lemma of_le_bound: "of_le bs < 256 ^ length bs"
proof (induction bs)
  case (Cons b bs)
  then show ?case using byte_bound [of b] by (simp add: algebra_simps)
qed simp

lemma word16_bytes: "of_le (le_bytes 2 (unat (w :: 16 word))) = unat w"
  using unsigned_less [where 'a = nat, of w] by (simp add: of_le_le_bytes)

lemma le_bytes_of_take: "n + k \<le> length bs \<Longrightarrow> le_bytes k (of_le (take k (drop n bs))) = take k (drop n bs)"
  by (rule le_bytes_of_le) simp

abbreviation str_bytes :: "string \<Rightarrow> byte list" where
  "str_bytes s \<equiv> map of_char s"

section \<open>Modes and key types\<close>

type_synonym KeyPolicy = "16 word"

definition KEY_POLICY_MRENCLAVE :: KeyPolicy where
  "KEY_POLICY_MRENCLAVE = 1"

definition KEY_POLICY_MRSIGNER :: KeyPolicy where
  "KEY_POLICY_MRSIGNER = 2"

definition KEY_POLICY_ALL :: KeyPolicy where
  "KEY_POLICY_ALL = 0x3F"

definition key_policy_is_valid :: "KeyPolicy \<Rightarrow> bool" where
  "key_policy_is_valid p \<longleftrightarrow> and p (not KEY_POLICY_ALL) = 0"

datatype OpenMode =
    AutoKey KeyPolicy
  | UserKey key128
  | IntegrityOnly
  | ImportKey key128 KeyPolicy
  | ExportKey

definition mode_is_auto_key :: "OpenMode \<Rightarrow> bool" where
  "mode_is_auto_key m = (case m of AutoKey _ \<Rightarrow> True | _ \<Rightarrow> False)"

definition mode_import_key :: "OpenMode \<Rightarrow> key128 option" where
  "mode_import_key m = (case m of ImportKey key _ \<Rightarrow> Some key | _ \<Rightarrow> None)"

definition mode_key_policy :: "OpenMode \<Rightarrow> KeyPolicy option" where
  "mode_key_policy m = (case m of AutoKey p \<Rightarrow> Some p | ImportKey _ p \<Rightarrow> Some p | _ \<Rightarrow> None)"

definition mode_check :: "OpenMode \<Rightarrow> ('s, FsError, unit) rust" where
  "mode_check m = (case mode_key_policy m of
     Some key_policy \<Rightarrow>
       seq (ensure (key_policy_is_valid key_policy) (OsError EINVAL))
           (ensure (and key_policy (or KEY_POLICY_MRENCLAVE KEY_POLICY_MRSIGNER) \<noteq> 0) (OsError EINVAL))
   | None \<Rightarrow> ret ())"

datatype KeyType = KT_Metadata | KT_Master | KT_Random

definition key_default :: key128 where
  "key_default = replicate 16 0"

definition key_id_default :: "byte list" where
  "key_id_default = replicate 32 0"

section \<open>The key derivation function\<close>

primrec kdf_label :: "KeyType \<Rightarrow> string" where
  "kdf_label KT_Metadata = ''SGX-PROTECTED-FS-METADATA-KEY''"
| "kdf_label KT_Master = ''SGX-PROTECTED-FS-MASTER-KEY''"
| "kdf_label KT_Random = ''SGX-PROTECTED-FS-RANDOM-KEY''"

text \<open>
  The bytes of a \<open>KdfInput\<close>: index, label, padding, node number, nonce, output length, padding.
\<close>

definition kdf_input :: "KeyType \<Rightarrow> nat \<Rightarrow> byte list \<Rightarrow> byte list" where
  "kdf_input key_type node_number nonce =
     le_bytes 4 1 @ fit 64 (str_bytes (kdf_label key_type)) @ le_bytes 4 0 @ le_bytes 8 node_number
       @ fit 32 nonce @ le_bytes 4 0x80 @ le_bytes 4 0"

definition kdf_derive_key ::
    "'w fs_env \<Rightarrow> key128 \<Rightarrow> KeyType \<Rightarrow> nat \<Rightarrow> ('w, FsError, key128 \<times> byte list) rust" where
  "kdf_derive_key env key key_type node_number =
     seq (ensure (env_rdrand env) (OsError ENOTSUP))
    (and_then (call (env_fill_bytes env 32)) (\<lambda>nonce.
       case cmac (env_crypto env) key (kdf_input key_type node_number nonce) of
         Ok k \<Rightarrow> ret (k, fit 32 nonce)
       | Err e \<Rightarrow> bail (SgxError e)
       | Panic \<Rightarrow> panic))"

definition kdf_restore_key ::
    "'w fs_env \<Rightarrow> key128 \<Rightarrow> KeyType \<Rightarrow> nat \<Rightarrow> byte list \<Rightarrow> ('s, FsError, key128) rust" where
  "kdf_restore_key env key key_type node_number key_id =
     (case cmac (env_crypto env) key (kdf_input key_type node_number key_id) of
        Ok k \<Rightarrow> ret k
      | Err e \<Rightarrow> bail (SgxError e)
      | Panic \<Rightarrow> panic)"

section \<open>The master key\<close>

record MasterKey =
  mk_key :: key128
  mk_key_id :: "byte list"
  mk_count :: nat

definition MAX_USAGES :: nat where
  "MAX_USAGES = 65536"

definition master_key_new :: "'w fs_env \<Rightarrow> ('w, FsError, MasterKey) rust" where
  "master_key_new env =
     and_then (kdf_derive_key env key_default KT_Master 0) (\<lambda>(key, key_id).
       ret \<lparr>mk_key = key, mk_key_id = key_id, mk_count = 0\<rparr>)"

definition on_rng :: "('w, 'e, 'a) rust \<Rightarrow> ('k \<times> 'w, 'e, 'a) rust" where
  "on_rng = zoom snd (\<lambda>w (k, _). (k, w))"

definition master_key_update :: "'w fs_env \<Rightarrow> (MasterKey \<times> 'w, FsError, key128 \<times> byte list) rust" where
  "master_key_update env =
     and_then (gets fst) (\<lambda>mk.
     seq (if mk_count mk \<ge> MAX_USAGES
          then and_then (on_rng (master_key_new env)) (\<lambda>mk. modify (\<lambda>(_, w). (mk, w)))
          else modify (\<lambda>(_, w). (mk\<lparr>mk_count := mk_count mk + 1\<rparr>, w)))
         (gets (\<lambda>(mk, _). (mk_key mk, mk_key_id mk))))"

definition master_derive_key ::
    "'w fs_env \<Rightarrow> KeyType \<Rightarrow> nat \<Rightarrow> (MasterKey \<times> 'w, FsError, key128 \<times> byte list) rust" where
  "master_derive_key env key_type node_number = (case key_type of
     KT_Master \<Rightarrow> master_key_update env
   | KT_Random \<Rightarrow> and_then (master_key_update env) (\<lambda>(key, _). on_rng (kdf_derive_key env key KT_Random node_number))
   | _ \<Rightarrow> bail (OsError ENOTSUP))"

section \<open>The metadata key\<close>

datatype MetadataKey = MK_UserKey key128 | MK_AutoKey nat "byte list" "KeyPolicy option"

definition metadata_key_new :: "'w fs_env \<Rightarrow> key128 option \<Rightarrow> KeyPolicy option \<Rightarrow> MetadataKey" where
  "metadata_key_new env user_key key_policy = (case user_key of
     Some user_key \<Rightarrow> MK_UserKey user_key
   | None \<Rightarrow> MK_AutoKey (env_isv_svn env) (env_cpu_svn env) key_policy)"

definition get_key :: "'w fs_env \<Rightarrow> KeyRequest \<Rightarrow> ('s, FsError, key128) rust" where
  "get_key env request = (case env_get_key env request of
     Ok key \<Rightarrow> ret key | Err e \<Rightarrow> bail (SgxError e) | Panic \<Rightarrow> panic)"

definition metadata_derive_key ::
    "'w fs_env \<Rightarrow> MetadataKey \<Rightarrow> KeyType \<Rightarrow> ('w, FsError, key128 \<times> byte list) rust" where
  "metadata_derive_key env mk key_type =
     seq (ensure (key_type = KT_Metadata) (OsError EINVAL))
     (case mk of
        MK_UserKey user_key \<Rightarrow> kdf_derive_key env user_key KT_Metadata 0
      | MK_AutoKey isv_svn cpu_svn key_policy \<Rightarrow>
          seq (ensure (env_rdrand env) (OsError ENOTSUP))
         (and_then (call (env_fill_bytes env 32)) (\<lambda>key_id.
          and_then (get_key env \<lparr>kr_key_policy = (case key_policy of Some p \<Rightarrow> p | None \<Rightarrow> KEY_POLICY_MRSIGNER),
                                 kr_isv_svn = isv_svn, kr_cpu_svn = cpu_svn, kr_key_id = fit 32 key_id\<rparr>) (\<lambda>key.
            ret (key, fit 32 key_id)))))"

definition metadata_restore_key ::
    "'w fs_env \<Rightarrow> MetadataKey \<Rightarrow> KeyType \<Rightarrow> byte list \<Rightarrow> KeyPolicy option \<Rightarrow> byte list option \<Rightarrow> nat option
      \<Rightarrow> ('s, FsError, key128) rust" where
  "metadata_restore_key env mk key_type key_id key_policy cpu_svn isv_svn =
     seq (ensure (key_type = KT_Metadata) (OsError EINVAL))
     (case mk of
        MK_UserKey user_key \<Rightarrow> kdf_restore_key env user_key KT_Metadata 0 key_id
      | MK_AutoKey _ _ _ \<Rightarrow>
          and_then (ok_or cpu_svn (OsError EINVAL)) (\<lambda>cpu_svn.
          and_then (ok_or isv_svn (OsError EINVAL)) (\<lambda>isv_svn.
            get_key env \<lparr>kr_key_policy = (case key_policy of Some p \<Rightarrow> p | None \<Rightarrow> KEY_POLICY_MRSIGNER),
                         kr_isv_svn = isv_svn, kr_cpu_svn = cpu_svn, kr_key_id = key_id\<rparr>)))"

section \<open>The key generator of a file\<close>

datatype FsKeyGen =
    EncryptWithIntegrity MetadataKey MasterKey
  | KG_IntegrityOnly
  | KG_Import MetadataKey
  | KG_Export MetadataKey

definition fs_key_gen_new :: "'w fs_env \<Rightarrow> OpenMode \<Rightarrow> ('w, FsError, FsKeyGen) rust" where
  "fs_key_gen_new env mode = (case mode of
     AutoKey key_policy \<Rightarrow>
       and_then (master_key_new env) (\<lambda>mk.
         ret (EncryptWithIntegrity (metadata_key_new env None (Some key_policy)) mk))
   | UserKey user_key \<Rightarrow>
       and_then (master_key_new env) (\<lambda>mk.
         ret (EncryptWithIntegrity (metadata_key_new env (Some user_key) None) mk))
   | IntegrityOnly \<Rightarrow> ret KG_IntegrityOnly
   | ImportKey _ key_policy \<Rightarrow> ret (KG_Import (metadata_key_new env None (Some key_policy)))
   | ExportKey \<Rightarrow> ret (KG_Export (metadata_key_new env None None)))"

text \<open>The master key inside a generator is the part of the state that derivation changes.\<close>

definition derive_key ::
    "'w fs_env \<Rightarrow> KeyType \<Rightarrow> nat \<Rightarrow> (FsKeyGen \<times> 'w, FsError, key128 \<times> byte list) rust" where
  "derive_key env key_type node_number =
     and_then (gets fst) (\<lambda>gen. case gen of
       EncryptWithIntegrity metadata_key master_key \<Rightarrow>
         (case key_type of
            KT_Metadata \<Rightarrow> on_rng (metadata_derive_key env metadata_key KT_Metadata)
          | KT_Master \<Rightarrow> zoom (\<lambda>(_, w). (master_key, w)) (\<lambda>(mk, w) _. (EncryptWithIntegrity metadata_key mk, w))
              (master_derive_key env KT_Master 0)
          | KT_Random \<Rightarrow> zoom (\<lambda>(_, w). (master_key, w)) (\<lambda>(mk, w) _. (EncryptWithIntegrity metadata_key mk, w))
              (master_derive_key env KT_Random node_number))
     | KG_IntegrityOnly \<Rightarrow> ret (key_default, key_id_default)
     | KG_Import metadata_key \<Rightarrow>
         seq (ensure (key_type = KT_Metadata) (OsError EINVAL))
             (on_rng (metadata_derive_key env metadata_key KT_Metadata))
     | KG_Export _ \<Rightarrow> bail (OsError EINVAL))"

definition restore_key ::
    "'w fs_env \<Rightarrow> FsKeyGen \<Rightarrow> KeyType \<Rightarrow> byte list \<Rightarrow> KeyPolicy option \<Rightarrow> byte list option \<Rightarrow> nat option
      \<Rightarrow> ('s, FsError, key128) rust" where
  "restore_key env gen key_type key_id key_policy cpu_svn isv_svn =
     (case gen of
        EncryptWithIntegrity metadata_key _ \<Rightarrow>
          if key_type = KT_Metadata then metadata_restore_key env metadata_key key_type key_id key_policy cpu_svn isv_svn
          else bail (OsError EINVAL)
      | KG_IntegrityOnly \<Rightarrow> ret key_default
      | KG_Import _ \<Rightarrow> bail (OsError EINVAL)
      | KG_Export metadata_key \<Rightarrow>
          if key_type = KT_Metadata then metadata_restore_key env metadata_key key_type key_id key_policy cpu_svn isv_svn
          else bail (OsError EINVAL))"

end
