(* ===== verification/Pfs_Node.thy ===== *)
theory Pfs_Node
  imports Pfs_Keys
begin

text \<open>
  The nodes of a protected file, \<open>tfs/src/sys/node.rs\<close>: data nodes of 4096 bytes and the nodes of the Merkle hash
  tree, which hold the keys and codes of 96 data nodes and 32 child nodes. A reference to a node
  (\<open>Arc<RefCell<FileNode>>\<close>) is its index in a store that only grows; freeing a node that no reference reaches
  cannot be observed. No borrow of a node is held across another access to the same node, so the borrow
  flags are not part of the model.
\<close>

section \<open>Encryption flags\<close>

text \<open>
  The enumeration is read from the disk as a byte and not checked. A byte outside the enumeration is undefined behaviour in Rust; \<open>InvalidFlags\<close>
  stands for these bytes, so that the model can say what was read. No branch of the source matches it, and the model panics where a
  \<open>match\<close> on the flags meets it.
\<close>

datatype EncryptFlags = EF_AutoKey | EF_UserKey | EF_IntegrityOnly | InvalidFlags byte

definition encrypt_flags_byte :: "EncryptFlags \<Rightarrow> byte" where
  "encrypt_flags_byte f = (case f of EF_AutoKey \<Rightarrow> 0 | EF_UserKey \<Rightarrow> 1 | EF_IntegrityOnly \<Rightarrow> 2 | InvalidFlags b \<Rightarrow> b)"

definition encrypt_flags_of_byte :: "byte \<Rightarrow> EncryptFlags" where
  "encrypt_flags_of_byte b =
     (if b = 0 then EF_AutoKey else if b = 1 then EF_UserKey else if b = 2 then EF_IntegrityOnly else InvalidFlags b)"

definition flags_of_mode :: "OpenMode \<Rightarrow> EncryptFlags" where
  "flags_of_mode mode = (case mode of
     AutoKey _ \<Rightarrow> EF_AutoKey | ExportKey \<Rightarrow> EF_AutoKey | ImportKey _ _ \<Rightarrow> EF_AutoKey
   | UserKey _ \<Rightarrow> EF_UserKey | IntegrityOnly \<Rightarrow> EF_IntegrityOnly)"

section \<open>Node contents\<close>

record GcmData =
  gd_key :: key128
  gd_mac :: mac128

definition ROOT_MHT_PHY_NUM :: nat where
  "ROOT_MHT_PHY_NUM = 1"

definition META_DATA_PHY_NUM :: nat where
  "META_DATA_PHY_NUM = 0"

definition ATTACHED_DATA_NODES_COUNT :: nat where
  "ATTACHED_DATA_NODES_COUNT = NODE_SIZE div 32 * 3 div 4"

definition CHILD_MHT_NODES_COUNT :: nat where
  "CHILD_MHT_NODES_COUNT = NODE_SIZE div 32 div 4"

record MhtNode =
  mht_data :: "GcmData list"
  mht_mht :: "GcmData list"

datatype NodeType = NT_Mht | NT_Data

datatype Node = Mht MhtNode | Data "byte list"

definition gcm_default :: GcmData where
  "gcm_default = \<lparr>gd_key = replicate 16 0, gd_mac = replicate 16 0\<rparr>"

definition mht_default :: MhtNode where
  "mht_default = \<lparr>mht_data = replicate ATTACHED_DATA_NODES_COUNT gcm_default,
                  mht_mht = replicate CHILD_MHT_NODES_COUNT gcm_default\<rparr>"

primrec node_of_type :: "NodeType \<Rightarrow> Node" where
  "node_of_type NT_Mht = Mht mht_default"
| "node_of_type NT_Data = Data (replicate NODE_SIZE 0)"

text \<open>An index out of range panics.\<close>

definition node_get_gcm_data :: "Node \<Rightarrow> NodeType \<Rightarrow> nat \<Rightarrow> ('s, 'e, GcmData option) rust" where
  "node_get_gcm_data node node_type index = (case node of
     Mht m \<Rightarrow>
       (let gs = (case node_type of NT_Mht \<Rightarrow> mht_mht m | NT_Data \<Rightarrow> mht_data m) in
        if index < length gs then ret (Some (gs ! index)) else panic)
   | Data _ \<Rightarrow> ret None)"

definition node_set_gcm_data :: "Node \<Rightarrow> NodeType \<Rightarrow> nat \<Rightarrow> GcmData \<Rightarrow> ('s, 'e, Node) rust" where
  "node_set_gcm_data node node_type index gcm_data = (case node of
     Mht m \<Rightarrow> (case node_type of
         NT_Mht \<Rightarrow> if index < length (mht_mht m) then ret (Mht (m\<lparr>mht_mht := (mht_mht m)[index := gcm_data]\<rparr>)) else panic
       | NT_Data \<Rightarrow> if index < length (mht_data m) then ret (Mht (m\<lparr>mht_data := (mht_data m)[index := gcm_data]\<rparr>)) else panic)
   | Data _ \<Rightarrow> ret node)"

text \<open>The bytes of a node, and a node of the same kind from other bytes.\<close>

definition gcm_bytes :: "GcmData \<Rightarrow> byte list" where
  "gcm_bytes g = gd_key g @ gd_mac g"

fun gcms_of_bytes :: "nat \<Rightarrow> byte list \<Rightarrow> GcmData list" where
  "gcms_of_bytes 0 bs = []"
| "gcms_of_bytes (Suc n) bs =
     \<lparr>gd_key = take 16 bs, gd_mac = take 16 (drop 16 bs)\<rparr> # gcms_of_bytes n (drop 32 bs)"

definition node_bytes :: "Node \<Rightarrow> byte list" where
  "node_bytes node = (case node of
     Mht m \<Rightarrow> concat (map gcm_bytes (mht_data m @ mht_mht m))
   | Data bs \<Rightarrow> bs)"

definition node_with_bytes :: "Node \<Rightarrow> byte list \<Rightarrow> Node" where
  "node_with_bytes node bs = (case node of
     Mht m \<Rightarrow> Mht \<lparr>mht_data = gcms_of_bytes ATTACHED_DATA_NODES_COUNT bs,
                   mht_mht = gcms_of_bytes CHILD_MHT_NODES_COUNT (drop (32 * ATTACHED_DATA_NODES_COUNT) bs)\<rparr>
   | Data _ \<Rightarrow> Data bs)"

section \<open>File nodes\<close>

type_synonym node_ref = nat

record FileNode =
  fn_node_type :: NodeType
  fn_logic_number :: nat
  fn_need_writing :: bool
  fn_new_node :: bool
  fn_encrypt_flags :: EncryptFlags
  fn_physical_number :: nat
  fn_ciphertext :: "byte list"
  fn_plaintext :: Node
  fn_parent :: "node_ref option"

definition file_node_new :: "NodeType \<Rightarrow> nat \<Rightarrow> nat \<Rightarrow> EncryptFlags \<Rightarrow> FileNode" where
  "file_node_new node_type logic_number physical_number encrypt_flags =
     \<lparr>fn_node_type = node_type, fn_logic_number = logic_number, fn_need_writing = False, fn_new_node = True,
      fn_encrypt_flags = encrypt_flags, fn_physical_number = physical_number,
      fn_ciphertext = replicate NODE_SIZE 0, fn_plaintext = node_of_type node_type, fn_parent = None\<rparr>"

definition file_node_new_root :: "EncryptFlags \<Rightarrow> FileNode" where
  "file_node_new_root encrypt_flags = file_node_new NT_Mht 0 ROOT_MHT_PHY_NUM encrypt_flags"

definition is_mht :: "FileNode \<Rightarrow> bool" where
  "is_mht n \<longleftrightarrow> fn_node_type n = NT_Mht"

definition is_data :: "FileNode \<Rightarrow> bool" where
  "is_data n \<longleftrightarrow> fn_node_type n = NT_Data"

definition is_root_mht :: "FileNode \<Rightarrow> bool" where
  "is_root_mht n \<longleftrightarrow> fn_logic_number n = 0 \<and> fn_physical_number n = ROOT_MHT_PHY_NUM"

text \<open>The slot of a node in its parent; \<open>logic_number - 1\<close> wraps for logic number 0 in a release build.\<close>

definition gcm_slot :: "NodeType \<Rightarrow> nat \<Rightarrow> nat" where
  "gcm_slot node_type logic_number = (case node_type of
     NT_Mht \<Rightarrow> wrapping_sub logic_number 1 mod CHILD_MHT_NODES_COUNT
   | NT_Data \<Rightarrow> logic_number mod ATTACHED_DATA_NODES_COUNT)"

definition gcm_index :: "FileNode \<Rightarrow> ('s, 'e, nat option) rust" where
  "gcm_index n =
     (if is_root_mht n then ret None
      else seq (rassert (fn_physical_number n > ROOT_MHT_PHY_NUM))
               (ret (Some (gcm_slot (fn_node_type n) (fn_logic_number n)))))"

text \<open>The cipher text and the code of a node's plain text, with what the call leaves in the buffer.\<close>

definition seal_bytes ::
    "'w fs_env \<Rightarrow> EncryptFlags \<Rightarrow> key128 \<Rightarrow> byte list \<Rightarrow> byte list \<Rightarrow> (FsError, mac128) res \<times> byte list" where
  "seal_bytes env flags key plain cipher =
     (if flags \<noteq> EF_IntegrityOnly then
        case gcm_new key nonce_zeroed [] of
          Ok aes \<Rightarrow> (case gcm_encrypt (env_crypto env) aes plain cipher of
              (Ok mac, dst) \<Rightarrow> (Ok mac, dst)
            | (Err e, dst) \<Rightarrow> (Err (SgxError e), dst)
            | (Panic, dst) \<Rightarrow> (Panic, dst))
        | Err e \<Rightarrow> (Err (SgxError e), cipher)
        | Panic \<Rightarrow> (Panic, cipher)
      else
        case gcm_new key nonce_zeroed plain of
          Ok aes \<Rightarrow> (case gcm_mac (env_crypto env) aes of
              Ok mac \<Rightarrow> (if length cipher = length plain then (Ok mac, plain) else (Panic, cipher))
            | Err e \<Rightarrow> (Err (SgxError e), cipher)
            | Panic \<Rightarrow> (Panic, cipher))
        | Err e \<Rightarrow> (Err (SgxError e), cipher)
        | Panic \<Rightarrow> (Panic, cipher))"

definition open_bytes ::
    "'w fs_env \<Rightarrow> EncryptFlags \<Rightarrow> key128 \<Rightarrow> mac128 \<Rightarrow> byte list \<Rightarrow> byte list \<Rightarrow> (FsError, byte list) res" where
  "open_bytes env flags key mac cipher plain =
     (if flags \<noteq> EF_IntegrityOnly then
        case gcm_new key nonce_zeroed [] of
          Ok aes \<Rightarrow> (case gcm_decrypt (env_crypto env) aes cipher plain mac of
              (Ok _, dst) \<Rightarrow> Ok dst
            | (Err e, _) \<Rightarrow> Err (SgxError e)
            | (Panic, _) \<Rightarrow> Panic)
        | Err e \<Rightarrow> Err (SgxError e)
        | Panic \<Rightarrow> Panic
      else
        case gcm_new key nonce_zeroed cipher of
          Ok aes \<Rightarrow> (case gcm_verify_mac (env_crypto env) aes mac of
              Ok _ \<Rightarrow> (if length plain = length cipher then Ok cipher else Panic)
            | Err e \<Rightarrow> Err (SgxError e)
            | Panic \<Rightarrow> Panic)
        | Err e \<Rightarrow> Err (SgxError e)
        | Panic \<Rightarrow> Panic)"

definition of_res :: "('e, 'a) res \<Rightarrow> ('s, 'e, 'a) rust" where
  "of_res r s = (r, s)"

text \<open>\<open>decrypt\<close> runs on a node that is not shared yet; its failure drops the node.\<close>

definition node_decrypt :: "'w fs_env \<Rightarrow> FileNode \<Rightarrow> key128 \<Rightarrow> mac128 \<Rightarrow> ('s, FsError, FileNode) rust" where
  "node_decrypt env n key mac =
     and_then (of_res (open_bytes env (fn_encrypt_flags n) key mac (fn_ciphertext n) (node_bytes (fn_plaintext n))))
       (\<lambda>bs. ret (n\<lparr>fn_plaintext := node_with_bytes (fn_plaintext n) bs\<rparr>))"

definition node_read_from_disk :: "'w fs_env \<Rightarrow> HostFile \<Rightarrow> FileNode \<Rightarrow> ('w, FsError, FileNode) rust" where
  "node_read_from_disk env f n =
     seq (rassert (fn_physical_number n \<noteq> 0))
    (and_then (host_file_read env f (fn_physical_number n) NODE_SIZE) (\<lambda>bs.
       ret (n\<lparr>fn_ciphertext := bs\<rparr>)))"

section \<open>The store of shared nodes\<close>

record 'w nstore =
  ns_nodes :: "FileNode list"
  ns_world :: 'w

definition on_ns_world :: "('w, 'e, 'a) rust \<Rightarrow> (('w, 'z) nstore_scheme, 'e, 'a) rust" where
  "on_ns_world = zoom ns_world (\<lambda>w s. s\<lparr>ns_world := w\<rparr>)"

definition build_ref :: "FileNode \<Rightarrow> (('w, 'z) nstore_scheme, 'e, node_ref) rust" where
  "build_ref n = and_then (gets (\<lambda>s. length (ns_nodes s))) (\<lambda>r.
     seq (modify (\<lambda>s. s\<lparr>ns_nodes := ns_nodes s @ [n]\<rparr>)) (ret r))"

definition node_at :: "node_ref \<Rightarrow> (('w, 'z) nstore_scheme, 'e, FileNode) rust" where
  "node_at r = and_then (gets ns_nodes) (\<lambda>ns. if r < length ns then ret (ns ! r) else panic)"

definition update_node :: "node_ref \<Rightarrow> (FileNode \<Rightarrow> FileNode) \<Rightarrow> (('w, 'z) nstore_scheme, 'e, unit) rust" where
  "update_node r f = and_then (node_at r) (\<lambda>n. modify (\<lambda>s. s\<lparr>ns_nodes := (ns_nodes s)[r := f n]\<rparr>))"

definition node_encrypt :: "'w fs_env \<Rightarrow> node_ref \<Rightarrow> key128 \<Rightarrow> (('w, 'z) nstore_scheme, FsError, mac128) rust" where
  "node_encrypt env r key =
     and_then (node_at r) (\<lambda>n.
     and_then (if \<not> is_root_mht n
               then and_then (ok_or (fn_parent n) (SgxError Sgx_Unexpected)) (\<lambda>p. ret (Some p))
               else ret None) (\<lambda>parent.
     case seal_bytes env (fn_encrypt_flags n) key (node_bytes (fn_plaintext n)) (fn_ciphertext n) of
       (result, cipher) \<Rightarrow>
         seq (update_node r (\<lambda>n. n\<lparr>fn_ciphertext := cipher\<rparr>))
        (and_then (of_res result) (\<lambda>mac.
         seq (case parent of
                Some p \<Rightarrow>
                  and_then (node_at p) (\<lambda>pn.
                  and_then (node_set_gcm_data (fn_plaintext pn) (fn_node_type n)
                              (gcm_slot (fn_node_type n) (fn_logic_number n)) \<lparr>gd_key = key, gd_mac = mac\<rparr>) (\<lambda>pt.
                  update_node p (\<lambda>pn. pn\<lparr>fn_plaintext := pt\<rparr>)))
              | None \<Rightarrow> ret ())
             (ret mac)))))"

definition node_get_gcm :: "FileNode \<Rightarrow> (('w, 'z) nstore_scheme, 'e, GcmData option) rust" where
  "node_get_gcm n = (case fn_parent n of
     None \<Rightarrow> ret None
   | Some p \<Rightarrow> and_then (node_at p) (\<lambda>pn.
       and_then (gcm_index n) (\<lambda>i. case i of
         None \<Rightarrow> ret None
       | Some i \<Rightarrow> node_get_gcm_data (fn_plaintext pn) (fn_node_type n) i)))"

definition node_write_to_disk :: "'w fs_env \<Rightarrow> HostFile \<Rightarrow> node_ref \<Rightarrow> (('w, 'z) nstore_scheme, FsError, unit) rust" where
  "node_write_to_disk env f r =
     and_then (node_at r) (\<lambda>n.
     seq (rassert (fn_physical_number n \<noteq> 0))
    (seq (on_ns_world (host_file_write env f (fn_physical_number n) (fn_ciphertext n)))
         (update_node r (\<lambda>n. n\<lparr>fn_need_writing := False, fn_new_node := False\<rparr>))))"

text \<open>A node in a recovery file is its number and its cipher text.\<close>

definition node_write_recovery_file :: "'w fs_env \<Rightarrow> nat \<Rightarrow> FileNode \<Rightarrow> ('w, FsError, unit) rust" where
  "node_write_recovery_file env f n =
     seq (rassert (fn_physical_number n \<noteq> 0))
         (recovery_file_write env f (le_bytes 8 (fn_physical_number n) @ fn_ciphertext n))"

end
