(* ===== verification/Pfs_Metadata.thy ===== *)
theory Pfs_Metadata
  imports Pfs_Node
begin

text \<open>
  The metadata of a protected file, \<open>tfs/src/sys/metadata.rs\<close>: node 0 of the file, with a plain part, an encrypted part
  that also holds the first 3072 bytes of the file's data, and padding. The layout of the structures in
  memory, which is what goes to the disk, is written out with its inverse: \<open>as_ref\<close> and \<open>as_mut\<close> view a structure as the array of its
  bytes, so its fields are taken apart and put together in the order of \<open>repr(C)\<close>, integers with the low byte first.
\<close>

section \<open>Structures\<close>

definition SGX_FILE_ID :: nat where
  "SGX_FILE_ID = 0x5347585F46494C45"

definition SGX_FILE_MAJOR_VERSION :: byte where
  "SGX_FILE_MAJOR_VERSION = 1"

definition SGX_FILE_MINOR_VERSION :: byte where
  "SGX_FILE_MINOR_VERSION = 0"

definition MD_USER_DATA_SIZE :: usize where
  "MD_USER_DATA_SIZE = NODE_SIZE * 3 div 4"

definition FILENAME_MAX_LEN :: usize where
  "FILENAME_MAX_LEN = 260"

definition FULLNAME_MAX_LEN :: usize where
  "FULLNAME_MAX_LEN = 512 + FILENAME_MAX_LEN"

record MetadataPlain =
  mp_file_id :: nat
  mp_major_version :: byte
  mp_minor_version :: byte
  mp_encrypt_flags :: EncryptFlags
  mp_update_flag :: byte
  mp_key_policy :: KeyPolicy
  mp_isv_svn :: nat
  mp_key_id :: "byte list"
  mp_cpu_svn :: "byte list"
  mp_attribute_mask :: "byte list"
  mp_gmac :: mac128

record MetadataEncrypted =
  me_file_name :: "byte list"
  me_size :: usize
  me_mht_key :: key128
  me_mht_gmac :: mac128
  me_data :: "byte list"

definition METADATA_ENCRYPTED :: usize where
  "METADATA_ENCRYPTED = FILENAME_MAX_LEN + 8 + 16 + 16 + MD_USER_DATA_SIZE"

definition METADATA_PADDING :: usize where
  "METADATA_PADDING = NODE_SIZE - 96 - METADATA_ENCRYPTED"

record Metadata =
  md_plaintext :: MetadataPlain
  md_ciphertext :: "byte list"
  md_padding :: "byte list"

record MetadataInfo =
  mi_node_number :: nat
  mi_metadata :: Metadata
  mi_encrypted_plain :: MetadataEncrypted

definition plain_default :: MetadataPlain where
  "plain_default =
     \<lparr>mp_file_id = 0, mp_major_version = 0, mp_minor_version = 0, mp_encrypt_flags = EF_AutoKey, mp_update_flag = 0,
      mp_key_policy = 0, mp_isv_svn = 0, mp_key_id = replicate 32 0, mp_cpu_svn = replicate 16 0,
      mp_attribute_mask = replicate 16 0, mp_gmac = replicate 16 0\<rparr>"

definition plain_new :: MetadataPlain where
  "plain_new = plain_default\<lparr>mp_file_id := SGX_FILE_ID, mp_major_version := SGX_FILE_MAJOR_VERSION,
     mp_minor_version := SGX_FILE_MINOR_VERSION\<rparr>"

definition encrypted_default :: MetadataEncrypted where
  "encrypted_default =
     \<lparr>me_file_name = replicate FILENAME_MAX_LEN 0, me_size = 0, me_mht_key = replicate 16 0,
      me_mht_gmac = replicate 16 0, me_data = replicate MD_USER_DATA_SIZE 0\<rparr>"

definition metadata_with :: "MetadataPlain \<Rightarrow> Metadata" where
  "metadata_with p = \<lparr>md_plaintext = p, md_ciphertext = replicate METADATA_ENCRYPTED 0, md_padding = replicate METADATA_PADDING 0\<rparr>"

definition metadata_info_default :: MetadataInfo where
  "metadata_info_default =
     \<lparr>mi_node_number = META_DATA_PHY_NUM, mi_metadata = metadata_with plain_default, mi_encrypted_plain = encrypted_default\<rparr>"

definition metadata_info_new :: MetadataInfo where
  "metadata_info_new =
     \<lparr>mi_node_number = META_DATA_PHY_NUM, mi_metadata = metadata_with plain_new, mi_encrypted_plain = encrypted_default\<rparr>"

section \<open>Layout\<close>

definition plain_bytes :: "MetadataPlain \<Rightarrow> byte list" where
  "plain_bytes p =
     le_bytes 8 (mp_file_id p) @ [mp_major_version p, mp_minor_version p, encrypt_flags_byte (mp_encrypt_flags p), mp_update_flag p]
       @ le_bytes 2 (unat (mp_key_policy p)) @ le_bytes 2 (mp_isv_svn p) @ mp_key_id p @ mp_cpu_svn p
       @ mp_attribute_mask p @ mp_gmac p"

definition plain_of_bytes :: "byte list \<Rightarrow> MetadataPlain" where
  "plain_of_bytes bs =
     \<lparr>mp_file_id = of_le (take 8 bs), mp_major_version = bs ! 8, mp_minor_version = bs ! 9,
      mp_encrypt_flags = encrypt_flags_of_byte (bs ! 10), mp_update_flag = bs ! 11,
      mp_key_policy = of_nat (of_le (take 2 (drop 12 bs))), mp_isv_svn = of_le (take 2 (drop 14 bs)),
      mp_key_id = take 32 (drop 16 bs), mp_cpu_svn = take 16 (drop 48 bs), mp_attribute_mask = take 16 (drop 64 bs),
      mp_gmac = take 16 (drop 80 bs)\<rparr>"

definition encrypted_bytes :: "MetadataEncrypted \<Rightarrow> byte list" where
  "encrypted_bytes e = me_file_name e @ le_bytes 8 (me_size e) @ me_mht_key e @ me_mht_gmac e @ me_data e"

definition encrypted_of_bytes :: "byte list \<Rightarrow> MetadataEncrypted" where
  "encrypted_of_bytes bs =
     \<lparr>me_file_name = take 260 bs, me_size = of_le (take 8 (drop 260 bs)), me_mht_key = take 16 (drop 268 bs),
      me_mht_gmac = take 16 (drop 284 bs), me_data = drop 300 bs\<rparr>"

definition metadata_bytes :: "Metadata \<Rightarrow> byte list" where
  "metadata_bytes m = plain_bytes (md_plaintext m) @ md_ciphertext m @ md_padding m"

definition metadata_of_bytes :: "byte list \<Rightarrow> Metadata" where
  "metadata_of_bytes bs =
     \<lparr>md_plaintext = plain_of_bytes (take 96 bs), md_ciphertext = take METADATA_ENCRYPTED (drop 96 bs),
      md_padding = drop (96 + METADATA_ENCRYPTED) bs\<rparr>"

section \<open>Operations\<close>

abbreviation mi_plain :: "MetadataInfo \<Rightarrow> MetadataPlain" where
  "mi_plain m \<equiv> md_plaintext (mi_metadata m)"

definition upd_plain :: "(MetadataPlain \<Rightarrow> MetadataPlain) \<Rightarrow> MetadataInfo \<Rightarrow> MetadataInfo" where
  "upd_plain f m = m\<lparr>mi_metadata := (mi_metadata m)\<lparr>md_plaintext := f (mi_plain m)\<rparr>\<rparr>"

definition upd_encrypted :: "(MetadataEncrypted \<Rightarrow> MetadataEncrypted) \<Rightarrow> MetadataInfo \<Rightarrow> MetadataInfo" where
  "upd_encrypted f m = m\<lparr>mi_encrypted_plain := f (mi_encrypted_plain m)\<rparr>"

definition set_encrypt_flags :: "EncryptFlags \<Rightarrow> MetadataInfo \<Rightarrow> MetadataInfo" where
  "set_encrypt_flags flags = upd_plain (\<lambda>p. p\<lparr>mp_encrypt_flags := flags\<rparr>)"

definition set_key_policy :: "KeyPolicy \<Rightarrow> MetadataInfo \<Rightarrow> MetadataInfo" where
  "set_key_policy key_policy = upd_plain (\<lambda>p. p\<lparr>mp_key_policy := key_policy\<rparr>)"

definition update_flag :: "MetadataInfo \<Rightarrow> bool" where
  "update_flag m \<longleftrightarrow> mp_update_flag (mi_plain m) \<noteq> 0"

definition set_update_flag :: "byte \<Rightarrow> MetadataInfo \<Rightarrow> MetadataInfo" where
  "set_update_flag flag = upd_plain (\<lambda>p. p\<lparr>mp_update_flag := flag\<rparr>)"

text \<open>The validity check of \<open>str::from_utf8\<close>.\<close>

definition utf8_cont :: "nat \<Rightarrow> bool" where
  "utf8_cont b \<longleftrightarrow> 0x80 \<le> b \<and> b \<le> 0xBF"

fun utf8_valid :: "nat list \<Rightarrow> bool" where
  "utf8_valid [] = True"
| "utf8_valid (a # s) =
     (if a < 0x80 then utf8_valid s
      else case s of
        [] \<Rightarrow> False
      | b # s \<Rightarrow>
          if 0xC2 \<le> a \<and> a \<le> 0xDF then utf8_cont b \<and> utf8_valid s
          else case s of
            [] \<Rightarrow> False
          | c # s \<Rightarrow>
              if 0xE0 \<le> a \<and> a \<le> 0xEF then
                utf8_cont b \<and> (a = 0xE0 \<longrightarrow> 0xA0 \<le> b) \<and> (a = 0xED \<longrightarrow> b \<le> 0x9F) \<and> utf8_cont c \<and> utf8_valid s
              else case s of
                [] \<Rightarrow> False
              | d # s \<Rightarrow>
                  0xF0 \<le> a \<and> a \<le> 0xF4 \<and> utf8_cont b \<and> (a = 0xF0 \<longrightarrow> 0x90 \<le> b) \<and> (a = 0xF4 \<longrightarrow> b \<le> 0x8F)
                  \<and> utf8_cont c \<and> utf8_cont d \<and> utf8_valid s)"

definition meta_file_name :: "MetadataInfo \<Rightarrow> ('s, FsError, byte list) rust" where
  "meta_file_name m =
     (let bytes = me_file_name (mi_encrypted_plain m); name = takeWhile (\<lambda>b. b \<noteq> 0) bytes in
      seq (ensure (0 \<in> set bytes) (SgxError Sgx_Unexpected))
     (seq (ensure (utf8_valid (map unat name)) (SgxError Sgx_Unexpected))
          (ret name)))"

text \<open>\<open>encrypt\<close> returns its result with the metadata it leaves.\<close>

definition meta_encrypt :: "'w fs_env \<Rightarrow> MetadataInfo \<Rightarrow> key128 \<Rightarrow> (FsError, unit) res \<times> MetadataInfo" where
  "meta_encrypt env m key =
     (case seal_bytes env (mp_encrypt_flags (mi_plain m)) key (encrypted_bytes (mi_encrypted_plain m))
             (md_ciphertext (mi_metadata m)) of
        (result, cipher) \<Rightarrow>
          let m = m\<lparr>mi_metadata := (mi_metadata m)\<lparr>md_ciphertext := cipher\<rparr>\<rparr> in
          (case result of
             Ok mac \<Rightarrow> (Ok (), upd_plain (\<lambda>p. p\<lparr>mp_gmac := mac\<rparr>) m)
           | Err e \<Rightarrow> (Err e, m)
           | Panic \<Rightarrow> (Panic, m)))"

definition meta_decrypt :: "'w fs_env \<Rightarrow> MetadataInfo \<Rightarrow> key128 \<Rightarrow> ('s, FsError, MetadataInfo) rust" where
  "meta_decrypt env m key =
     and_then (of_res (open_bytes env (mp_encrypt_flags (mi_plain m)) key (mp_gmac (mi_plain m))
                 (md_ciphertext (mi_metadata m)) (encrypted_bytes (mi_encrypted_plain m))))
       (\<lambda>bs. ret (m\<lparr>mi_encrypted_plain := encrypted_of_bytes bs\<rparr>))"

definition meta_derive_key ::
    "'w fs_env \<Rightarrow> MetadataInfo \<Rightarrow> (FsKeyGen \<times> 'w, FsError, key128 \<times> MetadataInfo) rust" where
  "meta_derive_key env m =
     and_then (derive_key env KT_Metadata 0) (\<lambda>(key, key_id).
       case mp_encrypt_flags (mi_plain m) of
         EF_AutoKey \<Rightarrow> ret (key, upd_plain (\<lambda>p. p\<lparr>mp_key_id := key_id, mp_cpu_svn := env_cpu_svn env,
                                                mp_isv_svn := env_isv_svn env\<rparr>) m)
       | EF_UserKey \<Rightarrow> ret (key, upd_plain (\<lambda>p. p\<lparr>mp_key_id := key_id\<rparr>) m)
       | EF_IntegrityOnly \<Rightarrow> ret (key, m)
       | InvalidFlags _ \<Rightarrow> panic)"

definition meta_restore_key :: "'w fs_env \<Rightarrow> MetadataInfo \<Rightarrow> FsKeyGen \<Rightarrow> ('s, FsError, key128) rust" where
  "meta_restore_key env m gen =
     (let p = mi_plain m in
      case mp_encrypt_flags p of
        EF_AutoKey \<Rightarrow> restore_key env gen KT_Metadata (mp_key_id p) (Some (mp_key_policy p)) (Some (mp_cpu_svn p)) (Some (mp_isv_svn p))
      | EF_UserKey \<Rightarrow> restore_key env gen KT_Metadata (mp_key_id p) None None None
      | EF_IntegrityOnly \<Rightarrow> restore_key env gen KT_Metadata (mp_key_id p) None None None
      | InvalidFlags _ \<Rightarrow> panic)"

definition meta_read_from_disk :: "'w fs_env \<Rightarrow> HostFile \<Rightarrow> MetadataInfo \<Rightarrow> ('w, FsError, MetadataInfo) rust" where
  "meta_read_from_disk env f m =
     and_then (host_file_read env f META_DATA_PHY_NUM NODE_SIZE) (\<lambda>bs.
       ret (m\<lparr>mi_metadata := metadata_of_bytes bs\<rparr>))"

definition meta_write_to_disk :: "'w fs_env \<Rightarrow> HostFile \<Rightarrow> MetadataInfo \<Rightarrow> ('w, FsError, unit) rust" where
  "meta_write_to_disk env f m = host_file_write env f META_DATA_PHY_NUM (metadata_bytes (mi_metadata m))"

definition meta_write_recovery_file :: "'w fs_env \<Rightarrow> nat \<Rightarrow> MetadataInfo \<Rightarrow> ('w, FsError, unit) rust" where
  "meta_write_recovery_file env f m =
     recovery_file_write env f (le_bytes 8 (mi_node_number m) @ metadata_bytes (mi_metadata m))"

end
