(* ===== verification/Linked_List.thy ===== *)
theory Linked_List
  imports Prelude "HOL-Library.Monad_Syntax"
begin

text \<open>
  The doubly linked list of \<open>sgx_protected_fs/tfs/src/sys/cache/list.rs\<close>. Its nodes are boxes in a
  heap, its links raw pointers. An operation maps a heap and a list to their new values; it is
  \<open>None\<close> when it follows a pointer to memory that is not allocated, undefined behaviour in Rust.

  \<open>list_rel\<close> relates a heap and a list to the addresses of the nodes in order. The lemmas show that
  the operations follow only valid pointers and implement the operations on sequences.
\<close>

section \<open>Nodes, heap and list\<close>

record 'a lnode =
  ln_next :: "nat option"
  ln_prev :: "nat option"
  ln_element :: 'a

record 'a lheap =
  cells :: "nat \<rightharpoonup> 'a lnode"
  brk :: nat

record LinkedList =
  ll_head :: "nat option"
  ll_tail :: "nat option"
  ll_len :: nat

type_synonym 'a lstate = "'a lheap \<times> LinkedList"

text \<open>\<open>Box::new\<close>, \<open>Box::from_raw\<close> followed by a drop, and assignments through a pointer.\<close>

definition box_new :: "'a lnode \<Rightarrow> 'a lheap \<Rightarrow> nat \<times> 'a lheap" where
  "box_new n h = (brk h, h\<lparr>cells := (cells h)(brk h \<mapsto> n), brk := brk h + 1\<rparr>)"

definition box_free :: "nat \<Rightarrow> 'a lheap \<Rightarrow> 'a lheap" where
  "box_free p h = h\<lparr>cells := (cells h)(p := None)\<rparr>"

definition deref :: "nat \<Rightarrow> 'a lheap \<Rightarrow> 'a lnode option" where
  "deref p h = cells h p"

definition set_next :: "nat \<Rightarrow> nat option \<Rightarrow> 'a lheap \<Rightarrow> 'a lheap option" where
  "set_next p v h = do { n \<leftarrow> deref p h; Some (h\<lparr>cells := (cells h)(p \<mapsto> n\<lparr>ln_next := v\<rparr>)\<rparr>) }"

definition set_prev :: "nat \<Rightarrow> nat option \<Rightarrow> 'a lheap \<Rightarrow> 'a lheap option" where
  "set_prev p v h = do { n \<leftarrow> deref p h; Some (h\<lparr>cells := (cells h)(p \<mapsto> n\<lparr>ln_prev := v\<rparr>)\<rparr>) }"

section \<open>Operations\<close>

definition ll_new :: LinkedList where
  "ll_new = \<lparr>ll_head = None, ll_tail = None, ll_len = 0\<rparr>"

definition node_new :: "'a \<Rightarrow> 'a lnode" where
  "node_new element = \<lparr>ln_next = None, ln_prev = None, ln_element = element\<rparr>"

definition push_front_node :: "nat \<Rightarrow> 'a lstate \<Rightarrow> 'a lstate option" where
  "push_front_node node = (\<lambda>(h, l). do {
     h \<leftarrow> set_next node (ll_head l) h;
     h \<leftarrow> set_prev node None h;
     (h, l) \<leftarrow> (case ll_head l of
        None \<Rightarrow> Some (h, l\<lparr>ll_tail := Some node\<rparr>)
      | Some head \<Rightarrow> do { h \<leftarrow> set_prev head (Some node) h; Some (h, l) });
     Some (h, l\<lparr>ll_head := Some node, ll_len := ll_len l + 1\<rparr>) })"

definition pop_front_node :: "'a lstate \<Rightarrow> (nat option \<times> 'a lstate) option" where
  "pop_front_node = (\<lambda>(h, l). case ll_head l of
     None \<Rightarrow> Some (None, h, l)
   | Some p \<Rightarrow> do {
       node \<leftarrow> deref p h;
       let l = l\<lparr>ll_head := ln_next node\<rparr>;
       (h, l) \<leftarrow> (case ll_head l of
          None \<Rightarrow> Some (h, l\<lparr>ll_tail := None\<rparr>)
        | Some head \<Rightarrow> do { h \<leftarrow> set_prev head None h; Some (h, l) });
       Some (Some p, h, l\<lparr>ll_len := ll_len l - 1\<rparr>) })"

definition push_back_node :: "nat \<Rightarrow> 'a lstate \<Rightarrow> 'a lstate option" where
  "push_back_node node = (\<lambda>(h, l). do {
     h \<leftarrow> set_next node None h;
     h \<leftarrow> set_prev node (ll_tail l) h;
     (h, l) \<leftarrow> (case ll_tail l of
        None \<Rightarrow> Some (h, l\<lparr>ll_head := Some node\<rparr>)
      | Some tail \<Rightarrow> do { h \<leftarrow> set_next tail (Some node) h; Some (h, l) });
     Some (h, l\<lparr>ll_tail := Some node, ll_len := ll_len l + 1\<rparr>) })"

definition pop_back_node :: "'a lstate \<Rightarrow> (nat option \<times> 'a lstate) option" where
  "pop_back_node = (\<lambda>(h, l). case ll_tail l of
     None \<Rightarrow> Some (None, h, l)
   | Some p \<Rightarrow> do {
       node \<leftarrow> deref p h;
       let l = l\<lparr>ll_tail := ln_prev node\<rparr>;
       (h, l) \<leftarrow> (case ll_tail l of
          None \<Rightarrow> Some (h, l\<lparr>ll_head := None\<rparr>)
        | Some tail \<Rightarrow> do { h \<leftarrow> set_next tail None h; Some (h, l) });
       Some (Some p, h, l\<lparr>ll_len := ll_len l - 1\<rparr>) })"

text \<open>The first \<open>match\<close> of \<open>unlink_node\<close> and of the two moves, and the second one.\<close>

definition relink_prev :: "'a lnode \<Rightarrow> 'a lstate \<Rightarrow> 'a lstate option" where
  "relink_prev node = (\<lambda>(h, l). case ln_prev node of
     Some prev \<Rightarrow> do { h \<leftarrow> set_next prev (ln_next node) h; Some (h, l) }
   | None \<Rightarrow> Some (h, l\<lparr>ll_head := ln_next node\<rparr>))"

definition relink_next :: "'a lnode \<Rightarrow> 'a lstate \<Rightarrow> 'a lstate option" where
  "relink_next node = (\<lambda>(h, l). case ln_next node of
     Some nxt \<Rightarrow> do { h \<leftarrow> set_prev nxt (ln_prev node) h; Some (h, l) }
   | None \<Rightarrow> Some (h, l\<lparr>ll_tail := ln_prev node\<rparr>))"

definition unlink_node :: "nat \<Rightarrow> 'a lstate \<Rightarrow> 'a lstate option" where
  "unlink_node p = (\<lambda>(h, l). do {
     node \<leftarrow> deref p h;
     (h, l) \<leftarrow> relink_prev node (h, l);
     (h, l) \<leftarrow> relink_next node (h, l);
     Some (h, l\<lparr>ll_len := ll_len l - 1\<rparr>) })"

definition ll_move_to_head :: "nat \<Rightarrow> 'a lstate \<Rightarrow> 'a lstate option" where
  "ll_move_to_head p = (\<lambda>(h, l).
     if ll_head l = None then Some (h, l)
     else do {
       node \<leftarrow> deref p h;
       if ln_prev node = None then Some (h, l)
       else do {
         (h, l) \<leftarrow> relink_prev node (h, l);
         (h, l) \<leftarrow> relink_next node (h, l);
         h \<leftarrow> set_next p (ll_head l) h;
         h \<leftarrow> set_prev p None h;
         (h, l) \<leftarrow> (case ll_head l of
            None \<Rightarrow> Some (h, l\<lparr>ll_tail := Some p\<rparr>)
          | Some head \<Rightarrow> do { h \<leftarrow> set_prev head (Some p) h; Some (h, l) });
         Some (h, l\<lparr>ll_head := Some p\<rparr>) } })"

definition ll_move_to_tail :: "nat \<Rightarrow> 'a lstate \<Rightarrow> 'a lstate option" where
  "ll_move_to_tail p = (\<lambda>(h, l).
     if ll_head l = None then Some (h, l)
     else do {
       node \<leftarrow> deref p h;
       (h, l) \<leftarrow> relink_prev node (h, l);
       if ln_next node = None then Some (h, l)
       else do {
         (h, l) \<leftarrow> relink_next node (h, l);
         h \<leftarrow> set_next p None h;
         h \<leftarrow> set_prev p (ll_tail l) h;
         (h, l) \<leftarrow> (case ll_tail l of
            None \<Rightarrow> Some (h, l\<lparr>ll_head := Some p\<rparr>)
          | Some tail \<Rightarrow> do { h \<leftarrow> set_next tail (Some p) h; Some (h, l) });
         Some (h, l\<lparr>ll_tail := Some p\<rparr>) } })"

text \<open>Adding and removing elements.\<close>

definition ll_push_front :: "'a \<Rightarrow> 'a lstate \<Rightarrow> 'a lstate option" where
  "ll_push_front elt = (\<lambda>(h, l). case box_new (node_new elt) h of (p, h) \<Rightarrow> push_front_node p (h, l))"

definition ll_push_back :: "'a \<Rightarrow> 'a lstate \<Rightarrow> 'a lstate option" where
  "ll_push_back elt = (\<lambda>(h, l). case box_new (node_new elt) h of (p, h) \<Rightarrow> push_back_node p (h, l))"

definition into_element :: "nat option \<times> 'a lstate \<Rightarrow> ('a option \<times> 'a lstate) option" where
  "into_element = (\<lambda>(p, h, l). case p of
     None \<Rightarrow> Some (None, h, l)
   | Some p \<Rightarrow> do { node \<leftarrow> deref p h; Some (Some (ln_element node), box_free p h, l) })"

definition ll_pop_front :: "'a lstate \<Rightarrow> ('a option \<times> 'a lstate) option" where
  "ll_pop_front s = do { r \<leftarrow> pop_front_node s; into_element r }"

definition ll_pop_back :: "'a lstate \<Rightarrow> ('a option \<times> 'a lstate) option" where
  "ll_pop_back s = do { r \<leftarrow> pop_back_node s; into_element r }"

definition element_at :: "nat option \<Rightarrow> 'a lheap \<Rightarrow> 'a option option" where
  "element_at p h = (case p of None \<Rightarrow> Some None | Some p \<Rightarrow> do { node \<leftarrow> deref p h; Some (Some (ln_element node)) })"

definition ll_front :: "'a lstate \<Rightarrow> 'a option option" where
  "ll_front = (\<lambda>(h, l). element_at (ll_head l) h)"

definition ll_back :: "'a lstate \<Rightarrow> 'a option option" where
  "ll_back = (\<lambda>(h, l). element_at (ll_tail l) h)"

definition ll_is_empty :: "LinkedList \<Rightarrow> bool" where
  "ll_is_empty l \<longleftrightarrow> ll_head l = None"

text \<open>
  \<open>append\<close> moves the nodes of a list with boxes in the same heap. \<open>clear\<close> drops the list: it pops
  nodes from the front until there is none. A chain of nodes without an end is \<open>None\<close> like a pointer to no memory;
  \<open>ll_clear_rel\<close> shows that a list has neither.
\<close>

definition ll_append :: "'a lheap \<times> LinkedList \<times> LinkedList \<Rightarrow> ('a lheap \<times> LinkedList \<times> LinkedList) option" where
  "ll_append = (\<lambda>(h, l, other). case ll_tail l of
     None \<Rightarrow> Some (h, other, l)
   | Some tail \<Rightarrow> (case ll_head other of
       None \<Rightarrow> Some (h, l, other)
     | Some other_head \<Rightarrow> do {
         h \<leftarrow> set_next tail (Some other_head) h;
         h \<leftarrow> set_prev other_head (Some tail) h;
         Some (h, l\<lparr>ll_tail := ll_tail other, ll_len := ll_len l + ll_len other\<rparr>, ll_new) }))"

partial_function (option) drop_nodes :: "'a lstate \<Rightarrow> 'a lstate option" where
  "drop_nodes s = do {
     (p, h, l) \<leftarrow> pop_front_node s;
     case p of None \<Rightarrow> Some (h, l) | Some p \<Rightarrow> drop_nodes (box_free p h, l) }"

definition ll_clear :: "'a lstate \<Rightarrow> 'a lstate option" where
  "ll_clear = (\<lambda>(h, l). do { (h, _) \<leftarrow> drop_nodes (h, l); Some (h, ll_new) })"

section \<open>Iterators\<close>

record LIter =
  it_head :: "nat option"
  it_tail :: "nat option"
  it_len :: nat

definition ll_iter :: "LinkedList \<Rightarrow> LIter" where
  "ll_iter l = \<lparr>it_head = ll_head l, it_tail = ll_tail l, it_len = ll_len l\<rparr>"

definition iter_next :: "'a lheap \<Rightarrow> LIter \<Rightarrow> ('a option \<times> LIter) option" where
  "iter_next h it =
     (if it_len it = 0 then Some (None, it)
      else case it_head it of
        None \<Rightarrow> Some (None, it)
      | Some p \<Rightarrow> do {
          node \<leftarrow> deref p h;
          Some (Some (ln_element node), it\<lparr>it_len := it_len it - 1, it_head := ln_next node\<rparr>) })"

definition iter_next_back :: "'a lheap \<Rightarrow> LIter \<Rightarrow> ('a option \<times> LIter) option" where
  "iter_next_back h it =
     (if it_len it = 0 then Some (None, it)
      else case it_tail it of
        None \<Rightarrow> Some (None, it)
      | Some p \<Rightarrow> do {
          node \<leftarrow> deref p h;
          Some (Some (ln_element node), it\<lparr>it_len := it_len it - 1, it_tail := ln_prev node\<rparr>) })"

text \<open>A loop over an iterator; every step that returns an element takes one off its length.\<close>

function iter_elements :: "'a lheap \<Rightarrow> LIter \<Rightarrow> 'a list option" where
  "iter_elements h it =
     (case iter_next h it of
        None \<Rightarrow> None
      | Some (None, _) \<Rightarrow> Some []
      | Some (Some x, it') \<Rightarrow> map_option (Cons x) (iter_elements h it'))"
  by pat_completeness auto
termination
  by (relation "measure (\<lambda>(h, it). it_len it)")
    (auto simp: iter_next_def split: if_splits option.splits bind_splits)

declare iter_elements.simps [simp del]

definition ll_elements :: "'a lstate \<Rightarrow> 'a list option" where
  "ll_elements = (\<lambda>(h, l). iter_elements h (ll_iter l))"

definition ll_contains :: "'a \<Rightarrow> 'a lstate \<Rightarrow> bool option" where
  "ll_contains x s = map_option (\<lambda>xs. x \<in> set xs) (ll_elements s)"

section \<open>Chains of nodes\<close>

fun first_of :: "nat option \<Rightarrow> (nat \<times> 'a) list \<Rightarrow> nat option" where
  "first_of d [] = d"
| "first_of d ((p, x) # ns) = Some p"

fun last_of :: "nat option \<Rightarrow> (nat \<times> 'a) list \<Rightarrow> nat option" where
  "last_of d [] = d"
| "last_of d ((p, x) # ns) = last_of (Some p) ns"

text \<open>The nodes at the given addresses hold the given elements and are linked both ways.\<close>

fun dlseg :: "(nat \<rightharpoonup> 'a lnode) \<Rightarrow> nat option \<Rightarrow> (nat \<times> 'a) list \<Rightarrow> nat option \<Rightarrow> bool" where
  "dlseg c pr [] nx \<longleftrightarrow> True"
| "dlseg c pr ((p, x) # ns) nx \<longleftrightarrow>
     c p = Some \<lparr>ln_next = first_of nx ns, ln_prev = pr, ln_element = x\<rparr> \<and> dlseg c (Some p) ns nx"

fun below :: "nat \<Rightarrow> (nat \<times> 'a) list \<Rightarrow> bool" where
  "below b [] \<longleftrightarrow> True"
| "below b ((p, x) # ns) \<longleftrightarrow> p < b \<and> below b ns"

definition list_rel :: "'a lstate \<Rightarrow> (nat \<times> 'a) list \<Rightarrow> bool" where
  "list_rel s ns \<longleftrightarrow> (case s of (h, l) \<Rightarrow>
     distinct (map fst ns) \<and> below (brk h) ns \<and> dlseg (cells h) None ns None
     \<and> ll_head l = first_of None ns \<and> ll_tail l = last_of None ns \<and> ll_len l = length ns)"

lemma below_append [simp]: "below b (as @ bs) \<longleftrightarrow> below b as \<and> below b bs"
  by (induction as) auto

lemma below_Suc [simp]: "below b ns \<Longrightarrow> below (Suc b) ns"
  by (induction ns) auto

lemma below_fresh: "below b ns \<Longrightarrow> b \<notin> fst ` set ns"
  by (induction ns rule: below.induct) auto

lemma first_of_append [simp]: "first_of d (as @ bs) = first_of (first_of d bs) as"
  by (cases as) auto

lemma last_of_append [simp]: "last_of d (as @ bs) = last_of (last_of d as) bs"
  by (induction as arbitrary: d) auto

lemma first_of_eq_None [simp]: "first_of d ns = None \<longleftrightarrow> ns = [] \<and> d = None"
  by (cases ns) auto

lemma last_of_eq_None [simp]: "last_of d ns = None \<longleftrightarrow> ns = [] \<and> d = None"
  by (cases ns rule: rev_cases) auto

lemma dlseg_append [simp]:
  "dlseg c pr (as @ bs) nx \<longleftrightarrow> dlseg c pr as (first_of nx bs) \<and> dlseg c (last_of pr as) bs nx"
  by (induction as arbitrary: pr) auto

lemma dlseg_upd [simp]: "p \<notin> fst ` set ns \<Longrightarrow> dlseg (c(p := n)) pr ns nx = dlseg c pr ns nx"
  by (induction ns arbitrary: pr) auto

lemma dlseg_cong: "(\<And>p. p \<in> fst ` set ns \<Longrightarrow> c p = c' p) \<Longrightarrow> dlseg c pr ns nx = dlseg c' pr ns nx"
  by (induction ns arbitrary: pr) (auto simp: image_iff)

lemma set_next_eq [simp]:
  "cells h p = Some n \<Longrightarrow> set_next p v h = Some (h\<lparr>cells := (cells h)(p \<mapsto> n\<lparr>ln_next := v\<rparr>)\<rparr>)"
  by (simp add: set_next_def deref_def)

lemma set_prev_eq [simp]:
  "cells h p = Some n \<Longrightarrow> set_prev p v h = Some (h\<lparr>cells := (cells h)(p \<mapsto> n\<lparr>ln_prev := v\<rparr>)\<rparr>)"
  by (simp add: set_prev_def deref_def)

lemmas ll_op_defs = box_new_def box_free_def deref_def node_new_def push_front_node_def pop_front_node_def
  push_back_node_def pop_back_node_def relink_prev_def relink_next_def into_element_def element_at_def

section \<open>The operations implement sequences\<close>

lemma ll_new_rel: "list_rel (h, ll_new) []"
  by (simp add: list_rel_def ll_new_def)

lemma list_rel_unique: "list_rel s ns \<Longrightarrow> list_rel s ns' \<Longrightarrow> ns = ns'"
proof -
  have "dlseg c pr ns None \<Longrightarrow> dlseg c pr ns' None \<Longrightarrow> first_of None ns = first_of None ns' \<Longrightarrow> ns = ns'" for c pr
    by (induction ns arbitrary: ns' pr) (case_tac ns'; force)+
  then show "list_rel s ns \<Longrightarrow> list_rel s ns' \<Longrightarrow> ns = ns'"
    by (auto simp: list_rel_def split: prod.splits)
qed

lemma push_front_node_rel:
  assumes "list_rel (h, l) ns" "cells h p = Some n" "p \<notin> fst ` set ns" "p < brk h"
  shows "\<exists>h' l'. push_front_node p (h, l) = Some (h', l') \<and> list_rel (h', l') ((p, ln_element n) # ns)
    \<and> brk h' = brk h"
  using assms by (cases ns) (auto simp: ll_op_defs list_rel_def)

lemma push_back_node_rel:
  assumes "list_rel (h, l) ns" "cells h p = Some n" "p \<notin> fst ` set ns" "p < brk h"
  shows "\<exists>h' l'. push_back_node p (h, l) = Some (h', l') \<and> list_rel (h', l') (ns @ [(p, ln_element n)])
    \<and> brk h' = brk h"
  using assms by (cases ns rule: rev_cases) (auto simp: ll_op_defs list_rel_def)

lemma box_new_rel:
  assumes "list_rel (h, l) ns" "box_new n h = (p, h')"
  shows "list_rel (h', l) ns" "cells h' p = Some n" "p \<notin> fst ` set ns" "p < brk h'" "p = brk h"
  using assms below_fresh [of "brk h" ns] by (auto simp: list_rel_def box_new_def)

lemma ll_push_front_rel:
  assumes "list_rel (h, l) ns"
  obtains h' l' where "ll_push_front x (h, l) = Some (h', l')" "list_rel (h', l') ((brk h, x) # ns)"
proof -
  obtain p h1 where b: "box_new (node_new x) h = (p, h1)" by (cases "box_new (node_new x) h")
  show ?thesis using push_front_node_rel [OF box_new_rel(1-4) [OF assms b]] box_new_rel(5) [OF assms b] b that
    by (auto simp: ll_push_front_def node_new_def)
qed

lemma ll_push_back_rel:
  assumes "list_rel (h, l) ns"
  obtains h' l' where "ll_push_back x (h, l) = Some (h', l')" "list_rel (h', l') (ns @ [(brk h, x)])"
proof -
  obtain p h1 where b: "box_new (node_new x) h = (p, h1)" by (cases "box_new (node_new x) h")
  show ?thesis using push_back_node_rel [OF box_new_rel(1-4) [OF assms b]] box_new_rel(5) [OF assms b] b that
    by (auto simp: ll_push_back_def node_new_def)
qed

lemma ll_pop_front_rel:
  assumes "list_rel (h, l) ((p, x) # ns)"
  obtains h' l' where "ll_pop_front (h, l) = Some (Some x, h', l')" "list_rel (h', l') ns"
proof -
  have "\<exists>h' l'. ll_pop_front (h, l) = Some (Some x, h', l') \<and> list_rel (h', l') ns"
    using assms by (cases ns) (auto simp: ll_pop_front_def ll_op_defs list_rel_def)
  then show ?thesis using that by blast
qed

lemma ll_pop_back_rel:
  assumes "list_rel (h, l) (ns @ [(p, x)])"
  obtains h' l' where "ll_pop_back (h, l) = Some (Some x, h', l')" "list_rel (h', l') ns"
proof -
  have "\<exists>h' l'. ll_pop_back (h, l) = Some (Some x, h', l') \<and> list_rel (h', l') ns"
    using assms by (cases ns rule: rev_cases) (auto simp: ll_pop_back_def ll_op_defs list_rel_def)
  then show ?thesis using that by blast
qed

lemma ll_pop_empty:
  "list_rel (h, l) [] \<Longrightarrow> ll_pop_front (h, l) = Some (None, h, l)"
  "list_rel (h, l) [] \<Longrightarrow> ll_pop_back (h, l) = Some (None, h, l)"
  by (simp_all add: list_rel_def ll_pop_front_def ll_pop_back_def ll_op_defs)

lemma ll_ends:
  "list_rel (h, l) ns \<Longrightarrow> ll_front (h, l) = Some (map_option snd (case ns of [] \<Rightarrow> None | n # _ \<Rightarrow> Some n))"
  "list_rel (h, l) (ns @ [(p, x)]) \<Longrightarrow> ll_back (h, l) = Some (Some x)"
  by (cases ns; auto simp: list_rel_def ll_front_def ll_op_defs)
    (auto simp: list_rel_def ll_back_def ll_op_defs)

lemma unlink_node_rel:
  assumes "list_rel (h, l) (as @ (p, x) # bs)"
  shows "\<exists>h' l'. unlink_node p (h, l) = Some (h', l') \<and> list_rel (h', l') (as @ bs)
    \<and> cells h' p = cells h p \<and> brk h' = brk h"
  using assms
  by (cases as rule: rev_cases; cases bs) (auto simp: unlink_node_def ll_op_defs list_rel_def)

text \<open>A move is an unlinking followed by a push, except that the head stays where it is.\<close>

lemma ll_move_to_head_alt:
  assumes "list_rel (h, l) (as @ (p, x) # bs)" "as \<noteq> []"
  shows "ll_move_to_head p (h, l) = do { s \<leftarrow> unlink_node p (h, l); push_front_node p s }"
  using assms
  by (cases as rule: rev_cases; cases bs)
    (auto simp: ll_move_to_head_def unlink_node_def ll_op_defs list_rel_def split: option.splits bind_splits)

lemma list_rel_node:
  assumes "list_rel (h, l) (as @ (p, x) # bs)"
  shows "\<exists>n. cells h p = Some n \<and> ln_element n = x" "p \<notin> fst ` set (as @ bs)" "p < brk h"
  using assms by (auto simp: list_rel_def)

lemma ll_move_to_head_rel:
  assumes "list_rel (h, l) (as @ (p, x) # bs)"
  shows "\<exists>h' l'. ll_move_to_head p (h, l) = Some (h', l') \<and> list_rel (h', l') ((p, x) # as @ bs)"
proof (cases "as = []")
  case True
  then show ?thesis using assms by (auto simp: ll_move_to_head_def ll_op_defs list_rel_def)
next
  case False
  obtain n where n: "cells h p = Some n" "ln_element n = x" using list_rel_node(1) [OF assms] by blast
  obtain h1 l1 where u: "unlink_node p (h, l) = Some (h1, l1)" "list_rel (h1, l1) (as @ bs)"
      "cells h1 p = Some n" "brk h1 = brk h"
    using unlink_node_rel [OF assms] n by auto
  show ?thesis
    using push_front_node_rel [OF u(2,3)] list_rel_node(2,3) [OF assms] u
    by (auto simp: ll_move_to_head_alt [OF assms False] n)
qed

lemma ll_move_to_tail_alt:
  assumes "list_rel (h, l) (as @ (p, x) # bs)" "bs \<noteq> []"
  shows "ll_move_to_tail p (h, l) = do { s \<leftarrow> unlink_node p (h, l); push_back_node p s }"
  using assms
  by (cases as rule: rev_cases; cases bs)
    (auto simp: ll_move_to_tail_def unlink_node_def ll_op_defs list_rel_def split: option.splits bind_splits)

lemma ll_move_to_tail_rel:
  assumes "list_rel (h, l) (as @ (p, x) # bs)" "bs \<noteq> []"
  shows "\<exists>h' l'. ll_move_to_tail p (h, l) = Some (h', l') \<and> list_rel (h', l') (as @ bs @ [(p, x)])"
proof -
  obtain n where n: "cells h p = Some n" "ln_element n = x" using list_rel_node(1) [OF assms(1)] by blast
  obtain h1 l1 where u: "unlink_node p (h, l) = Some (h1, l1)" "list_rel (h1, l1) (as @ bs)"
      "cells h1 p = Some n" "brk h1 = brk h"
    using unlink_node_rel [OF assms(1)] n by auto
  show ?thesis
    using push_back_node_rel [OF u(2,3)] list_rel_node(2,3) [OF assms(1)] u
    by (auto simp: ll_move_to_tail_alt [OF assms] n)
qed

lemma ll_append_rel:
  assumes "list_rel (h, l) ns" "list_rel (h, other) ms" "fst ` set ns \<inter> fst ` set ms = {}"
  shows "\<exists>h' l' other'. ll_append (h, l, other) = Some (h', l', other')
    \<and> list_rel (h', l') (ns @ ms) \<and> list_rel (h', other') []"
  using assms
  by (cases ns rule: rev_cases; cases ms) (auto simp: ll_append_def list_rel_def ll_new_def)

lemma pop_front_node_rel:
  assumes "list_rel (h, l) ((p, x) # ns)"
  shows "\<exists>h' l'. pop_front_node (h, l) = Some (Some p, h', l') \<and> list_rel (box_free p h', l') ns"
  using assms by (cases ns) (auto simp: ll_op_defs list_rel_def)

lemma drop_nodes_rel:
  "list_rel (h, l) ns \<Longrightarrow> \<exists>h' l'. drop_nodes (h, l) = Some (h', l') \<and> list_rel (h', l') []"
proof (induction ns arbitrary: h l)
  case (Cons n ns)
  obtain p x where n: "n = (p, x)" by (cases n)
  from pop_front_node_rel [OF Cons.prems [unfolded n]] obtain h1 l1 where
    "pop_front_node (h, l) = Some (Some p, h1, l1)" "list_rel (box_free p h1, l1) ns" by blast
  then show ?case using Cons.IH by (subst drop_nodes.simps) simp
next
  case Nil
  then have "pop_front_node (h, l) = Some (None, h, l)" by (simp add: pop_front_node_def list_rel_def)
  then show ?case using Nil by (subst drop_nodes.simps) simp
qed

lemma ll_clear_rel:
  assumes "list_rel (h, l) ns"
  shows "\<exists>h'. ll_clear (h, l) = Some (h', ll_new) \<and> list_rel (h', ll_new) []"
  using drop_nodes_rel [OF assms] by (auto simp: ll_clear_def ll_new_rel)

lemma iter_elements_seg:
  "dlseg (cells h) pr ns None \<Longrightarrow> length ns \<le> k
    \<Longrightarrow> iter_elements h \<lparr>it_head = first_of None ns, it_tail = t, it_len = k\<rparr> = Some (map snd ns)"
proof (induction ns arbitrary: pr k)
  case Nil
  show ?case by (subst iter_elements.simps) (simp add: iter_next_def)
next
  case (Cons n ns)
  obtain p x where n: "n = (p, x)" by (cases n)
  show ?case using Cons by (subst iter_elements.simps) (auto simp: n iter_next_def deref_def)
qed

lemma ll_elements_rel: "list_rel s ns \<Longrightarrow> ll_elements s = Some (map snd ns)"
  by (auto simp: list_rel_def ll_elements_def ll_iter_def iter_elements_seg)

text \<open>The iterator walks the list backwards as well.\<close>

lemma iter_next_back_seg:
  assumes "dlseg (cells h) None (ns @ [(p, x)]) None"
  shows "iter_next_back h \<lparr>it_head = f, it_tail = last_of None (ns @ [(p, x)]), it_len = length (ns @ [(p, x)])\<rparr>
    = Some (Some x, \<lparr>it_head = f, it_tail = last_of None ns, it_len = length ns\<rparr>)"
  using assms by (simp add: iter_next_back_def deref_def)

section \<open>Properties\<close>

definition ll_ok :: "'a lstate \<Rightarrow> bool" where
  "ll_ok s \<longleftrightarrow> (\<exists>ns. list_rel s ns)"

definition ll_seq :: "'a lstate \<Rightarrow> 'a list" where
  "ll_seq s = the (ll_elements s)"

lemma ll_seq_rel: "list_rel s ns \<Longrightarrow> ll_ok s \<and> ll_seq s = map snd ns"
  by (auto simp: ll_ok_def ll_seq_def ll_elements_rel)

text \<open>
  C37: on a well formed list the operations follow valid pointers only, keep the list well formed and
  implement the operations on sequences: both pushes and both pops, the two ends, the length,
  clearing, and the iteration.
\<close>

theorem linked_list_refines:
  assumes "ll_ok (h, l)"
  shows "ll_elements (h, l) = Some (ll_seq (h, l)) \<and> ll_len l = length (ll_seq (h, l))
    \<and> (ll_is_empty l \<longleftrightarrow> ll_seq (h, l) = [])
    \<and> (\<exists>s. ll_push_front x (h, l) = Some s \<and> ll_ok s \<and> ll_seq s = x # ll_seq (h, l))
    \<and> (\<exists>s. ll_push_back x (h, l) = Some s \<and> ll_ok s \<and> ll_seq s = ll_seq (h, l) @ [x])
    \<and> (\<exists>s. ll_pop_front (h, l) = Some (if ll_seq (h, l) = [] then None else Some (hd (ll_seq (h, l))), s)
          \<and> ll_ok s \<and> ll_seq s = tl (ll_seq (h, l)))
    \<and> (\<exists>s. ll_pop_back (h, l) = Some (if ll_seq (h, l) = [] then None else Some (last (ll_seq (h, l))), s)
          \<and> ll_ok s \<and> ll_seq s = butlast (ll_seq (h, l)))
    \<and> (\<exists>s. ll_clear (h, l) = Some s \<and> ll_ok s \<and> ll_seq s = [])"
proof -
  obtain ns where ns: "list_rel (h, l) ns" using assms by (auto simp: ll_ok_def)
  note sq = ll_seq_rel [OF ns]
  have "\<exists>s. ll_push_front x (h, l) = Some s \<and> ll_ok s \<and> ll_seq s = x # ll_seq (h, l)"
    by (rule ll_push_front_rel [OF ns, of x]) (use sq ll_seq_rel in fastforce)
  moreover have "\<exists>s. ll_push_back x (h, l) = Some s \<and> ll_ok s \<and> ll_seq s = ll_seq (h, l) @ [x]"
    by (rule ll_push_back_rel [OF ns, of x]) (use sq ll_seq_rel in fastforce)
  moreover have "\<exists>s. ll_pop_front (h, l) = Some (if ll_seq (h, l) = [] then None else Some (hd (ll_seq (h, l))), s)
      \<and> ll_ok s \<and> ll_seq s = tl (ll_seq (h, l))"
  proof (cases ns)
    case Nil
    then show ?thesis using sq ns assms by (simp add: ll_pop_empty)
  next
    case (Cons n ms)
    obtain p y where n: "n = (p, y)" by (cases n)
    show ?thesis by (rule ll_pop_front_rel [of h l p y ms]) (use ns sq Cons n ll_seq_rel in fastforce)+
  qed
  moreover have "\<exists>s. ll_pop_back (h, l) = Some (if ll_seq (h, l) = [] then None else Some (last (ll_seq (h, l))), s)
      \<and> ll_ok s \<and> ll_seq s = butlast (ll_seq (h, l))"
  proof (cases ns rule: rev_cases)
    case Nil
    then show ?thesis using sq ns assms by (simp add: ll_pop_empty)
  next
    case (snoc ms n)
    obtain p y where n: "n = (p, y)" by (cases n)
    show ?thesis by (rule ll_pop_back_rel [of h l ms p y]) (use ns sq snoc n ll_seq_rel in fastforce)+
  qed
  moreover have "\<exists>s. ll_clear (h, l) = Some s \<and> ll_ok s \<and> ll_seq s = []"
    using ll_clear_rel [OF ns] ll_seq_rel by fastforce
  moreover have "ll_elements (h, l) = Some (ll_seq (h, l))" using sq ll_elements_rel [OF ns] by simp
  moreover have "ll_len l = length (ll_seq (h, l))" "ll_is_empty l \<longleftrightarrow> ll_seq (h, l) = []"
    using ns sq by (simp_all add: list_rel_def ll_is_empty_def)
  ultimately show ?thesis by blast
qed

text \<open>
  C38: moving a node that has a successor to the tail moves it there, but moving the tail itself
  cuts it off: the node before it loses its successor while the tail pointer and the length stay,
  so that a walk over the list misses the last element.
\<close>

theorem move_to_tail_cuts_tail:
  assumes "list_rel (h, l) (as @ [(p, x)])" "as \<noteq> []"
  shows "\<exists>h' l'. ll_move_to_tail p (h, l) = Some (h', l') \<and> ll_len l' = length as + 1
    \<and> ll_tail l' = Some p \<and> ll_elements (h', l') = Some (map snd as)"
proof -
  obtain bs q y where as: "as = bs @ [(q, y)]" using assms(2) by (metis rev_exhaust surj_pair)
  let ?h = "h\<lparr>cells := (cells h)(q \<mapsto> \<lparr>ln_next = None, ln_prev = last_of None bs, ln_element = y\<rparr>)\<rparr>"
  have run: "ll_move_to_tail p (h, l) = Some (?h, l)"
    using assms(1) by (auto simp: as ll_move_to_tail_def ll_op_defs list_rel_def)
  have "dlseg (cells ?h) None as None" using assms(1) by (auto simp: as list_rel_def)
  from iter_elements_seg [OF this, of "length as + 1"]
  show ?thesis using run assms(1) by (simp add: ll_elements_def ll_iter_def list_rel_def as)
qed

section \<open>A concrete list\<close>

definition demo_lheap :: "nat lheap" where
  "demo_lheap = \<lparr>cells = [0 \<mapsto> \<lparr>ln_next = Some 1, ln_prev = None, ln_element = 10\<rparr>,
                         1 \<mapsto> \<lparr>ln_next = None, ln_prev = Some 0, ln_element = 20\<rparr>], brk = 2\<rparr>"

definition demo_llist :: LinkedList where
  "demo_llist = \<lparr>ll_head = Some 0, ll_tail = Some 1, ll_len = 2\<rparr>"

lemma demo_llist_rel: "list_rel (demo_lheap, demo_llist) ([(0, 10)] @ [(1, 20)])"
  by (simp add: list_rel_def demo_lheap_def demo_llist_def)

theorem linked_list_refines_witness:
  "ll_ok (demo_lheap, demo_llist) \<and> ll_seq (demo_lheap, demo_llist) = [10, 20]
   \<and> (\<exists>s. ll_pop_back (demo_lheap, demo_llist) = Some (Some 20, s) \<and> ll_seq s = [10])"
proof -
  have sq: "ll_ok (demo_lheap, demo_llist)" "ll_seq (demo_lheap, demo_llist) = [10, 20]"
    using ll_seq_rel [OF demo_llist_rel] by simp_all
  then show ?thesis using linked_list_refines [OF sq(1), of 0] by auto
qed

theorem move_to_tail_cuts_tail_witness:
  "\<exists>h' l'. ll_move_to_tail 1 (demo_lheap, demo_llist) = Some (h', l') \<and> ll_len l' = 2
     \<and> ll_elements (h', l') = Some [10]"
  using move_to_tail_cuts_tail [OF demo_llist_rel] by auto

end
