(* ===== verification/Lru_Cache.thy ===== *)
theory Lru_Cache
  imports Linked_List
begin

text \<open>
  The cache of file nodes, \<open>sgx_protected_fs/tfs/src/sys/cache/mod.rs\<close>: a linked list of keys in the
  order of use and a hash map from keys to the list node and the value. The locale \<open>node_cache\<close> states
  what its client, the protected file, relies on, in terms of the key-value pairs in order of
  use; its interpretation on the operations of the cache discharges the laws.
\<close>

section \<open>State and operations\<close>

record 'v LruEntry =
  le_node_ref :: nat
  le_value :: 'v

record 'v LruCache =
  lc_heap :: "nat lheap"
  lc_list :: LinkedList
  lc_map :: "nat \<rightharpoonup> 'v LruEntry"
  lc_max_size :: usize

abbreviation lc_lstate :: "'v LruCache \<Rightarrow> nat lstate" where
  "lc_lstate c \<equiv> (lc_heap c, lc_list c)"

definition with_list :: "nat lstate \<Rightarrow> 'v LruCache \<Rightarrow> 'v LruCache" where
  "with_list s c = c\<lparr>lc_heap := fst s, lc_list := snd s\<rparr>"

definition cache_new :: "usize \<Rightarrow> 'v LruCache" where
  "cache_new capacity =
     \<lparr>lc_heap = \<lparr>cells = Map.empty, brk = 0\<rparr>, lc_list = ll_new, lc_map = Map.empty, lc_max_size = capacity\<rparr>"

definition cache_len :: "'v LruCache \<Rightarrow> usize" where
  "cache_len c = ll_len (lc_list c)"

definition cache_is_empty :: "'v LruCache \<Rightarrow> bool" where
  "cache_is_empty c = ll_is_empty (lc_list c)"

definition cache_push :: "nat \<Rightarrow> 'v \<Rightarrow> 'v LruCache \<Rightarrow> (bool \<times> 'v LruCache) option" where
  "cache_push key v c =
     (if lc_map c key = None then do {
        s \<leftarrow> ll_push_front key (lc_lstate c);
        node_ref \<leftarrow> ll_head (snd s);
        Some (True, (with_list s c)\<lparr>lc_map := (lc_map c)(key \<mapsto> \<lparr>le_node_ref = node_ref, le_value = v\<rparr>)\<rparr>) }
      else Some (False, c))"

definition cache_find :: "nat \<Rightarrow> 'v LruCache \<Rightarrow> 'v option" where
  "cache_find key c = map_option le_value (lc_map c key)"

text \<open>The map removes the key and yields the value of its entry.\<close>

definition take_entry :: "nat option \<Rightarrow> 'v LruCache \<Rightarrow> 'v option \<times> 'v LruCache" where
  "take_entry key c = (case key of
     None \<Rightarrow> (None, c)
   | Some k \<Rightarrow> (map_option le_value (lc_map c k), c\<lparr>lc_map := (lc_map c)(k := None)\<rparr>))"

definition cache_pop_front :: "'v LruCache \<Rightarrow> ('v option \<times> 'v LruCache) option" where
  "cache_pop_front c = do { (key, s) \<leftarrow> ll_pop_front (lc_lstate c); Some (take_entry key (with_list s c)) }"

definition cache_pop_back :: "'v LruCache \<Rightarrow> ('v option \<times> 'v LruCache) option" where
  "cache_pop_back c = do { (key, s) \<leftarrow> ll_pop_back (lc_lstate c); Some (take_entry key (with_list s c)) }"

definition cache_front :: "'v LruCache \<Rightarrow> 'v option option" where
  "cache_front c = do { key \<leftarrow> ll_front (lc_lstate c); Some (do { k \<leftarrow> key; cache_find k c }) }"

definition cache_back :: "'v LruCache \<Rightarrow> 'v option option" where
  "cache_back c = do { key \<leftarrow> ll_back (lc_lstate c); Some (do { k \<leftarrow> key; cache_find k c }) }"

definition cache_move_to_head :: "nat \<Rightarrow> 'v LruCache \<Rightarrow> 'v LruCache option" where
  "cache_move_to_head key c = (case lc_map c key of
     None \<Rightarrow> Some c
   | Some entry \<Rightarrow> do { s \<leftarrow> ll_move_to_head (le_node_ref entry) (lc_lstate c); Some (with_list s c) })"

definition cache_move_to_tail :: "nat \<Rightarrow> 'v LruCache \<Rightarrow> 'v LruCache option" where
  "cache_move_to_tail key c = (case lc_map c key of
     None \<Rightarrow> Some c
   | Some entry \<Rightarrow> do { s \<leftarrow> ll_move_to_tail (le_node_ref entry) (lc_lstate c); Some (with_list s c) })"

text \<open>\<open>for _ in capacity..self.len()\<close> takes the bound before the first turn.\<close>

fun pop_backs :: "nat \<Rightarrow> 'v LruCache \<Rightarrow> 'v LruCache option" where
  "pop_backs 0 c = Some c"
| "pop_backs (Suc n) c = do { (_, c) \<leftarrow> cache_pop_back c; pop_backs n c }"

definition change_capacity :: "usize \<Rightarrow> 'v LruCache \<Rightarrow> 'v LruCache option" where
  "change_capacity capacity c = do {
     c \<leftarrow> (if capacity < cache_len c then pop_backs (cache_len c - capacity) c else Some c);
     Some (c\<lparr>lc_max_size := capacity\<rparr>) }"

definition cache_clear :: "'v LruCache \<Rightarrow> 'v LruCache option" where
  "cache_clear c = do { s \<leftarrow> ll_clear (lc_lstate c); Some ((with_list s c)\<lparr>lc_map := Map.empty\<rparr>) }"

text \<open>
  The values an iteration yields: \<open>next\<close> looks every key up and ends at the first key without a value.
\<close>

fun values_of :: "(nat \<rightharpoonup> 'v LruEntry) \<Rightarrow> nat list \<Rightarrow> 'v list" where
  "values_of m [] = []"
| "values_of m (k # ks) = (case m k of None \<Rightarrow> [] | Some e \<Rightarrow> le_value e # values_of m ks)"

definition cache_iter :: "'v LruCache \<Rightarrow> 'v list option" where
  "cache_iter c = do { ks \<leftarrow> ll_elements (lc_lstate c); Some (values_of (lc_map c) ks) }"

section \<open>The cache as a sequence of key-value pairs\<close>

abbreviation node_of :: "nat \<times> 'v LruEntry \<Rightarrow> nat \<times> nat" where
  "node_of ke \<equiv> (le_node_ref (snd ke), fst ke)"

abbreviation pair_of :: "nat \<times> 'v LruEntry \<Rightarrow> nat \<times> 'v" where
  "pair_of ke \<equiv> (fst ke, le_value (snd ke))"

text \<open>The map holds the entries of the list, each with the address of its node.\<close>

definition lru_rel :: "'v LruCache \<Rightarrow> (nat \<times> 'v LruEntry) list \<Rightarrow> bool" where
  "lru_rel c es \<longleftrightarrow> list_rel (lc_lstate c) (map node_of es) \<and> distinct (map fst es) \<and> lc_map c = map_of es"

definition lru_ok :: "'v LruCache \<Rightarrow> bool" where
  "lru_ok c \<longleftrightarrow> (\<exists>es. lru_rel c es)"

definition entries :: "'v LruCache \<Rightarrow> (nat \<times> 'v) list" where
  "entries c = map (\<lambda>k. (k, le_value (the (lc_map c k)))) (ll_seq (lc_lstate c))"

lemma entries_rel:
  assumes "lru_rel c es"
  shows "lru_ok c \<and> entries c = map pair_of es"
proof -
  have "ll_seq (lc_lstate c) = map fst es"
    using assms ll_seq_rel [of "lc_lstate c" "map node_of es"] by (simp add: lru_rel_def comp_def)
  moreover have "le_value (the (lc_map c (fst ke))) = le_value (snd ke)" if "ke \<in> set es" for ke
  proof -
    have "map_of es (fst ke) = Some (snd ke)"
      by (rule map_of_is_SomeI) (use assms that in \<open>simp_all add: lru_rel_def\<close>)
    then show ?thesis using assms by (simp add: lru_rel_def del: map_of_eq_Some_iff)
  qed
  ultimately show ?thesis using assms by (auto simp: entries_def lru_ok_def)
qed

lemma lru_okE:
  assumes "lru_ok c"
  obtains es where "lru_rel c es" "entries c = map pair_of es"
  using assms entries_rel by (auto simp: lru_ok_def)

lemma cache_new_ok: "lru_ok (cache_new n :: 'v LruCache) \<and> entries (cache_new n :: 'v LruCache) = []"
proof -
  have "lru_rel (cache_new n :: 'v LruCache) []" by (simp add: lru_rel_def cache_new_def ll_new_rel)
  from entries_rel [OF this] show ?thesis by simp
qed

lemma cache_keys_distinct: "lru_ok c \<Longrightarrow> distinct (map fst (entries c))"
  by (erule lru_okE) (simp add: lru_rel_def comp_def)

lemma cache_len_entries: "lru_ok c \<Longrightarrow> cache_len c = length (entries c)"
  by (erule lru_okE) (simp add: lru_rel_def list_rel_def cache_len_def)

lemma map_of_mid: "k \<notin> fst ` set as \<Longrightarrow> map_of (as @ (k, e) # bs) = (map_of (as @ bs))(k \<mapsto> e)"
  by (induction as) (auto simp: fun_upd_twist)

lemma map_of_pairs: "map_of (map pair_of es) k = map_option le_value (map_of es k)"
  by (induction es) auto

lemma cache_find_entries: "lru_ok c \<Longrightarrow> cache_find k c = map_of (entries c) k"
  by (erule lru_okE) (simp add: lru_rel_def cache_find_def map_of_pairs)

lemma lc_map_None: "lru_ok c \<Longrightarrow> lc_map c k = None \<longleftrightarrow> k \<notin> fst ` set (entries c)"
  using cache_find_entries [of c k] map_of_eq_None_iff [of "entries c" k] by (auto simp: cache_find_def)

lemma cache_push_entries:
  assumes "lru_ok c"
  shows "\<exists>c'. cache_push k v c = Some (k \<notin> fst ` set (entries c), c') \<and> lru_ok c'
    \<and> entries c' = (if k \<in> fst ` set (entries c) then entries c else (k, v) # entries c)"
proof (cases "k \<in> fst ` set (entries c)")
  case False
  obtain es where es: "lru_rel c es" "entries c = map pair_of es" using lru_okE [OF assms] .
  have l: "list_rel (lc_lstate c) (map node_of es)" using es(1) by (simp add: lru_rel_def)
  obtain h l where s: "ll_push_front k (lc_lstate c) = Some (h, l)"
      "list_rel (h, l) ((brk (lc_heap c), k) # map node_of es)"
    using ll_push_front_rel [OF l] by blast
  let ?e = "\<lparr>le_node_ref = brk (lc_heap c), le_value = v\<rparr>"
  have "k \<notin> fst ` set es" using False es(2) by (simp add: image_image)
  then have "lru_rel ((with_list (h, l) c)\<lparr>lc_map := (lc_map c)(k \<mapsto> ?e)\<rparr>) ((k, ?e) # es)"
    using es(1) s(2) by (simp add: lru_rel_def with_list_def)
  moreover have "ll_head l = Some (brk (lc_heap c))" using s(2) by (simp add: list_rel_def)
  ultimately show ?thesis
    using entries_rel s(1) es(2) False lc_map_None [OF assms] by (fastforce simp: cache_push_def)
qed (use lc_map_None [OF assms] assms in \<open>auto simp: cache_push_def\<close>)

lemma cache_pop_back_entries:
  assumes "lru_ok c" "entries c = xs @ [(k, v)]"
  shows "\<exists>c'. cache_pop_back c = Some (Some v, c') \<and> lru_ok c' \<and> entries c' = xs"
proof -
  obtain es where es: "lru_rel c es" "entries c = map pair_of es" using lru_okE [OF assms(1)] .
  obtain ds e where ds: "es = ds @ [(k, e)]" "xs = map pair_of ds" "v = le_value e"
    using es(2) assms(2) by (cases es rule: rev_cases) auto
  obtain h l where s: "ll_pop_back (lc_lstate c) = Some (Some k, h, l)" "list_rel (h, l) (map node_of ds)"
    by (rule ll_pop_back_rel [of "lc_heap c" "lc_list c" "map node_of ds" "le_node_ref e" k])
      (use es(1) in \<open>auto simp: lru_rel_def ds\<close>)
  have k: "k \<notin> fst ` set ds" "distinct (map fst ds)" "lc_map c = map_of es"
    using es(1) by (auto simp: lru_rel_def ds)
  have "lc_map c k = Some e" "(lc_map c)(k := None) = map_of ds"
    using k map_of_mid [of k ds e "[]"] by (auto simp: ds map_of_eq_None_iff fun_upd_idem)
  moreover from this have "lru_rel ((with_list (h, l) c)\<lparr>lc_map := (lc_map c)(k := None)\<rparr>) ds"
    using k(2) s(2) by (simp add: lru_rel_def with_list_def)
  ultimately show ?thesis
    using s(1) entries_rel by (fastforce simp: cache_pop_back_def take_entry_def with_list_def ds)
qed

lemma cache_back_entries:
  assumes "lru_ok c" "entries c = xs @ [(k, v)]"
  shows "cache_back c = Some (Some v)"
proof -
  obtain es where es: "lru_rel c es" "entries c = map pair_of es" using lru_okE [OF assms(1)] .
  obtain ds e where ds: "es = ds @ [(k, e)]" using es(2) assms(2) by (cases es rule: rev_cases) auto
  have "ll_back (lc_lstate c) = Some (Some k)"
    using ll_ends(2) [of "lc_heap c" "lc_list c" "map node_of ds" "le_node_ref e" k] es(1)
    by (simp add: lru_rel_def ds)
  moreover have "cache_find k c = Some v"
    using cache_find_entries [OF assms(1), of k] cache_keys_distinct [OF assms(1)] assms(2)
    by (simp add: map_of_mid del: map_of_append)
  ultimately show ?thesis by (simp add: cache_back_def)
qed

lemma cache_empty_entries:
  assumes "lru_ok c" "entries c = []"
  shows "cache_pop_back c = Some (None, c)" "cache_back c = Some None"
proof -
  have "list_rel (lc_lstate c) []" using assms by (auto elim!: lru_okE simp: lru_rel_def)
  then show "cache_pop_back c = Some (None, c)" "cache_back c = Some None"
    by (simp_all add: cache_pop_back_def cache_back_def ll_pop_empty take_entry_def with_list_def
        ll_back_def element_at_def list_rel_def)
qed

lemma cache_move_to_head_entries:
  assumes "lru_ok c" "entries c = xs @ (k, v) # ys"
  shows "\<exists>c'. cache_move_to_head k c = Some c' \<and> lru_ok c' \<and> entries c' = (k, v) # xs @ ys"
proof -
  obtain es where es: "lru_rel c es" "entries c = map pair_of es" using lru_okE [OF assms(1)] .
  obtain as e bs where as: "es = as @ (k, e) # bs" "xs = map pair_of as" "ys = map pair_of bs" "v = le_value e"
    using es(2) assms(2) by (auto simp: append_eq_map_conv Cons_eq_map_conv)
  obtain h l where s: "ll_move_to_head (le_node_ref e) (lc_lstate c) = Some (h, l)"
      "list_rel (h, l) ((le_node_ref e, k) # map node_of as @ map node_of bs)"
    using ll_move_to_head_rel [of "lc_heap c" "lc_list c" "map node_of as" "le_node_ref e" k "map node_of bs"] es(1)
    by (auto simp: lru_rel_def as)
  have m: "lc_map c k = Some e" "map_of es = map_of ((k, e) # as @ bs)" "distinct (map fst es)"
    using es(1) by (auto simp: lru_rel_def as map_of_mid simp del: map_of_append)
  then have "lru_rel (with_list (h, l) c) ((k, e) # as @ bs)"
    using es(1) s(2) by (simp add: lru_rel_def with_list_def as)
  then show ?thesis using s(1) m(1) entries_rel by (fastforce simp: cache_move_to_head_def as)
qed

lemma cache_move_to_head_absent:
  "lru_ok c \<Longrightarrow> k \<notin> fst ` set (entries c) \<Longrightarrow> cache_move_to_head k c = Some c"
  using lc_map_None [of c k] by (simp add: cache_move_to_head_def)

lemma values_of_entries: "set ks \<subseteq> dom m \<Longrightarrow> values_of m ks = map (\<lambda>k. le_value (the (m k))) ks"
  by (induction ks) (auto split: option.splits)

lemma cache_iter_entries:
  assumes "lru_ok c"
  shows "cache_iter c = Some (map snd (entries c))"
proof -
  obtain es where es: "lru_rel c es" "entries c = map pair_of es" using lru_okE [OF assms] .
  have "ll_elements (lc_lstate c) = Some (map fst es)"
    using es(1) ll_elements_rel [of "lc_lstate c" "map node_of es"] by (simp add: lru_rel_def comp_def)
  moreover have "values_of (map_of es) (map fst es) = map (\<lambda>k. le_value (the (map_of es k))) (map fst es)"
    by (rule values_of_entries) (simp add: dom_map_of_conv_image_fst)
  ultimately show ?thesis using es by (auto simp: cache_iter_def lru_rel_def)
qed

lemma cache_pop_front_entries:
  assumes "lru_ok c" "entries c = (k, v) # xs"
  shows "\<exists>c'. cache_pop_front c = Some (Some v, c') \<and> lru_ok c' \<and> entries c' = xs"
proof -
  obtain es where es: "lru_rel c es" "entries c = map pair_of es" using lru_okE [OF assms(1)] .
  obtain ds e where ds: "es = (k, e) # ds" "xs = map pair_of ds" "v = le_value e"
    using es(2) assms(2) by (cases es) auto
  obtain h l where s: "ll_pop_front (lc_lstate c) = Some (Some k, h, l)" "list_rel (h, l) (map node_of ds)"
    by (rule ll_pop_front_rel [of "lc_heap c" "lc_list c" "le_node_ref e" k "map node_of ds"])
      (use es(1) in \<open>auto simp: lru_rel_def ds\<close>)
  have k: "k \<notin> fst ` set ds" "distinct (map fst ds)" "lc_map c = map_of es"
    using es(1) by (auto simp: lru_rel_def ds)
  have "lc_map c k = Some e" "(lc_map c)(k := None) = map_of ds"
    using k by (auto simp: ds map_of_eq_None_iff fun_upd_idem)
  moreover from this have "lru_rel ((with_list (h, l) c)\<lparr>lc_map := (lc_map c)(k := None)\<rparr>) ds"
    using k(2) s(2) by (simp add: lru_rel_def with_list_def)
  ultimately show ?thesis
    using s(1) entries_rel by (fastforce simp: cache_pop_front_def take_entry_def with_list_def ds)
qed

lemma pop_backs_entries:
  "lru_ok c \<Longrightarrow> n \<le> length (entries c) \<Longrightarrow>
     \<exists>c'. pop_backs n c = Some c' \<and> lru_ok c' \<and> entries c' = take (length (entries c) - n) (entries c)"
proof (induction n arbitrary: c)
  case (Suc n)
  obtain xs k v where xs: "entries c = xs @ [(k, v)]"
    using Suc.prems(2) by (cases "entries c" rule: rev_cases) auto
  obtain c1 where c1: "cache_pop_back c = Some (Some v, c1)" "lru_ok c1" "entries c1 = xs"
    using cache_pop_back_entries [OF Suc.prems(1) xs] by blast
  show ?case using Suc.IH [OF c1(2)] Suc.prems(2) by (auto simp: c1 xs)
qed simp

lemma cache_clear_entries:
  assumes "lru_ok (c :: 'v LruCache)"
  shows "\<exists>c'. cache_clear c = Some c' \<and> lru_ok c' \<and> entries c' = []"
proof -
  obtain es where "lru_rel c es" using assms by (auto simp: lru_ok_def)
  then have "list_rel (lc_lstate c) (map node_of es)" by (simp add: lru_rel_def)
  from ll_clear_rel [OF this] obtain h where h: "ll_clear (lc_lstate c) = Some (h, ll_new)" by blast
  have "lru_rel ((with_list (h, ll_new) c)\<lparr>lc_map := Map.empty\<rparr>) []"
    by (simp add: lru_rel_def with_list_def ll_new_rel)
  from entries_rel [OF this] show ?thesis by (simp add: cache_clear_def h)
qed

section \<open>The interface of the cache\<close>

locale node_cache =
  fixes ok :: "'c \<Rightarrow> bool"
    and pairs :: "'c \<Rightarrow> (nat \<times> 'v) list"
    and size_of :: "'c \<Rightarrow> nat"
    and lookup :: "nat \<Rightarrow> 'c \<Rightarrow> 'v option"
    and push :: "nat \<Rightarrow> 'v \<Rightarrow> 'c \<Rightarrow> (bool \<times> 'c) option"
    and bump :: "nat \<Rightarrow> 'c \<Rightarrow> 'c option"
    and oldest :: "'c \<Rightarrow> 'v option option"
    and evict :: "'c \<Rightarrow> ('v option \<times> 'c) option"
    and all_values :: "'c \<Rightarrow> 'v list option"
  assumes keys_distinct: "ok c \<Longrightarrow> distinct (map fst (pairs c))"
    and size_of_pairs: "ok c \<Longrightarrow> size_of c = length (pairs c)"
    and lookup_pairs: "ok c \<Longrightarrow> lookup k c = map_of (pairs c) k"
    and push_pairs: "ok c \<Longrightarrow> \<exists>c'. push k v c = Some (k \<notin> fst ` set (pairs c), c') \<and> ok c'
        \<and> pairs c' = (if k \<in> fst ` set (pairs c) then pairs c else (k, v) # pairs c)"
    and bump_pairs: "ok c \<Longrightarrow> pairs c = xs @ (k, v) # ys \<Longrightarrow>
        \<exists>c'. bump k c = Some c' \<and> ok c' \<and> pairs c' = (k, v) # xs @ ys"
    and bump_absent: "ok c \<Longrightarrow> k \<notin> fst ` set (pairs c) \<Longrightarrow> bump k c = Some c"
    and oldest_pairs: "ok c \<Longrightarrow> pairs c = xs @ [(k, v)] \<Longrightarrow> oldest c = Some (Some v)"
    and evict_pairs: "ok c \<Longrightarrow> pairs c = xs @ [(k, v)] \<Longrightarrow> \<exists>c'. evict c = Some (Some v, c') \<and> ok c' \<and> pairs c' = xs"
    and evict_empty: "ok c \<Longrightarrow> pairs c = [] \<Longrightarrow> evict c = Some (None, c)"
    and all_values_pairs: "ok c \<Longrightarrow> all_values c = Some (map snd (pairs c))"
begin

lemma lookup_Some: "ok c \<Longrightarrow> lookup k c = Some v \<longleftrightarrow> (k, v) \<in> set (pairs c)"
  using keys_distinct lookup_pairs by (simp add: map_of_eq_Some_iff)

lemma lookup_None: "ok c \<Longrightarrow> lookup k c = None \<longleftrightarrow> k \<notin> fst ` set (pairs c)"
  by (simp add: lookup_pairs map_of_eq_None_iff)

lemma lookup_cong: "ok c \<Longrightarrow> ok c' \<Longrightarrow> set (pairs c) = set (pairs c') \<Longrightarrow> lookup j c = lookup j c'"
  using lookup_Some [of c j] lookup_Some [of c' j] by (cases "lookup j c"; cases "lookup j c'") auto

lemma push_lookup:
  assumes "ok c" "push k v c = Some (b, c')"
  shows "ok c'" "b \<longleftrightarrow> lookup k c = None" "lookup j c' = (if b \<and> j = k then Some v else lookup j c)"
    "set (pairs c') = (if b then insert (k, v) (set (pairs c)) else set (pairs c))"
  using push_pairs [OF assms(1), of k v] assms lookup_None [OF assms(1)]
  by (auto simp: lookup_pairs split: if_splits)

lemma bump_lookup:
  assumes "ok c"
  shows "\<exists>c'. bump k c = Some c' \<and> ok c' \<and> set (pairs c') = set (pairs c) \<and> size_of c' = size_of c
    \<and> (\<forall>j. lookup j c' = lookup j c)"
proof (cases "k \<in> fst ` set (pairs c)")
  case True
  then obtain xs v ys where p: "pairs c = xs @ (k, v) # ys" by (auto dest: split_list)
  obtain c' where c': "bump k c = Some c'" "ok c'" "pairs c' = (k, v) # xs @ ys"
    using bump_pairs [OF assms p] by blast
  then have s: "set (pairs c') = set (pairs c)" by (auto simp: p)
  then show ?thesis using c' p assms lookup_cong [OF c'(2) assms s] by (simp add: size_of_pairs)
next
  case False
  then show ?thesis using bump_absent [OF assms] assms by simp
qed

lemma evict_lookup:
  assumes "ok c" "lookup k c = Some v"
  shows "\<exists>w c'. evict c = Some (Some w, c') \<and> oldest c = Some (Some w) \<and> ok c' \<and> size_of c' + 1 = size_of c
    \<and> set (pairs c') \<subseteq> set (pairs c)"
proof -
  have "pairs c \<noteq> []" using assms lookup_Some by fastforce
  then obtain xs j w where p: "pairs c = xs @ [(j, w)]" by (metis rev_exhaust surj_pair)
  show ?thesis using evict_pairs [OF assms(1) p] oldest_pairs [OF assms(1) p] p assms(1)
    by (auto simp: size_of_pairs)
qed

end

interpretation lru: node_cache lru_ok entries cache_len cache_find cache_push cache_move_to_head
  cache_back cache_pop_back cache_iter
  by unfold_locales
    (simp_all add: cache_keys_distinct cache_len_entries cache_find_entries cache_push_entries
      cache_move_to_head_entries cache_move_to_head_absent cache_back_entries cache_pop_back_entries
      cache_empty_entries cache_iter_entries)

end
