(* ===== verification/Pfs_File.thy ===== *)
theory Pfs_File
  imports Pfs_Metadata Lru_Cache
begin

text \<open>
  The state of an open protected file and its tree of nodes: \<open>FileInner\<close> of \<open>tfs/src/sys/file/mod.rs\<close>, the node
  functions of \<open>tfs/src/sys/file/node.rs\<close> and flushing, \<open>tfs/src/sys/file/flush.rs\<close>. Loops whose end depends on the state
  are \<open>partial_function\<close>s, so that these computations are \<open>prog\<close>s.
\<close>

section \<open>State\<close>

datatype FileStatus =
  FS_Ok | NotInitialized | FlushError | WriteToDiskFailed | CryptoError | Corrupted | MemoryCorrupted | Closed

record OpenOptions =
  oo_read :: bool
  oo_write :: bool
  oo_append :: bool
  oo_binary :: bool
  oo_update :: bool

record 'w FileInner = "'w nstore" +
  f_host_file :: HostFile
  f_metadata :: MetadataInfo
  f_root_mht :: node_ref
  f_key_gen :: FsKeyGen
  f_opts :: OpenOptions
  f_need_writing :: bool
  f_end_of_file :: bool
  f_max_cache_page :: usize
  f_offset :: usize
  f_last_error :: FsError
  f_status :: FileStatus
  f_recovery_path :: Path
  f_cache :: "node_ref LruCache"

abbreviation f_size :: "'w FileInner \<Rightarrow> usize" where
  "f_size s \<equiv> me_size (mi_encrypted_plain (f_metadata s))"

abbreviation f_flags :: "'w FileInner \<Rightarrow> EncryptFlags" where
  "f_flags s \<equiv> mp_encrypt_flags (mi_plain (f_metadata s))"

definition set_last_error :: "FsError \<Rightarrow> ('w FileInner, 'e, unit) rust" where
  "set_last_error e = modify (\<lambda>s. s\<lparr>f_last_error := e\<rparr>)"

definition set_file_status :: "FileStatus \<Rightarrow> ('w FileInner, 'e, unit) rust" where
  "set_file_status status = modify (\<lambda>s. s\<lparr>f_status := status\<rparr>)"

definition get_last_error :: "'w FileInner \<Rightarrow> FsError" where
  "get_last_error s =
     (if fs_is_success (f_last_error s) \<and> f_status s \<noteq> FS_Ok then SgxError Sgx_BadStatus else f_last_error s)"

definition on_host :: "('w, 'e, 'a) rust \<Rightarrow> ('w FileInner, 'e, 'a) rust" where
  "on_host = zoom ns_world (\<lambda>w s. s\<lparr>ns_world := w\<rparr>)"

definition on_key_gen :: "(FsKeyGen \<times> 'w, 'e, 'a) rust \<Rightarrow> ('w FileInner, 'e, 'a) rust" where
  "on_key_gen = zoom (\<lambda>s. (f_key_gen s, ns_world s)) (\<lambda>(g, w) s. s\<lparr>f_key_gen := g, ns_world := w\<rparr>)"

text \<open>Operations on the cache; one that follows a dangling pointer is undefined and stops the model.\<close>

definition on_cache :: "(node_ref LruCache \<Rightarrow> ('a \<times> node_ref LruCache) option) \<Rightarrow> ('w FileInner, 'e, 'a) rust" where
  "on_cache f s = (case f (f_cache s) of None \<Rightarrow> (Panic, s) | Some (a, c) \<Rightarrow> (Ok a, s\<lparr>f_cache := c\<rparr>))"

definition push_cache :: "nat \<Rightarrow> node_ref \<Rightarrow> ('w FileInner, FsError, unit) rust" where
  "push_cache key r = and_then (on_cache (cache_push key r)) (\<lambda>b. ensure b (SgxError Sgx_Unexpected))"

definition cache_nodes :: "('w FileInner, 'e, node_ref list) rust" where
  "cache_nodes s = (case cache_iter (f_cache s) of None \<Rightarrow> (Panic, s) | Some rs \<Rightarrow> (Ok rs, s))"

section \<open>Node numbers\<close>

text \<open>
  Logic and physical numbers of the hash node and the data node of an offset: the metadata node, the root of the
  tree, 96 data nodes, a hash node, 96 data nodes and so on.
\<close>

definition get_node_numbers :: "usize \<Rightarrow> nat \<times> nat \<times> nat \<times> nat" where
  "get_node_numbers offset =
     (if offset < MD_USER_DATA_SIZE then (0, 0, 0, 0)
      else
        let data_logic_number = (offset - MD_USER_DATA_SIZE) div NODE_SIZE;
            mht_logic_number = data_logic_number div ATTACHED_DATA_NODES_COUNT;
            data_physical_number = data_logic_number + 1 + 1 + mht_logic_number;
            mht_physical_number = data_physical_number - data_logic_number mod ATTACHED_DATA_NODES_COUNT - 1
        in (mht_logic_number, data_logic_number, mht_physical_number, data_physical_number))"

definition get_data_node_numbers :: "usize \<Rightarrow> nat \<times> nat" where
  "get_data_node_numbers offset = (case get_node_numbers offset of (_, logic, _, physical) \<Rightarrow> (logic, physical))"

definition get_mht_node_numbers :: "usize \<Rightarrow> nat \<times> nat" where
  "get_mht_node_numbers offset = (case get_node_numbers offset of (logic, _, physical, _) \<Rightarrow> (logic, physical))"

definition mht_physical :: "nat \<Rightarrow> nat" where
  "mht_physical logic_number = 1 + logic_number * (ATTACHED_DATA_NODES_COUNT + 1)"

section \<open>Reading and appending nodes\<close>

text \<open>Reading a node whose parent is known: from the disk, verified with the code in the parent.\<close>

definition load_node :: "'w fs_env \<Rightarrow> FileNode \<Rightarrow> ('w FileInner, FsError, node_ref) rust" where
  "load_node env node =
     and_then (gets f_host_file) (\<lambda>f.
     and_then (on_host (node_read_from_disk env f node)) (\<lambda>node.
     and_then (node_get_gcm node) (\<lambda>g.
     and_then (ok_or g (SgxError Sgx_Unexpected)) (\<lambda>gcm_data.
     and_then (node_decrypt env node (gd_key gcm_data) (gd_mac gcm_data)) (\<lambda>node.
     and_then (build_ref node) (\<lambda>r.
     seq (push_cache (fn_physical_number node) r) (ret r)))))))"

definition append_node :: "FileNode \<Rightarrow> ('w FileInner, FsError, node_ref) rust" where
  "append_node node =
     and_then (build_ref node) (\<lambda>r.
     seq (push_cache (fn_physical_number node) r) (ret r))"

function read_mht_node :: "'w fs_env \<Rightarrow> nat \<Rightarrow> ('w FileInner, FsError, node_ref) rust" where
  "read_mht_node env logic_number =
     (if logic_number = 0 then gets f_root_mht
      else
        let physical_number = mht_physical logic_number in
        and_then (gets (\<lambda>s. cache_find physical_number (f_cache s))) (\<lambda>found.
        case found of
          Some mht_node \<Rightarrow> ret mht_node
        | None \<Rightarrow>
            and_then (read_mht_node env ((logic_number - 1) div CHILD_MHT_NODES_COUNT)) (\<lambda>parent.
            and_then (gets f_flags) (\<lambda>flags.
              load_node env ((file_node_new NT_Mht logic_number physical_number flags)\<lparr>fn_parent := Some parent\<rparr>)))))"
  by pat_completeness auto
termination
  by (relation "measure snd") (auto simp: CHILD_MHT_NODES_COUNT_def NODE_SIZE_def intro: le_less_trans [OF div_le_dividend])

declare read_mht_node.simps [simp del]

definition append_mht_node :: "'w fs_env \<Rightarrow> nat \<Rightarrow> ('w FileInner, FsError, node_ref) rust" where
  "append_mht_node env logic_number =
     and_then (read_mht_node env ((logic_number - 1) div CHILD_MHT_NODES_COUNT)) (\<lambda>parent.
     and_then (gets f_flags) (\<lambda>flags.
       append_node ((file_node_new NT_Mht logic_number (mht_physical logic_number) flags)\<lparr>fn_parent := Some parent\<rparr>)))"

definition get_mht_node :: "'w fs_env \<Rightarrow> ('w FileInner, FsError, node_ref) rust" where
  "get_mht_node env =
     and_then (gets f_offset) (\<lambda>offset.
     seq (ensure (offset \<ge> MD_USER_DATA_SIZE) (SgxError Sgx_Unexpected))
     (let (logic_number, _) = get_mht_node_numbers offset in
      if logic_number = 0 then gets f_root_mht
      else and_then (gets f_size) (\<lambda>sz.
        if (offset - MD_USER_DATA_SIZE) mod (ATTACHED_DATA_NODES_COUNT * NODE_SIZE) = 0 \<and> offset = sz
        then append_mht_node env logic_number
        else read_mht_node env logic_number)))"

definition append_data_node :: "'w fs_env \<Rightarrow> ('w FileInner, FsError, node_ref) rust" where
  "append_data_node env =
     and_then (get_mht_node env) (\<lambda>mht_node.
     and_then (gets f_offset) (\<lambda>offset.
     and_then (gets f_flags) (\<lambda>flags.
     let (logic_number, physical_number) = get_data_node_numbers offset in
       append_node ((file_node_new NT_Data logic_number physical_number flags)\<lparr>fn_parent := Some mht_node\<rparr>))))"

definition read_data_node :: "'w fs_env \<Rightarrow> ('w FileInner, FsError, node_ref) rust" where
  "read_data_node env =
     and_then (gets f_offset) (\<lambda>offset.
     let (logic_number, physical_number) = get_data_node_numbers offset in
     and_then (gets (\<lambda>s. cache_find physical_number (f_cache s))) (\<lambda>found.
     case found of
       Some data_node \<Rightarrow> ret data_node
     | None \<Rightarrow>
         and_then (get_mht_node env) (\<lambda>mht_node.
         and_then (gets f_flags) (\<lambda>flags.
           load_node env ((file_node_new NT_Data logic_number physical_number flags)\<lparr>fn_parent := Some mht_node\<rparr>)))))"

text \<open>The two loops up the tree: to the head of the cache, and marking for writing.\<close>

partial_function (option) bump_parents :: "node_ref option \<Rightarrow> ('w FileInner, FsError, unit) prog" where
  "bump_parents parent s =
     (case parent of
        None \<Rightarrow> returns (ret ()) s
      | Some r \<Rightarrow> p_then (returns (node_at r)) (\<lambda>mht.
          if \<not> is_root_mht mht then
            p_seq (returns (on_cache (\<lambda>c. map_option (Pair ()) (cache_move_to_head (fn_physical_number mht) c))))
                  (\<lambda>s. bump_parents (fn_parent mht) s)
          else returns (ret ())) s)"

definition bump_mht_node :: "node_ref \<Rightarrow> ('w FileInner, FsError, unit) prog" where
  "bump_mht_node r = p_then (returns (node_at r)) (\<lambda>n. bump_parents (fn_parent n))"

partial_function (option) mark_parents :: "node_ref option \<Rightarrow> ('w FileInner, FsError, unit) prog" where
  "mark_parents parent s =
     (case parent of
        None \<Rightarrow> returns (ret ()) s
      | Some r \<Rightarrow> p_then (returns (node_at r)) (\<lambda>mht.
          if \<not> is_root_mht mht then
            p_seq (returns (update_node r (\<lambda>n. n\<lparr>fn_need_writing := True\<rparr>)))
                  (\<lambda>s. mark_parents (fn_parent mht) s)
          else returns (ret ())) s)"

section \<open>Flushing\<close>

definition is_need_write_node :: "('w FileInner, 'e, bool) rust" where
  "is_need_write_node =
     and_then (gets (\<lambda>s. (f_size s, f_root_mht s))) (\<lambda>(sz, root).
     and_then (node_at root) (\<lambda>n. ret (sz > MD_USER_DATA_SIZE \<and> fn_need_writing n)))"

text \<open>What \<open>write_recovery_file_node\<close> does with a node: it saves the old contents of a changed node that is not new.\<close>

definition recovery_node :: "'w fs_env \<Rightarrow> nat \<Rightarrow> node_ref \<Rightarrow> ('w FileInner, FsError, unit) rust" where
  "recovery_node env file r = and_then (node_at r) (\<lambda>node.
     if fn_need_writing node \<and> \<not> fn_new_node node
     then on_host (node_write_recovery_file env file node) else ret ())"

definition write_recovery_file_node :: "'w fs_env \<Rightarrow> ('w FileInner, FsError, unit) rust" where
  "write_recovery_file_node env =
     and_then (gets f_recovery_path) (\<lambda>path.
     and_then (on_host (recovery_file_open env path)) (\<lambda>file.
     scoped
       (and_then cache_nodes (\<lambda>nodes.
        seq (for_each (recovery_node env file) nodes)
       (and_then (gets f_root_mht) (\<lambda>root.
        seq (recovery_node env file root)
       (and_then (gets f_metadata) (\<lambda>m. on_host (meta_write_recovery_file env file m)))))))
       (on_host (recovery_file_close env file))))"

definition write_recovery_file :: "'w fs_env \<Rightarrow> ('w FileInner, FsError, unit) rust" where
  "write_recovery_file env =
     on_err (\<lambda>_. and_then (gets f_recovery_path) (\<lambda>path.
       seq (attempt (on_host (host_remove env path)) :: ('w FileInner, FsError, FsError + unit) rust) (ret ())))
       (write_recovery_file_node env)"

definition write_metadata :: "'w fs_env \<Rightarrow> ('w FileInner, FsError, unit) rust" where
  "write_metadata env =
     and_then (gets (\<lambda>s. (f_host_file s, f_metadata s))) (\<lambda>(f, m). on_host (meta_write_to_disk env f m))"

definition host_flush :: "'w fs_env \<Rightarrow> ('w FileInner, FsError, unit) rust" where
  "host_flush env = and_then (gets f_host_file) (\<lambda>f. on_host (host_file_flush env f))"

definition upd_metadata :: "(MetadataInfo \<Rightarrow> MetadataInfo) \<Rightarrow> ('w FileInner, 'e, unit) rust" where
  "upd_metadata g = modify (\<lambda>s. s\<lparr>f_metadata := g (f_metadata s)\<rparr>)"

definition file_set_update_flag :: "'w fs_env \<Rightarrow> bool \<Rightarrow> ('w FileInner, FsError, unit) rust" where
  "file_set_update_flag env flush =
     seq (upd_metadata (set_update_flag 1))
    (and_then (attempt (write_metadata env)) (\<lambda>result.
     seq (upd_metadata (set_update_flag 0))
    (seq (case result of Inl e \<Rightarrow> bail e | Inr u \<Rightarrow> ret ())
     (if flush then
        on_err (\<lambda>_. seq (attempt (write_metadata env) :: ('w FileInner, FsError, FsError + unit) rust) (ret ()))
          (host_flush env)
      else ret ()))))"

definition clear_update_flag :: "'w fs_env \<Rightarrow> ('w FileInner, FsError, unit) rust" where
  "clear_update_flag env =
     and_then (gets f_metadata) (\<lambda>m.
     seq (rassert (\<not> update_flag m))
    (seq (attempt (write_metadata env) :: ('w FileInner, FsError, FsError + unit) rust)
    (seq (attempt (host_flush env) :: ('w FileInner, FsError, FsError + unit) rust)
         (ret ()))))"

definition node_derive_key :: "'w fs_env \<Rightarrow> node_ref \<Rightarrow> ('w FileInner, FsError, key128) rust" where
  "node_derive_key env r =
     and_then (node_at r) (\<lambda>n.
     and_then (on_key_gen (derive_key env KT_Random (fn_physical_number n))) (\<lambda>(key, _). ret key))"

definition seal_node :: "'w fs_env \<Rightarrow> node_ref \<Rightarrow> ('w FileInner, FsError, key128 \<times> mac128) rust" where
  "seal_node env r =
     and_then (node_derive_key env r) (\<lambda>key.
     and_then (node_encrypt env r key) (\<lambda>mac. ret (key, mac)))"

definition update_nodes :: "'w fs_env \<Rightarrow> ('w FileInner, FsError, unit) prog" where
  "update_nodes env =
     p_then (returns cache_nodes) (\<lambda>nodes.
     p_seq (p_for_each (\<lambda>r. p_then (returns (node_at r)) (\<lambda>node.
              if is_data node \<and> fn_need_writing node
              then p_seq (returns (seal_node env r)) (mark_parents (fn_parent node))
              else returns (ret ()))) nodes)
    (returns (and_then (gets ns_nodes) (\<lambda>ns.
       let mht_nodes = filter (\<lambda>r. is_mht (ns ! r) \<and> fn_need_writing (ns ! r)) nodes in
       seq (for_each (\<lambda>r. seq (seal_node env r) (ret ()))
              (sort_key (\<lambda>r. - int (fn_physical_number (ns ! r))) mht_nodes))
      (and_then (gets f_root_mht) (\<lambda>root.
       and_then (seal_node env root) (\<lambda>(key, mac).
         upd_metadata (upd_encrypted (\<lambda>e. e\<lparr>me_mht_key := key, me_mht_gmac := mac\<rparr>)))))))))"

definition update_metadata :: "'w fs_env \<Rightarrow> ('w FileInner, FsError, unit) rust" where
  "update_metadata env =
     and_then (gets f_metadata) (\<lambda>m.
     and_then (on_key_gen (meta_derive_key env m)) (\<lambda>(key, m).
     case meta_encrypt env m key of
       (result, m) \<Rightarrow> seq (upd_metadata (\<lambda>_. m)) (of_res result)))"

definition write_to_disk :: "'w fs_env \<Rightarrow> bool \<Rightarrow> ('w FileInner, FsError, unit) rust" where
  "write_to_disk env flush =
     and_then (gets f_host_file) (\<lambda>f.
     and_then is_need_write_node (\<lambda>b.
     seq (if b then
            seq (and_then cache_nodes (for_each (\<lambda>r. and_then (node_at r) (\<lambda>node.
                   if fn_need_writing node then node_write_to_disk env f r else ret ()))))
                (and_then (gets f_root_mht) (node_write_to_disk env f))
          else ret ())
    (seq (write_metadata env)
         (if flush then host_flush env else ret ()))))"

definition internal_flush :: "'w fs_env \<Rightarrow> bool \<Rightarrow> ('w FileInner, FsError, unit) prog" where
  "internal_flush env flush =
     p_then (returns (gets f_need_writing)) (\<lambda>need_writing.
     if \<not> need_writing then returns (ret ())
     else
       p_then (returns is_need_write_node) (\<lambda>b.
       p_seq (if b then
                p_seq (returns (on_err (\<lambda>_. set_file_status FlushError) (write_recovery_file env)))
               (p_seq (returns (on_err (\<lambda>_. set_file_status FlushError) (file_set_update_flag env flush)))
                      (p_on_err (\<lambda>_. seq (clear_update_flag env) (set_file_status FlushError)) (update_nodes env)))
              else returns (ret ()))
      (returns (
         seq (on_err (\<lambda>_. seq (clear_update_flag env) (set_file_status CryptoError)) (update_metadata env))
        (seq (on_err (\<lambda>_. set_file_status WriteToDiskFailed) (write_to_disk env flush))
             (modify (\<lambda>s. s\<lparr>f_need_writing := False\<rparr>)))))))"

definition file_flush :: "'w fs_env \<Rightarrow> ('w FileInner, FsError, unit) prog" where
  "file_flush env =
     p_then (returns (gets f_status)) (\<lambda>status.
     p_seq (returns (ensure (status = FS_Ok) (SgxError Sgx_BadStatus)))
           (p_on_err (\<lambda>_. and_then (gets f_status) (\<lambda>status.
                if status = FS_Ok then set_file_status FlushError else ret ()))
              (internal_flush env True)))"

section \<open>Getting a data node\<close>

partial_function (option) shrink_cache :: "'w fs_env \<Rightarrow> ('w FileInner, FsError, unit) prog" where
  "shrink_cache env s =
     (if cache_len (f_cache s) > f_max_cache_page s then
        p_then (returns (and_then (on_cache (\<lambda>c. map_option (\<lambda>v. (v, c)) (cache_back c)))
                          (\<lambda>v. ok_or v (SgxError Sgx_Unexpected)))) (\<lambda>r.
        p_then (returns (node_at r)) (\<lambda>node.
        p_seq (if \<not> fn_need_writing node
               then p_then (returns (on_cache cache_pop_back)) (\<lambda>_. returns (ret ()))
               else p_on_err (\<lambda>_. and_then (gets f_status) (\<lambda>status.
                        if status = FS_Ok then set_file_status FlushError else ret ()))
                      (internal_flush env False))
              (\<lambda>s. shrink_cache env s))) s
      else returns (ret ()) s)"

definition get_data_node :: "'w fs_env \<Rightarrow> ('w FileInner, FsError, node_ref) prog" where
  "get_data_node env =
     p_then (returns (gets (\<lambda>s. (f_offset s, f_size s)))) (\<lambda>(offset, sz).
     p_seq (returns (ensure (offset \<ge> MD_USER_DATA_SIZE) (SgxError Sgx_Unexpected)))
    (p_then (returns (attempt
               (if (offset - MD_USER_DATA_SIZE) mod NODE_SIZE = 0 \<and> offset = sz
                then append_data_node env else read_data_node env))) (\<lambda>data_node.
     p_seq (case data_node of Inr r \<Rightarrow> bump_mht_node r | Inl e \<Rightarrow> returns (ret ()))
    (p_seq (shrink_cache env)
           (returns (case data_node of Inr r \<Rightarrow> ret r | Inl e \<Rightarrow> bail e))))))"

end
