(* ===== verification/Pfs_Ops.thy ===== *)
theory Pfs_Ops
  imports Pfs_File
begin

text \<open>
  The operations on an open protected file: reading and writing (\<open>tfs/src/sys/file/read.rs\<close>, \<open>write.rs\<close>), positions, length
  and errors (\<open>other.rs\<close>), closing (\<open>close.rs\<close>), opening (\<open>open.rs\<close>), and the shared handle of \<open>mod.rs\<close> with its lock. A buffer is
  an address and a length for reading, an address and its bytes for writing; reading returns the bytes
  it puts at the front of the buffer.
\<close>

section \<open>Positions\<close>

datatype SeekFrom = Start nat | End int | Current int

definition file_tell :: "('w FileInner, FsError, nat) rust" where
  "file_tell =
     and_then (gets (\<lambda>s. (f_status s, f_offset s))) (\<lambda>(status, offset).
     seq (ensure (status = FS_Ok) (SgxError Sgx_BadStatus)) (ret offset))"

definition file_size :: "('w FileInner, FsError, nat) rust" where
  "file_size =
     and_then (gets (\<lambda>s. (f_status s, f_size s))) (\<lambda>(status, sz).
     seq (ensure (status = FS_Ok) (SgxError Sgx_BadStatus)) (ret sz))"

definition checked_sub :: "nat \<Rightarrow> nat \<Rightarrow> nat option" where
  "checked_sub a b = (if b \<le> a then Some (a - b) else None)"

definition seek_target :: "nat \<Rightarrow> nat \<Rightarrow> SeekFrom \<Rightarrow> nat option" where
  "seek_target sz cur_offset pos = (case pos of
     Start off \<Rightarrow> if off \<le> sz then Some off else None
   | End off \<Rightarrow> if off \<le> 0 then checked_sub sz (nat (0 - off)) else None
   | Current off \<Rightarrow>
       if off \<ge> 0 then
         (case checked_add cur_offset (nat off) of
            Some new_offset \<Rightarrow> if new_offset \<le> sz then Some new_offset else None
          | None \<Rightarrow> None)
       else checked_sub cur_offset (nat (0 - off)))"

definition file_seek :: "SeekFrom \<Rightarrow> ('w FileInner, FsError, nat) rust" where
  "file_seek pos =
     and_then (gets f_status) (\<lambda>status.
     seq (ensure (status = FS_Ok) (SgxError Sgx_BadStatus))
    (and_then (gets (\<lambda>s. seek_target (f_size s) (f_offset s) pos)) (\<lambda>target.
     and_then (ok_or target (OsError EINVAL)) (\<lambda>new_offset.
     seq (modify (\<lambda>s. s\<lparr>f_offset := new_offset, f_end_of_file := False\<rparr>))
         (ret new_offset)))))"

section \<open>Reading\<close>

definition set_offset :: "usize \<Rightarrow> ('w FileInner, 'e, unit) rust" where
  "set_offset off = modify (\<lambda>s. s\<lparr>f_offset := off\<rparr>)"

definition node_chunk :: "usize \<Rightarrow> usize" where
  "node_chunk offset = NODE_SIZE - (offset - MD_USER_DATA_SIZE) mod NODE_SIZE"

function read_loop :: "'w fs_env \<Rightarrow> nat \<Rightarrow> ('w FileInner, FsError, byte list) prog" where
  "read_loop env left_to_read =
     (if left_to_read = 0 then returns (ret [])
      else p_then (p_attempt (get_data_node env)) (\<lambda>r. case r of
        Inl error \<Rightarrow> p_seq (returns (set_last_error error)) (returns (ret []))
      | Inr file_node \<Rightarrow>
          p_then (returns (gets f_offset)) (\<lambda>offset.
          p_then (returns (node_at file_node)) (\<lambda>node.
          let offset_in_node = (offset - MD_USER_DATA_SIZE) mod NODE_SIZE;
              len = min left_to_read (NODE_SIZE - offset_in_node) in
          p_seq (returns (set_offset (wrapping_add offset len)))
         (p_then (read_loop env (left_to_read - len)) (\<lambda>rest.
          returns (ret (take len (drop offset_in_node (node_bytes (fn_plaintext node))) @ rest))))))))"
  by pat_completeness auto
termination by (relation "measure snd") (auto simp: NODE_SIZE_def)

declare read_loop.simps [simp del]

text \<open>The part of a read that the data in the metadata serves.\<close>

definition read_metadata_part :: "nat \<Rightarrow> ('w FileInner, 'e, byte list) rust" where
  "read_metadata_part left_to_read =
     and_then (gets (\<lambda>s. (f_offset s, me_data (mi_encrypted_plain (f_metadata s))))) (\<lambda>(offset, data).
     if offset < MD_USER_DATA_SIZE then
       let len = min left_to_read (MD_USER_DATA_SIZE - offset) in
       seq (set_offset (wrapping_add offset len)) (ret (take len (drop offset data)))
     else ret [])"

definition file_read :: "'w fs_env \<Rightarrow> usize \<Rightarrow> usize \<Rightarrow> ('w FileInner, FsError, byte list) prog" where
  "file_read env buf len =
     (if len = 0 then returns (ret [])
      else
        p_then (returns (gets (\<lambda>s. s))) (\<lambda>s.
        p_seq (returns (ensure (is_within_enclave (env_platform env) buf len) (SgxError Sgx_InvalidParameter)))
       (p_seq (returns (ensure (f_status s = FS_Ok) (SgxError Sgx_BadStatus)))
       (p_seq (returns (ensure (oo_read (f_opts s) \<or> oo_update (f_opts s)) (OsError EACCES)))
       (if f_end_of_file s then returns (ret [])
        else if f_offset s = f_size s then
          p_seq (returns (modify (\<lambda>s. s\<lparr>f_end_of_file := True\<rparr>))) (returns (ret []))
        else
          let attempted_to_read = min len (wrapping_sub (f_size s) (f_offset s)) in
          p_then (returns (read_metadata_part attempted_to_read)) (\<lambda>first.
          p_then (read_loop env (attempted_to_read - length first)) (\<lambda>rest.
          let bytes = first @ rest in
          p_seq (if attempted_to_read = length bytes \<and> attempted_to_read \<noteq> len
                 then p_then (returns (gets f_offset)) (\<lambda>offset.
                   p_seq (returns (rassert (offset = f_size s)))
                         (returns (modify (\<lambda>s. s\<lparr>f_end_of_file := True\<rparr>))))
                 else returns (ret ()))
                (returns (ret bytes)))))))))"

definition file_read_at :: "'w fs_env \<Rightarrow> usize \<Rightarrow> usize \<Rightarrow> nat \<Rightarrow> ('w FileInner, FsError, byte list) prog" where
  "file_read_at env buf len offset =
     p_then (returns (gets (\<lambda>s. (f_offset s, f_size s)))) (\<lambda>(cur_offset, file_size).
     if offset > file_size then returns (ret [])
     else
       p_seq (returns (file_seek (Start offset)))
      (p_then (p_attempt (file_read env buf len)) (\<lambda>result.
       p_seq (returns (set_offset cur_offset))
             (returns (case result of Inl e \<Rightarrow> bail e | Inr bytes \<Rightarrow> ret bytes)))))"

section \<open>Writing\<close>

definition splice :: "nat \<Rightarrow> byte list \<Rightarrow> byte list \<Rightarrow> byte list" where
  "splice off new bs = take off bs @ new @ drop (off + length new) bs"

definition grow_to_offset :: "('w FileInner, 'e, unit) rust" where
  "grow_to_offset =
     modify (\<lambda>s. if f_offset s > f_size s
                 then s\<lparr>f_metadata := upd_encrypted (\<lambda>e. e\<lparr>me_size := f_offset s\<rparr>) (f_metadata s)\<rparr> else s)"

definition mark_dirty :: "node_ref \<Rightarrow> ('w FileInner, FsError, unit) prog" where
  "mark_dirty r =
     p_then (returns (node_at r)) (\<lambda>node.
     if \<not> fn_need_writing node then
       p_seq (returns (update_node r (\<lambda>n. n\<lparr>fn_need_writing := True\<rparr>)))
      (p_seq (mark_parents (fn_parent node))
      (returns (and_then (gets f_root_mht) (\<lambda>root.
         seq (update_node root (\<lambda>n. n\<lparr>fn_need_writing := True\<rparr>))
             (modify (\<lambda>s. s\<lparr>f_need_writing := True\<rparr>))))))
     else returns (ret ()))"

function write_loop :: "'w fs_env \<Rightarrow> byte list \<Rightarrow> ('w FileInner, FsError, nat) prog" where
  "write_loop env buf =
     (if buf = [] then returns (ret 0)
      else p_then (p_attempt (get_data_node env)) (\<lambda>r. case r of
        Inl error \<Rightarrow> p_seq (returns (set_last_error error)) (returns (ret 0))
      | Inr file_node \<Rightarrow>
          p_then (returns (gets f_offset)) (\<lambda>offset.
          let offset_in_node = (offset - MD_USER_DATA_SIZE) mod NODE_SIZE;
              len = min (length buf) (NODE_SIZE - offset_in_node) in
          p_seq (returns (update_node file_node (\<lambda>n. n\<lparr>fn_plaintext := node_with_bytes (fn_plaintext n)
                   (splice offset_in_node (take len buf) (node_bytes (fn_plaintext n)))\<rparr>)))
         (p_seq (returns (set_offset (wrapping_add offset len)))
         (p_seq (returns grow_to_offset)
         (p_seq (mark_dirty file_node)
         (p_then (write_loop env (drop len buf)) (\<lambda>n. returns (ret (len + n)))))))))) "
  by pat_completeness auto
termination by (relation "measure (\<lambda>(_, buf). length buf)") (auto simp: NODE_SIZE_def)

declare write_loop.simps [simp del]

definition write_metadata_part :: "byte list \<Rightarrow> ('w FileInner, 'e, nat) rust" where
  "write_metadata_part buf =
     and_then (gets f_offset) (\<lambda>offset.
     if offset < MD_USER_DATA_SIZE then
       let len = min (length buf) (MD_USER_DATA_SIZE - offset) in
       seq (upd_metadata (upd_encrypted (\<lambda>e. e\<lparr>me_data := splice offset (take len buf) (me_data e)\<rparr>)))
      (seq (set_offset (wrapping_add offset len))
      (seq grow_to_offset
      (seq (modify (\<lambda>s. s\<lparr>f_need_writing := True\<rparr>))
           (ret len))))
     else ret 0)"

definition file_write :: "'w fs_env \<Rightarrow> usize \<Rightarrow> byte list \<Rightarrow> ('w FileInner, FsError, nat) prog" where
  "file_write env buf bytes =
     (if bytes = [] then returns (ret 0)
      else
        p_then (returns (gets (\<lambda>s. s))) (\<lambda>s.
        p_seq (returns (ensure (is_within_enclave (env_platform env) buf (length bytes)) (SgxError Sgx_InvalidParameter)))
       (p_seq (returns (ensure (f_status s = FS_Ok) (SgxError Sgx_BadStatus)))
       (p_seq (returns (ensure (oo_write (f_opts s) \<or> oo_append (f_opts s) \<or> oo_update (f_opts s)) (OsError EACCES)))
       (p_seq (if oo_append (f_opts s) then returns (set_offset (f_size s)) else returns (ret ()))
       (p_then (returns (write_metadata_part bytes)) (\<lambda>first.
        p_then (write_loop env (drop first bytes)) (\<lambda>n. returns (ret (first + n)))))))))) "

text \<open>
  The zero-filling loop of \<open>write_at\<close> and \<open>set_len\<close>: a write that returns 0 leaves the loop where it was.
\<close>

partial_function (option) fill_zeros :: "'w fs_env \<Rightarrow> nat \<Rightarrow> ('w FileInner, FsError, unit) prog" where
  "fill_zeros env left_to_write s =
     (if left_to_write > 0 then
        p_then (file_write env (env_zeros env) (replicate (min left_to_write 0x1000) 0)) (\<lambda>written_len s.
          fill_zeros env (left_to_write - written_len) s) s
      else returns (ret ()) s)"

definition file_write_at :: "'w fs_env \<Rightarrow> usize \<Rightarrow> byte list \<Rightarrow> nat \<Rightarrow> ('w FileInner, FsError, nat) prog" where
  "file_write_at env buf bytes offset =
     p_then (returns (gets (\<lambda>s. (f_offset s, f_size s)))) (\<lambda>(cur_offset, file_size).
     p_seq (if offset > file_size then
              p_seq (returns (file_seek (End 0)))
                    (p_on_err (\<lambda>_. set_offset cur_offset) (fill_zeros env (offset - file_size)))
            else returns (ret ()))
    (p_seq (returns (on_err (\<lambda>_. set_offset cur_offset) (file_seek (Start offset))))
    (p_then (p_attempt (file_write env buf bytes)) (\<lambda>result.
     p_seq (returns (set_offset cur_offset))
           (returns (case result of Inl e \<Rightarrow> bail e | Inr n \<Rightarrow> ret n))))))"

text \<open>Shrinking overwrites the tail with zeros first and ignores a failure of that.\<close>

definition file_set_len :: "'w fs_env \<Rightarrow> nat \<Rightarrow> ('w FileInner, FsError, unit) prog" where
  "file_set_len env new_size =
     p_then (returns (gets (\<lambda>s. (f_offset s, f_size s)))) (\<lambda>(cur_offset, file_size).
     p_seq (if new_size > file_size then
              p_seq (returns (file_seek (End 0)))
                    (p_on_err (\<lambda>_. set_offset cur_offset) (fill_zeros env (new_size - file_size)))
            else
              p_seq (returns (file_seek (Start new_size)))
             (p_then (p_attempt (fill_zeros env (file_size - new_size))) (\<lambda>_. returns (ret ()))))
    (returns (modify (\<lambda>s. s\<lparr>f_offset := min cur_offset new_size, f_end_of_file := False,
       f_metadata := upd_encrypted (\<lambda>e. e\<lparr>me_size := new_size\<rparr>) (f_metadata s)\<rparr>))))"

section \<open>Errors, closing and the rest\<close>

definition file_clear_error :: "'w fs_env \<Rightarrow> ('w FileInner, FsError, unit) prog" where
  "file_clear_error env =
     p_then (returns (gets f_status)) (\<lambda>status.
     if status = FS_Ok then
       p_seq (returns (set_last_error (SgxError Sgx_Success))) (returns (modify (\<lambda>s. s\<lparr>f_end_of_file := False\<rparr>)))
     else if status = WriteToDiskFailed then
       p_seq (returns (write_to_disk env True))
      (p_seq (returns (modify (\<lambda>s. s\<lparr>f_need_writing := False\<rparr>)))
             (returns (set_file_status FS_Ok)))
     else
       p_seq (internal_flush env True) (returns (set_file_status FS_Ok)))"

text \<open>\<open>while let Some(node) = self.cache.pop_back()\<close>.\<close>

partial_function (option) drain_cache :: "('w FileInner, FsError, unit) prog" where
  "drain_cache s =
     p_then (returns (on_cache cache_pop_back)) (\<lambda>popped s. case popped of
       None \<Rightarrow> returns (ret ()) s
     | Some r \<Rightarrow> p_then (returns (node_at r)) (\<lambda>node.
         if fn_need_writing node then returns (bail (SgxError Sgx_BadStatus)) else (\<lambda>s. drain_cache s)) s) s"

definition file_clear_cache :: "'w fs_env \<Rightarrow> ('w FileInner, FsError, unit) prog" where
  "file_clear_cache env =
     p_then (returns (gets f_status)) (\<lambda>status.
     p_seq (if status = FS_Ok then internal_flush env True else file_clear_error env)
    (p_then (returns (gets f_status)) (\<lambda>status.
     p_seq (returns (ensure (status = FS_Ok) (SgxError Sgx_BadStatus)))
           drain_cache)))"

definition file_get_metadata_mac :: "'w fs_env \<Rightarrow> ('w FileInner, FsError, mac128) prog" where
  "file_get_metadata_mac env =
     p_seq (file_flush env) (returns (gets (\<lambda>s. mp_gmac (mi_plain (f_metadata s)))))"

definition file_rename :: "string \<Rightarrow> string \<Rightarrow> ('w FileInner, FsError, unit) rust" where
  "file_rename old_name new_name =
     seq (ensure (length old_name > 0) (OsError EINVAL))
    (seq (ensure (length old_name < FILENAME_MAX_LEN - 1) (OsError ENAMETOOLONG))
    (seq (ensure (length new_name > 0) (OsError EINVAL))
    (seq (ensure (length new_name < FILENAME_MAX_LEN - 1) (OsError ENAMETOOLONG))
    (and_then (gets f_metadata) (\<lambda>m.
     and_then (meta_file_name m) (\<lambda>name.
     seq (ensure (name = str_bytes old_name) (SgxError Sgx_NameMismatch))
    (seq (upd_metadata (upd_encrypted (\<lambda>e. e\<lparr>me_file_name := fit FILENAME_MAX_LEN (str_bytes new_name)\<rparr>)))
         (modify (\<lambda>s. s\<lparr>f_need_writing := True\<rparr>)))))))))"

datatype CloseMode = CM_Normal | CM_Import | CM_Export

definition remove_recovery_file :: "'w fs_env \<Rightarrow> ('w FileInner, FsError, unit) rust" where
  "remove_recovery_file env =
     and_then (gets f_recovery_path) (\<lambda>path.
     if \<not> path_is_empty path
     then seq (attempt (on_host (host_remove env path)) :: ('w FileInner, FsError, FsError + unit) rust) (ret ())
     else ret ())"

definition file_close :: "'w fs_env \<Rightarrow> CloseMode \<Rightarrow> ('w FileInner, FsError, key128 option) prog" where
  "file_close env mode =
     p_then (returns (gets (\<lambda>s. (f_flags s, f_status s)))) (\<lambda>(flags, status).
     p_seq (returns (if mode \<in> {CM_Import, CM_Export}
                     then ensure (flags = EF_AutoKey) (SgxError Sgx_Unexpected) else ret ()))
    (p_seq (returns (if mode = CM_Import then modify (\<lambda>s. s\<lparr>f_need_writing := True\<rparr>) else ret ()))
    (p_seq (if status \<noteq> FS_Ok then file_clear_error env else internal_flush env True)
    (returns (
       and_then (gets (\<lambda>s. s)) (\<lambda>s.
       seq (if f_status s = FS_Ok \<and> fs_is_success (f_last_error s) then remove_recovery_file env else ret ())
      (seq (set_file_status Closed)
       (if mode = CM_Export
        then and_then (gets (\<lambda>s. (f_metadata s, f_key_gen s))) (\<lambda>(m, gen).
          and_then (meta_restore_key env m gen) (\<lambda>key. ret (Some key)))
        else ret None))))))))"

end
