(* ===== verification/Pfs_Open.thy ===== *)
theory Pfs_Open
  imports Pfs_Ops
begin

text \<open>
  Opening a protected file, \<open>tfs/src/sys/file/open.rs\<close>, and the handle \<open>ProtectedFile\<close> of \<open>tfs/src/sys/file/mod.rs\<close> with its lock. A host
  file that goes out of scope on an error path is closed.
\<close>

section \<open>Checks\<close>

definition opts_readonly :: "OpenOptions \<Rightarrow> bool" where
  "opts_readonly o' \<longleftrightarrow> oo_read o' \<and> \<not> oo_update o'"

definition opts_check :: "OpenOptions \<Rightarrow> ('s, FsError, unit) rust" where
  "opts_check o' = (case (oo_read o', oo_write o', oo_append o') of
     (True, False, False) \<Rightarrow> ret ()
   | (False, True, False) \<Rightarrow> ret ()
   | (False, False, True) \<Rightarrow> ret ()
   | _ \<Rightarrow> bail (OsError EINVAL))"

definition DEFAULT_CACHE_SIZE :: usize where
  "DEFAULT_CACHE_SIZE = 48 * SE_PAGE_SIZE"

definition check_cache_size :: "usize option \<Rightarrow> ('s, FsError, usize) rust" where
  "check_cache_size cache_size =
     (let cache_size = (case cache_size of Some n \<Rightarrow> n | None \<Rightarrow> DEFAULT_CACHE_SIZE) in
      if is_page_aligned cache_size \<and> cache_size \<ge> DEFAULT_CACHE_SIZE
      then ret (cache_size div SE_PAGE_SIZE) else bail (OsError EINVAL))"

definition check_open_param :: "Path \<Rightarrow> string \<Rightarrow> OpenOptions \<Rightarrow> OpenMode \<Rightarrow> ('s, FsError, unit) rust" where
  "check_open_param path name opts mode =
     and_then (ok_or (path_str path) (OsError EINVAL)) (\<lambda>path_str.
     seq (ensure (length path_str > 0 \<and> length path_str < FULLNAME_MAX_LEN - 1) (OsError EINVAL))
    (seq (ensure (length name > 0) (OsError EINVAL))
    (seq (ensure (length name < FILENAME_MAX_LEN - 1) (OsError ENAMETOOLONG))
    (seq (opts_check opts)
    (seq (mode_check mode)
     (case mode_import_key mode of
        Some key \<Rightarrow> ensure (key \<noteq> key_default) (OsError EINVAL)
      | None \<Rightarrow> ret ()))))))"

definition check_file_exist :: "'w fs_env \<Rightarrow> OpenOptions \<Rightarrow> OpenMode \<Rightarrow> Path \<Rightarrow> ('w, FsError, unit) rust" where
  "check_file_exist env opts mode path =
     and_then (try_exists env path) (\<lambda>is_exist.
     seq (if oo_read opts \<or> mode_import_key mode \<noteq> None then ensure is_exist (OsError ENOENT) else ret ())
     (if oo_write opts \<and> is_exist then
        seq (host_remove env path)
       (and_then (try_exists env path) (\<lambda>is_exist. ensure (\<not> is_exist) (OsError EACCES)))
      else ret ()))"

section \<open>Opening\<close>

text \<open>The slice \<open>file_name[0..name.len()]\<close> of the array panics when the name is longer than the array.\<close>

definition new_file :: "string \<Rightarrow> OpenMode \<Rightarrow> ('s, FsError, MetadataInfo) rust" where
  "new_file file_name mode =
     (let m = set_encrypt_flags (flags_of_mode mode) metadata_info_new;
          m = (case mode_key_policy mode of Some key_policy \<Rightarrow> set_key_policy key_policy m | None \<Rightarrow> m) in
      seq (rassert (length file_name \<le> FILENAME_MAX_LEN))
          (ret (upd_encrypted (\<lambda>e. e\<lparr>me_file_name := splice 0 (str_bytes file_name) (me_file_name e)\<rparr>) m)))"

definition open_file ::
    "'w fs_env \<Rightarrow> HostFile \<Rightarrow> string \<Rightarrow> FsKeyGen \<Rightarrow> OpenMode \<Rightarrow> ('w, FsError, MetadataInfo \<times> FileNode) rust" where
  "open_file env f file_name key_gen mode =
     and_then (meta_read_from_disk env f metadata_info_default) (\<lambda>m.
     let p = mi_plain m; encrypt_flags = flags_of_mode mode in
     seq (ensure (mp_file_id p = SGX_FILE_ID) (SgxError Sgx_NotSgxFile))
    (seq (ensure (mp_major_version p = SGX_FILE_MAJOR_VERSION) (OsError ENOTSUP))
    (seq (ensure (\<not> update_flag m) (SgxError Sgx_RecoveryNeeded))
    (seq (ensure (encrypt_flags = mp_encrypt_flags p) (OsError EINVAL))
    (seq (if mode_is_auto_key mode
          then ensure (mode_key_policy mode = Some (mp_key_policy p)) (OsError EINVAL) else ret ())
    (and_then (case mode_import_key mode of
        Some key \<Rightarrow>
          (case mode_key_policy mode of Some kp \<Rightarrow> ret (key, set_key_policy kp m) | None \<Rightarrow> panic)
      | None \<Rightarrow> and_then (meta_restore_key env m key_gen) (\<lambda>key. ret (key, m))) (\<lambda>(key, m).
     and_then (meta_decrypt env m key) (\<lambda>m.
     and_then (meta_file_name m) (\<lambda>name.
     seq (ensure (name = str_bytes file_name) (SgxError Sgx_NameMismatch))
     (let root = file_node_new_root encrypt_flags; e = mi_encrypted_plain m in
      and_then (if me_size e > MD_USER_DATA_SIZE then
                  and_then (node_read_from_disk env f root) (\<lambda>root.
                  and_then (node_decrypt env root (me_mht_key e) (me_mht_gmac e)) (\<lambda>root.
                    ret (root\<lparr>fn_new_node := False\<rparr>)))
                else ret root) (\<lambda>root.
        ret (m, root))))))))))))"

definition recover_and_reopen_file ::
    "'w fs_env \<Rightarrow> HostFile \<Rightarrow> Path \<Rightarrow> Path \<Rightarrow> OpenOptions \<Rightarrow> ('w, FsError, HostFile) rust" where
  "recover_and_reopen_file env f path recovery_path opts =
     seq (attempt (host_file_close env f) :: ('w, FsError, FsError + unit) rust)
    (seq (host_recovery env path recovery_path)
    (and_then (host_file_open env path (opts_readonly opts)) (\<lambda>f'.
     if hf_size f' = hf_size f then ret f'
     else seq (attempt (host_file_close env f') :: ('w, FsError, FsError + unit) rust) (bail (SgxError Sgx_Unexpected)))))"

text \<open>A computation that owns an open host file and closes it when it fails.\<close>

definition closing_on_err :: "'w fs_env \<Rightarrow> HostFile \<Rightarrow> ('w, FsError, 'a) rust \<Rightarrow> ('w, FsError, 'a) rust" where
  "closing_on_err env f =
     on_err (\<lambda>_. seq (attempt (host_file_close env f) :: ('w, FsError, FsError + unit) rust) (ret ()))"

definition open_existing ::
    "'w fs_env \<Rightarrow> HostFile \<Rightarrow> Path \<Rightarrow> string \<Rightarrow> Path \<Rightarrow> OpenOptions \<Rightarrow> FsKeyGen \<Rightarrow> OpenMode
      \<Rightarrow> ('w, FsError, HostFile \<times> MetadataInfo \<times> FileNode) rust" where
  "open_existing env f path file_name recovery_path opts key_gen mode =
     and_then (closing_on_err env f (
       seq (ensure (\<not> oo_write opts) (OsError EACCES))
       (and_then (attempt (open_file env f file_name key_gen mode)) (\<lambda>r. case r of
          Inr mr \<Rightarrow> ret (Some mr)
        | Inl e \<Rightarrow> if equal_to_sgx_error e Sgx_RecoveryNeeded then ret None else bail e)))) (\<lambda>r.
     case r of
       Some (m, root) \<Rightarrow> ret (f, m, root)
     | None \<Rightarrow>
         and_then (recover_and_reopen_file env f path recovery_path opts) (\<lambda>f'.
         and_then (closing_on_err env f' (open_file env f' file_name key_gen mode)) (\<lambda>(m, root).
           ret (f', m, root))))"

definition file_open ::
    "'w fs_env \<Rightarrow> Path \<Rightarrow> OpenOptions \<Rightarrow> OpenMode \<Rightarrow> usize option \<Rightarrow> ('w, FsError, 'w FileInner) rust" where
  "file_open env path opts mode cache_size =
     and_then (check_cache_size cache_size) (\<lambda>cache_size.
     and_then (ok_or (path_name path) (OsError EINVAL)) (\<lambda>file_name.
     seq (check_open_param path file_name opts mode)
    (and_then (fs_key_gen_new env mode) (\<lambda>key_gen.
     seq (check_file_exist env opts mode path)
    (and_then (host_file_open env path (opts_readonly opts)) (\<lambda>f.
     let recovery_path = with_file_name path (file_name @ ''_recovery'') in
     and_then (if hf_size f > 0 then
                 and_then (open_existing env f path file_name recovery_path opts key_gen mode) (\<lambda>(f, m, root).
                   ret (f, m, root, False,
                        if oo_append opts \<and> \<not> oo_update opts then me_size (mi_encrypted_plain m) else 0))
               else
                 and_then (new_file file_name mode) (\<lambda>m.
                   ret (f, m, file_node_new_root (flags_of_mode mode), True, 0))) (\<lambda>(f, m, root, need_writing, offset).
     and_then (gets (\<lambda>w. w)) (\<lambda>w.
     ret \<lparr>ns_nodes = [root], ns_world = w, f_host_file = f, f_metadata = m, f_root_mht = 0, f_key_gen = key_gen,
          f_opts = opts, f_need_writing = need_writing, f_end_of_file = False, f_max_cache_page = cache_size,
          f_offset = offset, f_last_error = SgxError Sgx_Success, f_status = FS_Ok, f_recovery_path = recovery_path,
          f_cache = cache_new cache_size\<rparr>))))))))"

section \<open>The handle\<close>

text \<open>A panic while the lock is held poisons it; every later call fails and marks the file corrupted.\<close>

record 'w ProtectedFile =
  pf_file :: "'w FileInner"
  pf_poisoned :: bool

definition locked :: "('w FileInner, FsError, 'a) prog \<Rightarrow> ('w ProtectedFile, FsError, 'a) prog" where
  "locked m h =
     (if pf_poisoned h then
        Some (Err (SgxError Sgx_Unexpected),
              h\<lparr>pf_file := (pf_file h)\<lparr>f_last_error := SgxError Sgx_Unexpected, f_status := MemoryCorrupted\<rparr>\<rparr>)
      else case m (pf_file h) of
        None \<Rightarrow> None
      | Some (Panic, s) \<Rightarrow> Some (Panic, h\<lparr>pf_file := s, pf_poisoned := True\<rparr>)
      | Some (r, s) \<Rightarrow> Some (r, h\<lparr>pf_file := s\<rparr>))"

definition with_error :: "('w FileInner, FsError, 'a) prog \<Rightarrow> ('w FileInner, FsError, 'a) prog" where
  "with_error m = p_on_err set_last_error m"

definition pf_write :: "'w fs_env \<Rightarrow> usize \<Rightarrow> byte list \<Rightarrow> ('w ProtectedFile, FsError, nat) prog" where
  "pf_write env buf bytes = locked (with_error (file_write env buf bytes))"

definition pf_write_at :: "'w fs_env \<Rightarrow> usize \<Rightarrow> byte list \<Rightarrow> nat \<Rightarrow> ('w ProtectedFile, FsError, nat) prog" where
  "pf_write_at env buf bytes offset = locked (with_error (file_write_at env buf bytes offset))"

definition pf_read :: "'w fs_env \<Rightarrow> usize \<Rightarrow> usize \<Rightarrow> ('w ProtectedFile, FsError, byte list) prog" where
  "pf_read env buf len = locked (with_error (file_read env buf len))"

definition pf_read_at :: "'w fs_env \<Rightarrow> usize \<Rightarrow> usize \<Rightarrow> nat \<Rightarrow> ('w ProtectedFile, FsError, byte list) prog" where
  "pf_read_at env buf len offset = locked (with_error (file_read_at env buf len offset))"

definition pf_tell :: "('w ProtectedFile, FsError, nat) prog" where
  "pf_tell = locked (with_error (returns file_tell))"

definition pf_seek :: "SeekFrom \<Rightarrow> ('w ProtectedFile, FsError, nat) prog" where
  "pf_seek pos = locked (with_error (returns (file_seek pos)))"

definition pf_set_len :: "'w fs_env \<Rightarrow> nat \<Rightarrow> ('w ProtectedFile, FsError, unit) prog" where
  "pf_set_len env sz = locked (with_error (file_set_len env sz))"

definition pf_flush :: "'w fs_env \<Rightarrow> ('w ProtectedFile, FsError, unit) prog" where
  "pf_flush env = locked (with_error (file_flush env))"

text \<open>The queries ignore the poison.\<close>

definition pf_file_size :: "'w ProtectedFile \<Rightarrow> (FsError, nat) res" where
  "pf_file_size h = fst (file_size (pf_file h))"

definition pf_get_eof :: "'w ProtectedFile \<Rightarrow> bool" where
  "pf_get_eof h = f_end_of_file (pf_file h)"

definition pf_get_error :: "'w ProtectedFile \<Rightarrow> FsError" where
  "pf_get_error h = get_last_error (pf_file h)"

definition pf_clear_cache :: "'w fs_env \<Rightarrow> ('w ProtectedFile, FsError, unit) prog" where
  "pf_clear_cache env = locked (with_error (file_clear_cache env))"

definition pf_clear_error :: "'w fs_env \<Rightarrow> ('w ProtectedFile, FsError, unit) prog" where
  "pf_clear_error env = locked (with_error (file_clear_error env))"

definition pf_get_metadata_mac :: "'w fs_env \<Rightarrow> ('w ProtectedFile, FsError, mac128) prog" where
  "pf_get_metadata_mac env = locked (with_error (file_get_metadata_mac env))"

definition pf_close :: "'w fs_env \<Rightarrow> ('w ProtectedFile, FsError, unit) prog" where
  "pf_close env = locked (p_then (file_close env CM_Normal) (\<lambda>_. returns (ret ())))"

definition pf_rename :: "string \<Rightarrow> string \<Rightarrow> ('w ProtectedFile, FsError, unit) prog" where
  "pf_rename old_name new_name = locked (with_error (returns (file_rename old_name new_name)))"

definition pf_open ::
    "'w fs_env \<Rightarrow> Path \<Rightarrow> OpenOptions \<Rightarrow> OpenMode \<Rightarrow> usize option \<Rightarrow> ('w, FsError, 'w ProtectedFile) rust" where
  "pf_open env path opts mode cache_size =
     and_then (file_open env path opts mode cache_size) (\<lambda>f. ret \<lparr>pf_file = f, pf_poisoned = False\<rparr>)"

text \<open>Exporting and importing keys opens a file, closes it in the mode and drops it.\<close>

definition run_file :: "'w FileInner \<Rightarrow> ('w FileInner, FsError, 'a) prog \<Rightarrow> ('w, FsError, 'a) prog" where
  "run_file f m w = (case m (f\<lparr>ns_world := w\<rparr>) of
     None \<Rightarrow> None
   | Some (Ok a, s) \<Rightarrow> Some (Ok a, ns_world s)
   | Some (Err e, s) \<Rightarrow> Some (Err e, ns_world s)
   | Some (Panic, s) \<Rightarrow> Some (Panic, ns_world s))"

definition close_file :: "'w fs_env \<Rightarrow> 'w FileInner \<Rightarrow> CloseMode \<Rightarrow> ('w, FsError, key128 option) prog" where
  "close_file env f mode =
     p_then (p_attempt (run_file f (file_close env mode))) (\<lambda>r.
     p_seq (returns (attempt (host_file_close env (f_host_file f)) :: ('w, FsError, FsError + unit) rust))
           (returns (case r of Inl e \<Rightarrow> bail e | Inr key \<Rightarrow> ret key)))"

definition opts_new :: OpenOptions where
  "opts_new = \<lparr>oo_read = False, oo_write = False, oo_append = False, oo_binary = False, oo_update = False\<rparr>"

definition export_key :: "'w fs_env \<Rightarrow> Path \<Rightarrow> ('w, FsError, key128) prog" where
  "export_key env path =
     p_then (returns (file_open env path (opts_new\<lparr>oo_read := True\<rparr>) ExportKey None)) (\<lambda>f.
     p_then (close_file env f CM_Export) (\<lambda>key. case key of Some k \<Rightarrow> returns (ret k) | None \<Rightarrow> returns panic))"

definition import_key :: "'w fs_env \<Rightarrow> Path \<Rightarrow> key128 \<Rightarrow> KeyPolicy option \<Rightarrow> ('w, FsError, unit) prog" where
  "import_key env path key key_policy =
     p_then (returns (file_open env path (opts_new\<lparr>oo_read := True, oo_update := True\<rparr>)
               (ImportKey key (case key_policy of Some p \<Rightarrow> p | None \<Rightarrow> KEY_POLICY_MRSIGNER)) None)) (\<lambda>f.
     p_then (close_file env f CM_Import) (\<lambda>_. returns (ret ())))"

end
