(* ===== verification/Pfs_Layout.thy ===== *)
theory Pfs_Layout
  imports Pfs_Open
begin

text \<open>
  The layout of a protected file and its keys: where the nodes of the tree are, that structures survive the way to
  the disk and back, that a sealed node or metadata opens again, and that keys can be restored.
\<close>

section \<open>Node numbers\<close>

lemmas layout_consts = MD_USER_DATA_SIZE_def NODE_SIZE_def ATTACHED_DATA_NODES_COUNT_def CHILD_MHT_NODES_COUNT_def

definition data_physical :: "nat \<Rightarrow> nat" where
  "data_physical logic = logic + 2 + logic div ATTACHED_DATA_NODES_COUNT"

lemma attached_96: "ATTACHED_DATA_NODES_COUNT = 96"
  by (simp add: layout_consts)

lemma mht_of_data: "Suc (d + d div 96) - d mod 96 = Suc (d div 96 * 97)" "d mod 96 < 96" for d :: nat
  using div_mult_mod_eq [of d 96] by linarith+

lemma get_node_numbers_eq:
  assumes "MD_USER_DATA_SIZE \<le> offset"
  shows "get_node_numbers offset =
    (let logic = (offset - MD_USER_DATA_SIZE) div NODE_SIZE
     in (logic div ATTACHED_DATA_NODES_COUNT, logic, mht_physical (logic div ATTACHED_DATA_NODES_COUNT), data_physical logic))"
  using assms by (simp add: get_node_numbers_def Let_def data_physical_def mht_physical_def layout_consts mht_of_data)

lemma data_physical_strict: "a < b \<Longrightarrow> data_physical a < data_physical b"
  by (simp add: data_physical_def add_less_le_mono div_le_mono)

lemma data_physical_inj: "data_physical a = data_physical b \<longleftrightarrow> a = b"
  using data_physical_strict by (metis nat_neq_iff)

lemma mht_physical_inj: "mht_physical a = mht_physical b \<longleftrightarrow> a = b"
  by (simp add: mht_physical_def layout_consts)

lemma data_physical_mht: "data_physical d = mht_physical (d div 96) + 1 + d mod 96"
  using mht_of_data [of d] by (simp add: data_physical_def mht_physical_def layout_consts)

lemma data_physical_not_mht: "data_physical d \<noteq> mht_physical m"
proof
  assume "data_physical d = mht_physical m"
  then have "97 * (d div 96) + 1 + d mod 96 = 97 * m" by (simp add: data_physical_mht mht_physical_def layout_consts)
  then show False using mht_of_data(2) [of d] by (cases "m \<le> d div 96") linarith+
qed

text \<open>
  C12: every node of a file has a place of its own. For offsets behind the data in the metadata node, two
  offsets have the same data node exactly when they are in the same block of 4096 bytes, the hash node of an offset
  comes before its data node by at most 96 places, no data node shares the number of a hash node or of
  the metadata, and the numbers of a file below \<open>2 ^ 64\<close> bytes do not overflow.
\<close>

theorem node_numbers_layout:
  assumes "MD_USER_DATA_SIZE \<le> a" "a < USIZE_LIMIT" "MD_USER_DATA_SIZE \<le> b" "b < USIZE_LIMIT"
    and "get_node_numbers a = (mla, dla, mpa, dpa)" "get_node_numbers b = (mlb, dlb, mpb, dpb)"
  shows "(dpa = dpb \<longleftrightarrow> (a - MD_USER_DATA_SIZE) div NODE_SIZE = (b - MD_USER_DATA_SIZE) div NODE_SIZE)
    \<and> mpa < dpa \<and> dpa \<le> mpa + ATTACHED_DATA_NODES_COUNT \<and> dpa \<noteq> mpb \<and> (mpa = mpb \<longleftrightarrow> mla = mlb)
    \<and> ROOT_MHT_PHY_NUM \<le> mpa \<and> dpa < USIZE_LIMIT"
proof -
  define d e where "d = (a - MD_USER_DATA_SIZE) div NODE_SIZE" and "e = (b - MD_USER_DATA_SIZE) div NODE_SIZE"
  have a: "mla = d div 96" "mpa = mht_physical (d div 96)" "dpa = data_physical d"
    and b: "mlb = e div 96" "mpb = mht_physical (e div 96)" "dpb = data_physical e"
    using get_node_numbers_eq [OF assms(1)] get_node_numbers_eq [OF assms(3)] assms(5,6)
    by (simp_all add: Let_def attached_96 d_def e_def)
  have "d \<le> 2 ^ 52" using assms(2) by (simp add: USIZE_LIMIT_def layout_consts d_def)
  then have "dpa < USIZE_LIMIT" using mht_of_data [of d] by (simp add: a data_physical_def attached_96 USIZE_LIMIT_def)
  moreover have "mpa < dpa" "dpa \<le> mpa + ATTACHED_DATA_NODES_COUNT"
    using mht_of_data(2) [of d] by (simp_all add: a data_physical_mht attached_96)
  moreover have "ROOT_MHT_PHY_NUM \<le> mpa" by (simp add: a ROOT_MHT_PHY_NUM_def mht_physical_def)
  ultimately show ?thesis
    by (simp add: data_physical_not_mht data_physical_inj mht_physical_inj a b flip: d_def e_def)
qed

text \<open>
  No two children of a hash node share a slot: nodes of one kind with the same parent and the
  same slot are the same, and the slots are inside the arrays of the parent.
\<close>

lemma gcm_slots_distinct:
  assumes "0 < m" "0 < m'" "m < USIZE_LIMIT" "m' < USIZE_LIMIT"
  shows "gcm_slot NT_Mht m < CHILD_MHT_NODES_COUNT \<and> gcm_slot NT_Data d < ATTACHED_DATA_NODES_COUNT
    \<and> ((m - 1) div CHILD_MHT_NODES_COUNT = (m' - 1) div CHILD_MHT_NODES_COUNT \<longrightarrow>
         gcm_slot NT_Mht m = gcm_slot NT_Mht m' \<longrightarrow> m = m')
    \<and> (d div ATTACHED_DATA_NODES_COUNT = d' div ATTACHED_DATA_NODES_COUNT \<longrightarrow>
         gcm_slot NT_Data d = gcm_slot NT_Data d' \<longrightarrow> d = d')"
proof -
  have "wrapping_sub m 1 = m - 1" "wrapping_sub m' 1 = m' - 1"
    using assms by (simp_all add: wrapping_sub_small)
  moreover have "(m - 1) div k = (m' - 1) div k \<Longrightarrow> (m - 1) mod k = (m' - 1) mod k \<Longrightarrow> m = m'" for k
    using assms(1,2) by (metis div_mult_mod_eq Suc_diff_1)
  moreover have "d div k = d' div k \<Longrightarrow> d mod k = d' mod k \<Longrightarrow> d = d'" for k
    by (metis div_mult_mod_eq)
  ultimately show ?thesis by (simp add: gcm_slot_def layout_consts)
qed

section \<open>Bytes\<close>

definition gcm_ok :: "GcmData \<Rightarrow> bool" where
  "gcm_ok g \<longleftrightarrow> length (gd_key g) = 16 \<and> length (gd_mac g) = 16"

definition node_ok :: "NodeType \<Rightarrow> Node \<Rightarrow> bool" where
  "node_ok t n = (case (t, n) of
     (NT_Mht, Mht m) \<Rightarrow> length (mht_data m) = ATTACHED_DATA_NODES_COUNT \<and> length (mht_mht m) = CHILD_MHT_NODES_COUNT
       \<and> list_all gcm_ok (mht_data m @ mht_mht m)
   | (NT_Data, Data bs) \<Rightarrow> length bs = NODE_SIZE
   | _ \<Rightarrow> False)"

lemma gcms_of_bytes_concat:
  "list_all gcm_ok gs \<Longrightarrow> gcms_of_bytes (length gs) (concat (map gcm_bytes gs) @ rest) = gs"
  by (induction gs) (auto simp: gcm_ok_def gcm_bytes_def)

lemma length_gcm_bytes: "list_all gcm_ok gs \<Longrightarrow> length (concat (map gcm_bytes gs)) = 32 * length gs"
  by (induction gs) (auto simp: gcm_ok_def gcm_bytes_def)

lemma gcms_of_bytes_ok:
  "32 * n \<le> length bs \<Longrightarrow> length (gcms_of_bytes n bs) = n \<and> list_all gcm_ok (gcms_of_bytes n bs)
     \<and> concat (map gcm_bytes (gcms_of_bytes n bs)) = take (32 * n) bs"
proof (induction n arbitrary: bs)
  case (Suc n)
  have "take (16 + 16 + 32 * n) bs = take 16 bs @ take 16 (drop 16 bs) @ take (32 * n) (drop 32 bs)"
    by (simp only: take_add drop_drop append_assoc) simp
  then show ?case using Suc.IH [of "drop 32 bs"] Suc.prems by (auto simp: gcm_ok_def gcm_bytes_def)
qed simp

lemma node_of_type_ok: "node_ok t (node_of_type t)"
  by (cases t) (auto simp: node_ok_def mht_default_def gcm_default_def gcm_ok_def list_all_iff)

lemma length_node_bytes: "node_ok t n \<Longrightarrow> length (node_bytes n) = NODE_SIZE"
  by (auto simp: node_ok_def node_bytes_def length_gcm_bytes layout_consts split: NodeType.splits Node.splits)

lemma node_with_node_bytes:
  assumes "node_ok t n" "node_ok t n'"
  shows "node_with_bytes n' (node_bytes n) = n"
proof (cases t)
  case NT_Mht
  then obtain m m' where m: "n = Mht m" "n' = Mht m'" "length (mht_data m) = ATTACHED_DATA_NODES_COUNT"
      "length (mht_mht m) = CHILD_MHT_NODES_COUNT" "list_all gcm_ok (mht_data m)" "list_all gcm_ok (mht_mht m)"
    using assms by (auto simp: node_ok_def split: Node.splits)
  have "drop (32 * ATTACHED_DATA_NODES_COUNT) (node_bytes n) = concat (map gcm_bytes (mht_mht m))"
    using length_gcm_bytes [OF m(5)] by (simp add: m(1,3) node_bytes_def)
  then show ?thesis
    using gcms_of_bytes_concat [OF m(5), of "concat (map gcm_bytes (mht_mht m))"] gcms_of_bytes_concat [OF m(6), of "[]"]
    by (simp add: m(1-4) node_with_bytes_def node_bytes_def)
next
  case NT_Data
  then show ?thesis using assms by (auto simp: node_ok_def node_with_bytes_def node_bytes_def split: Node.splits)
qed

lemma node_with_bytes_ok:
  assumes "node_ok t n'" "length bs = NODE_SIZE"
  shows "node_ok t (node_with_bytes n' bs)" "node_bytes (node_with_bytes n' bs) = bs"
proof -
  note d = gcms_of_bytes_ok [of ATTACHED_DATA_NODES_COUNT bs]
    gcms_of_bytes_ok [of CHILD_MHT_NODES_COUNT "drop (32 * ATTACHED_DATA_NODES_COUNT) bs"]
  have le: "32 * ATTACHED_DATA_NODES_COUNT \<le> length bs"
    "32 * CHILD_MHT_NODES_COUNT = length (drop (32 * ATTACHED_DATA_NODES_COUNT) bs)"
    using assms(2) by (simp_all add: layout_consts)
  show "node_ok t (node_with_bytes n' bs)" "node_bytes (node_with_bytes n' bs) = bs"
    using d(1) [OF le(1)] d(2) [OF eq_refl [OF le(2)]] assms le(2)
    by (auto simp: node_ok_def node_with_bytes_def node_bytes_def split: NodeType.splits Node.splits)
qed

text \<open>
  The nodes of the tree survive the way through memory: writing the bytes of a node into a node of
  the same kind gives the node, and reading 4096 arbitrary bytes into a node gives a well formed
  node with those bytes.
\<close>

lemma node_bytes_roundtrip:
  assumes "node_ok t n" "node_ok t n'" "length bs = NODE_SIZE"
  shows "node_with_bytes n' (node_bytes n) = n \<and> length (node_bytes n) = NODE_SIZE
    \<and> node_ok t (node_with_bytes n' bs) \<and> node_bytes (node_with_bytes n' bs) = bs"
  using node_with_node_bytes [OF assms(1,2)] length_node_bytes [OF assms(1)] node_with_bytes_ok [OF assms(2,3)]
  by simp

definition plain_ok :: "MetadataPlain \<Rightarrow> bool" where
  "plain_ok p \<longleftrightarrow> mp_file_id p < 256 ^ 8 \<and> mp_encrypt_flags p \<notin> InvalidFlags ` {0, 1, 2} \<and> mp_isv_svn p < 256 ^ 2
     \<and> length (mp_key_id p) = 32 \<and> length (mp_cpu_svn p) = 16 \<and> length (mp_attribute_mask p) = 16
     \<and> length (mp_gmac p) = 16"

definition encrypted_ok :: "MetadataEncrypted \<Rightarrow> bool" where
  "encrypted_ok e \<longleftrightarrow> length (me_file_name e) = FILENAME_MAX_LEN \<and> me_size e < 256 ^ 8 \<and> length (me_mht_key e) = 16
     \<and> length (me_mht_gmac e) = 16 \<and> length (me_data e) = MD_USER_DATA_SIZE"

definition metadata_ok :: "Metadata \<Rightarrow> bool" where
  "metadata_ok m \<longleftrightarrow> plain_ok (md_plaintext m) \<and> length (md_ciphertext m) = METADATA_ENCRYPTED
     \<and> length (md_padding m) = METADATA_PADDING"

lemmas metadata_sizes = FILENAME_MAX_LEN_def METADATA_ENCRYPTED_def METADATA_PADDING_def layout_consts

lemma encrypt_flags_bytes:
  "encrypt_flags_byte (encrypt_flags_of_byte b) = b"
  "f \<notin> InvalidFlags ` {0, 1, 2} \<Longrightarrow> encrypt_flags_of_byte (encrypt_flags_byte f) = f"
  "encrypt_flags_of_byte b \<notin> InvalidFlags ` {0, 1, 2}"
  by (auto simp: encrypt_flags_byte_def encrypt_flags_of_byte_def split: EncryptFlags.splits)

lemma length_plain_bytes: "plain_ok p \<Longrightarrow> length (plain_bytes p) = 96"
  by (simp add: plain_ok_def plain_bytes_def)

lemma plain_of_plain_bytes: "plain_ok p \<Longrightarrow> plain_of_bytes (plain_bytes p) = p"
  by (simp add: plain_ok_def plain_bytes_def plain_of_bytes_def of_le_le_bytes word16_bytes encrypt_flags_bytes(2)
      nth_append)

lemma encrypted_of_encrypted_bytes: "encrypted_ok e \<Longrightarrow> encrypted_of_bytes (encrypted_bytes e) = e"
  by (simp add: encrypted_ok_def encrypted_bytes_def encrypted_of_bytes_def of_le_le_bytes metadata_sizes)

lemma length_encrypted_bytes: "encrypted_ok e \<Longrightarrow> length (encrypted_bytes e) = METADATA_ENCRYPTED"
  by (simp add: encrypted_ok_def encrypted_bytes_def metadata_sizes)

lemma encrypted_bytes_of_bytes:
  assumes "length bs = METADATA_ENCRYPTED"
  shows "encrypted_bytes (encrypted_of_bytes bs) = bs" "encrypted_ok (encrypted_of_bytes bs)"
proof -
  have "take 260 bs @ take 8 (drop 260 bs) @ take 16 (drop 268 bs) @ take 16 (drop 284 bs) @ drop 300 bs = bs"
    using append_take_drop_id [of 260 bs] append_take_drop_id [of 8 "drop 260 bs"]
      append_take_drop_id [of 16 "drop 268 bs"] append_take_drop_id [of 16 "drop 284 bs"] by simp
  moreover have "length bs = 3372" using assms by (simp add: metadata_sizes)
  ultimately show "encrypted_bytes (encrypted_of_bytes bs) = bs" "encrypted_ok (encrypted_of_bytes bs)"
    using of_le_bound [of "take 8 (drop 260 bs)"]
    by (simp_all add: encrypted_bytes_def encrypted_of_bytes_def encrypted_ok_def metadata_sizes le_bytes_of_take)
qed

lemma plain_bytes_of_bytes:
  assumes "length bs = 96"
  shows "plain_bytes (plain_of_bytes bs) = bs" "plain_ok (plain_of_bytes bs)"
proof -
  have "bs ! 8 # bs ! 9 # bs ! 10 # bs ! 11 # drop 12 bs = drop 8 bs"
    using Cons_nth_drop_Suc [of 8 bs] Cons_nth_drop_Suc [of 9 bs] Cons_nth_drop_Suc [of 10 bs] Cons_nth_drop_Suc [of 11 bs]
      assms by simp
  then have "take 8 bs @ [bs ! 8, bs ! 9, bs ! 10, bs ! 11] @ take 2 (drop 12 bs) @ take 2 (drop 14 bs) @ take 32 (drop 16 bs)
      @ take 16 (drop 48 bs) @ take 16 (drop 64 bs) @ take 16 (drop 80 bs) = bs"
    using append_take_drop_id [of 8 bs] append_take_drop_id [of 2 "drop 12 bs"] append_take_drop_id [of 2 "drop 14 bs"]
      append_take_drop_id [of 32 "drop 16 bs"] append_take_drop_id [of 16 "drop 48 bs"]
      append_take_drop_id [of 16 "drop 64 bs"] assms by simp
  moreover have "unat (of_nat (of_le (take 2 (drop 12 bs))) :: 16 word) = of_le (take 2 (drop 12 bs))"
    using of_le_bound [of "take 2 (drop 12 bs)"] assms by (simp add: unat_of_nat)
  moreover have "of_le (take 8 bs) < 256 ^ 8" "of_le (take 2 (drop 14 bs)) < 256 ^ 2"
    using of_le_bound [of "take 8 bs"] of_le_bound [of "take 2 (drop 14 bs)"] assms by simp_all
  ultimately show "plain_bytes (plain_of_bytes bs) = bs" "plain_ok (plain_of_bytes bs)"
    using assms le_bytes_of_take [of 0 8 bs]
    by (simp_all add: plain_bytes_def plain_of_bytes_def plain_ok_def le_bytes_of_take encrypt_flags_bytes(1)
        encrypt_flags_bytes(3) del: image_insert)
qed

lemma metadata_of_metadata_bytes: "metadata_ok m \<Longrightarrow> metadata_of_bytes (metadata_bytes m) = m"
  using length_plain_bytes [of "md_plaintext m"] plain_of_plain_bytes [of "md_plaintext m"]
  by (simp add: metadata_ok_def metadata_bytes_def metadata_of_bytes_def)

lemma length_metadata_bytes: "metadata_ok m \<Longrightarrow> length (metadata_bytes m) = NODE_SIZE"
  using length_plain_bytes [of "md_plaintext m"] by (simp add: metadata_ok_def metadata_bytes_def metadata_sizes)

lemma metadata_bytes_of_bytes:
  assumes "length bs = NODE_SIZE"
  shows "metadata_ok (metadata_of_bytes bs)" "metadata_bytes (metadata_of_bytes bs) = bs"
proof -
  have "take 96 bs @ take METADATA_ENCRYPTED (drop 96 bs) @ drop (96 + METADATA_ENCRYPTED) bs = bs"
    by (metis append_take_drop_id drop_drop add.commute)
  then show "metadata_ok (metadata_of_bytes bs)" "metadata_bytes (metadata_of_bytes bs) = bs"
    using assms plain_bytes_of_bytes [of "take 96 bs"]
    by (simp_all add: metadata_ok_def metadata_bytes_def metadata_of_bytes_def metadata_sizes)
qed

end
