(* ===== verification/Pfs_Crypt.thy ===== *)
theory Pfs_Crypt
  imports Pfs_Layout
begin

text \<open>
  What is encrypted can be decrypted: nodes with the key and the code their parent keeps, metadata with the key a
  later session restores. The hypothesis on the cipher is \<open>gcm_correct\<close>.
\<close>

section \<open>Sealed bytes\<close>

lemma seal_bytes_Ok:
  assumes "gcm_correct (env_crypto env)" "seal_bytes env flags key plain cipher = (Ok mac, dst)"
    and "length buf = length plain"
  shows "open_bytes env flags key mac dst buf = Ok plain \<and> length dst = length plain \<and> length mac = 16"
proof (cases "flags = EF_IntegrityOnly")
  case True
  then obtain aes where new: "gcm_new key nonce_zeroed plain = Ok aes" and mac: "gcm_mac (env_crypto env) aes = Ok mac"
      and dst: "dst = plain"
    using assms(2) by (auto simp: seal_bytes_def split: res.splits if_splits)
  obtain dst' where "gcm_aad aes \<noteq> []"
      "rijndael128GCM_encrypt (env_crypto env) (gcm_key aes) [] (gcm_iv aes) (gcm_aad aes) = (Sgx_Success, dst', mac)"
    using mac by (auto simp: gcm_mac_def sgx_is_success_def split: if_splits prod.splits)
  with gcm_correctD [OF assms(1) this(2)] show ?thesis
    using assms(3) by (simp add: open_bytes_def True dst new gcm_verify_mac_def sgx_is_success_def)
next
  case False
  then obtain aes where new: "gcm_new key nonce_zeroed [] = Ok aes"
      and enc: "gcm_encrypt (env_crypto env) aes plain cipher = (Ok mac, dst)"
    using assms(2) by (auto simp: seal_bytes_def split: res.splits prod.splits)
  then have "length plain < I32_MAX"
      "rijndael128GCM_encrypt (env_crypto env) (gcm_key aes) plain (gcm_iv aes) (gcm_aad aes) = (Sgx_Success, dst, mac)"
    by (auto simp: gcm_encrypt_def sgx_is_success_def split: if_splits prod.splits)
  with gcm_correctD [OF assms(1) this(2)] show ?thesis
    using assms(3) False by (simp add: open_bytes_def new gcm_decrypt_def sgx_is_success_def)
qed

section \<open>Nodes\<close>

lemma twp_node_at [twp]: "twp (node_at r) P Q s \<longleftrightarrow> r < length (ns_nodes s) \<and> P (ns_nodes s ! r) s"
  by (simp add: node_at_def twp)

lemma twp_update_node [twp]:
  "twp (update_node r f) P Q s \<longleftrightarrow>
     r < length (ns_nodes s) \<and> P () (s\<lparr>ns_nodes := (ns_nodes s)[r := f (ns_nodes s ! r)]\<rparr>)"
  by (simp add: update_node_def twp)

lemma twp_build_ref [twp]: "twp (build_ref n) P Q s \<longleftrightarrow> P (length (ns_nodes s)) (s\<lparr>ns_nodes := ns_nodes s @ [n]\<rparr>)"
  by (simp add: build_ref_def twp)

lemma twp_of_res [twp]: "twp (of_res r) P Q s \<longleftrightarrow> (case r of Ok a \<Rightarrow> P a s | Err e \<Rightarrow> Q e s | Panic \<Rightarrow> False)"
  by (simp add: of_res_def twp_def)

text \<open>A slot of a hash node, read and written.\<close>

definition get_gcm :: "Node \<Rightarrow> NodeType \<Rightarrow> nat \<Rightarrow> GcmData" where
  "get_gcm node t i = (case node of
     Mht m \<Rightarrow> (case t of NT_Mht \<Rightarrow> mht_mht m ! i | NT_Data \<Rightarrow> mht_data m ! i)
   | Data _ \<Rightarrow> gcm_default)"

definition put_gcm :: "Node \<Rightarrow> NodeType \<Rightarrow> nat \<Rightarrow> GcmData \<Rightarrow> Node" where
  "put_gcm node t i g = (case node of
     Mht m \<Rightarrow> (case t of NT_Mht \<Rightarrow> Mht (m\<lparr>mht_mht := (mht_mht m)[i := g]\<rparr>)
                      | NT_Data \<Rightarrow> Mht (m\<lparr>mht_data := (mht_data m)[i := g]\<rparr>))
   | Data _ \<Rightarrow> node)"

lemma gcm_slot_bound:
  "gcm_slot NT_Mht l < CHILD_MHT_NODES_COUNT" "gcm_slot NT_Data l < ATTACHED_DATA_NODES_COUNT"
  by (simp_all add: gcm_slot_def layout_consts)

lemma node_gcm_data:
  assumes "node_ok NT_Mht node"
  shows "node_get_gcm_data node t (gcm_slot t l) = ret (Some (get_gcm node t (gcm_slot t l)))"
    "node_set_gcm_data node t (gcm_slot t l) g = ret (put_gcm node t (gcm_slot t l) g)"
    "node_get_gcm_data (put_gcm node t (gcm_slot t l) g) t (gcm_slot t l) = ret (Some g)"
    "gcm_ok g \<Longrightarrow> node_ok NT_Mht (put_gcm node t (gcm_slot t l) g)"
  using assms gcm_slot_bound
  by (auto simp: node_ok_def node_get_gcm_data_def node_set_gcm_data_def get_gcm_def put_gcm_def list_all_iff
      split: Node.splits NodeType.splits dest!: set_update_subset_insert [THEN subsetD])

text \<open>The nodes after \<open>node_encrypt\<close>.\<close>

definition sealed_nodes :: "FileNode list \<Rightarrow> node_ref \<Rightarrow> key128 \<Rightarrow> mac128 \<Rightarrow> byte list \<Rightarrow> FileNode list" where
  "sealed_nodes ns r key mac cipher =
     (let n = ns ! r; ns1 = ns[r := n\<lparr>fn_ciphertext := cipher\<rparr>] in
      case fn_parent n of
        Some p \<Rightarrow> if is_root_mht n then ns1 else
          ns1[p := (ns1 ! p)\<lparr>fn_plaintext := put_gcm (fn_plaintext (ns1 ! p)) (fn_node_type n)
             (gcm_slot (fn_node_type n) (fn_logic_number n)) \<lparr>gd_key = key, gd_mac = mac\<rparr>\<rparr>]
      | None \<Rightarrow> ns1)"

lemma twp_node_encrypt:
  assumes "r < length (ns_nodes s)"
    and "\<not> is_root_mht (ns_nodes s ! r) \<Longrightarrow> \<exists>p. fn_parent (ns_nodes s ! r) = Some p \<and> p < length (ns_nodes s)
      \<and> node_ok NT_Mht (fn_plaintext (ns_nodes s ! p))"
  shows "twp (node_encrypt env r key) P Q s \<longleftrightarrow>
    (case seal_bytes env (fn_encrypt_flags (ns_nodes s ! r)) key (node_bytes (fn_plaintext (ns_nodes s ! r)))
            (fn_ciphertext (ns_nodes s ! r)) of
       (Ok mac, cipher) \<Rightarrow> P mac (s\<lparr>ns_nodes := sealed_nodes (ns_nodes s) r key mac cipher\<rparr>)
     | (Err e, cipher) \<Rightarrow> Q e (s\<lparr>ns_nodes := (ns_nodes s)[r := (ns_nodes s ! r)\<lparr>fn_ciphertext := cipher\<rparr>]\<rparr>)
     | (Panic, _) \<Rightarrow> False)"
proof (cases "is_root_mht (ns_nodes s ! r)")
  case True
  then show ?thesis using assms(1)
    by (auto simp: node_encrypt_def twp sealed_nodes_def Let_def split: prod.splits res.splits option.splits)
next
  case False
  obtain p where p: "fn_parent (ns_nodes s ! r) = Some p" "p < length (ns_nodes s)"
      "node_ok NT_Mht (fn_plaintext (ns_nodes s ! p))"
    using assms(2) [OF False] by blast
  let ?ns = "\<lambda>cipher. (ns_nodes s)[r := (ns_nodes s ! r)\<lparr>fn_ciphertext := cipher\<rparr>]"
  have "node_ok NT_Mht (fn_plaintext (?ns cipher ! p))" for cipher
    using p(2,3) by (cases "p = r") simp_all
  then show ?thesis using assms(1) False p
    by (auto simp: node_encrypt_def twp sealed_nodes_def Let_def node_gcm_data split: prod.splits res.splits)
qed

lemma node_encrypt_Ok:
  assumes "node_encrypt env r key s = (Ok mac, s')" "r < length (ns_nodes s)"
    and "fn_parent (ns_nodes s ! r) = Some p" "p < length (ns_nodes s)" "node_ok NT_Mht (fn_plaintext (ns_nodes s ! p))"
  shows "\<exists>cipher. seal_bytes env (fn_encrypt_flags (ns_nodes s ! r)) key (node_bytes (fn_plaintext (ns_nodes s ! r)))
      (fn_ciphertext (ns_nodes s ! r)) = (Ok mac, cipher) \<and> s' = s\<lparr>ns_nodes := sealed_nodes (ns_nodes s) r key mac cipher\<rparr>"
proof -
  have "twp (node_encrypt env r key) (\<lambda>a t. a = mac \<and> t = s') (\<lambda>_ _. False) s"
    using assms(1) by (simp add: twp_def)
  then show ?thesis
    by (subst (asm) twp_node_encrypt) (use assms in \<open>auto split: prod.splits res.splits\<close>)
qed

text \<open>
  C10: a node that was encrypted into the tree can be read back: its parent holds the key and the code in the
  slot where they are looked up, and a fresh node with the cipher text decrypts to the contents.
\<close>

theorem node_encrypt_decrypt:
  fixes s s' :: "'w nstore"
  assumes "gcm_correct (env_crypto env)" "node_encrypt env r key s = (Ok mac, s')"
    and "r < length (ns_nodes s)" "n = ns_nodes s ! r" "node_ok (fn_node_type n) (fn_plaintext n)"
    and "\<not> is_root_mht n" "fn_physical_number n > ROOT_MHT_PHY_NUM" "fn_parent n = Some p" "p \<noteq> r"
    and "p < length (ns_nodes s)" "node_ok NT_Mht (fn_plaintext (ns_nodes s ! p))"
    and "fresh = (file_node_new (fn_node_type n) (fn_logic_number n) (fn_physical_number n) (fn_encrypt_flags n))
           \<lparr>fn_parent := Some p, fn_ciphertext := fn_ciphertext (ns_nodes s' ! r)\<rparr>"
  shows "node_get_gcm fresh s' = (Ok (Some \<lparr>gd_key = key, gd_mac = mac\<rparr>), s')
    \<and> fst (node_decrypt env fresh key mac s') = Ok (fresh\<lparr>fn_plaintext := fn_plaintext n\<rparr>)"
proof -
  let ?ns = "ns_nodes s"
  obtain cipher where seal: "seal_bytes env (fn_encrypt_flags n) key (node_bytes (fn_plaintext n)) (fn_ciphertext n) = (Ok mac, cipher)"
      and s': "s' = s\<lparr>ns_nodes := sealed_nodes ?ns r key mac cipher\<rparr>"
    using node_encrypt_Ok [OF assms(2,3)] assms(4,8,10,11) by blast
  have nodes: "ns_nodes s' = ?ns[r := n\<lparr>fn_ciphertext := cipher\<rparr>, p := (?ns ! p)\<lparr>fn_plaintext :=
      put_gcm (fn_plaintext (?ns ! p)) (fn_node_type n) (gcm_slot (fn_node_type n) (fn_logic_number n)) \<lparr>gd_key = key, gd_mac = mac\<rparr>\<rparr>]"
    using assms(3,4,6,8,9) by (simp add: s' sealed_nodes_def Let_def)
  have len: "length (node_bytes (node_of_type (fn_node_type n))) = length (node_bytes (fn_plaintext n))"
    using length_node_bytes [OF node_of_type_ok] length_node_bytes [OF assms(5)] by metis
  have fresh: "fn_node_type fresh = fn_node_type n" "fn_logic_number fresh = fn_logic_number n" "fn_parent fresh = Some p"
      "\<not> is_root_mht fresh" "fn_physical_number fresh = fn_physical_number n" "fn_encrypt_flags fresh = fn_encrypt_flags n"
      "fn_ciphertext fresh = cipher" "fn_plaintext fresh = node_of_type (fn_node_type n)"
    using assms(3,6,9,10) nodes by (simp_all add: assms(12) file_node_new_def is_root_mht_def)
  have "node_get_gcm fresh s' = (Ok (Some \<lparr>gd_key = key, gd_mac = mac\<rparr>), s')"
    using assms(7,9,10) nodes
    by (simp add: node_get_gcm_def fresh gcm_index_def node_at_def rust_defs node_gcm_data(3) [OF assms(11)])
  moreover have "fst (node_decrypt env fresh key mac s') = Ok (fresh\<lparr>fn_plaintext := fn_plaintext n\<rparr>)"
    using seal_bytes_Ok [OF assms(1) seal len] node_with_node_bytes [OF assms(5) node_of_type_ok]
    by (simp add: node_decrypt_def fresh of_res_def rust_defs)
  ultimately show ?thesis ..
qed

section \<open>Metadata\<close>

text \<open>The key generator that belongs to a mode; its master key is not part of this.\<close>

fun gen_for :: "'w fs_env \<Rightarrow> OpenMode \<Rightarrow> FsKeyGen \<Rightarrow> bool" where
  "gen_for env (AutoKey p) (EncryptWithIntegrity k _) \<longleftrightarrow> k = MK_AutoKey (env_isv_svn env) (env_cpu_svn env) (Some p)"
| "gen_for env (UserKey u) (EncryptWithIntegrity k _) \<longleftrightarrow> k = MK_UserKey u"
| "gen_for env IntegrityOnly KG_IntegrityOnly \<longleftrightarrow> True"
| "gen_for env (ImportKey _ p) (KG_Import k) \<longleftrightarrow> k = MK_AutoKey (env_isv_svn env) (env_cpu_svn env) (Some p)"
| "gen_for env ExportKey (KG_Export k) \<longleftrightarrow> k = MK_AutoKey (env_isv_svn env) (env_cpu_svn env) None"
| "gen_for env _ _ \<longleftrightarrow> False"

lemma fs_key_gen_new_for: "fs_key_gen_new env mode w = (Ok gen, w') \<Longrightarrow> gen_for env mode gen"
  by (cases mode) (auto simp: fs_key_gen_new_def metadata_key_new_def and_then_Ok_iff)

lemma derive_key_for:
  assumes "gen_for env mode gen" "derive_key env t number (gen, w) = (res, gen', w')"
  shows "gen_for env mode gen'"
proof -
  have "gen' = gen \<or> (\<exists>k mk mk'. gen = EncryptWithIntegrity k mk \<and> gen' = EncryptWithIntegrity k mk')"
    using assms(2) unfolding derive_key_def
    by (cases gen; cases t) (auto simp: rust_defs on_rng_def split: prod.splits res.splits if_splits)
  then show ?thesis using assms(1) by (cases mode) auto
qed

text \<open>The modes that open a file written in a mode.\<close>

fun opens :: "OpenMode \<Rightarrow> OpenMode \<Rightarrow> bool" where
  "opens (AutoKey p) mode \<longleftrightarrow> mode = AutoKey p \<or> mode = ExportKey"
| "opens (ImportKey _ p) mode \<longleftrightarrow> mode = AutoKey p \<or> mode = ExportKey"
| "opens (UserKey u) mode \<longleftrightarrow> mode = UserKey u"
| "opens IntegrityOnly mode \<longleftrightarrow> mode = IntegrityOnly"
| "opens ExportKey _ \<longleftrightarrow> False"

lemma kdf_input_fit: "kdf_input t number (fit 32 nonce) = kdf_input t number nonce"
  by (simp add: kdf_input_def fit_def)

lemma gen_forE:
  assumes "gen_for env mode gen"
  obtains p mk where "mode = AutoKey p" "gen = EncryptWithIntegrity (MK_AutoKey (env_isv_svn env) (env_cpu_svn env) (Some p)) mk"
  | u mk where "mode = UserKey u" "gen = EncryptWithIntegrity (MK_UserKey u) mk"
  | "mode = IntegrityOnly" "gen = KG_IntegrityOnly"
  | k p where "mode = ImportKey k p" "gen = KG_Import (MK_AutoKey (env_isv_svn env) (env_cpu_svn env) (Some p))"
  | "mode = ExportKey" "gen = KG_Export (MK_AutoKey (env_isv_svn env) (env_cpu_svn env) None)"
  using assms by (cases mode; cases gen) auto

lemma metadata_key_restore:
  assumes "metadata_derive_key env k KT_Metadata w = (Ok (key, key_id), w')"
  shows "length key_id = 32"
    and "k = MK_UserKey u \<Longrightarrow> metadata_restore_key env k KT_Metadata key_id p c i s = (Ok key, s)"
    and "k = MK_AutoKey isv cpu (Some p') \<Longrightarrow>
      metadata_restore_key env (MK_AutoKey isv' cpu' q) KT_Metadata key_id (Some p') (Some cpu) (Some isv) s = (Ok key, s)"
  using assms
  by (auto simp: metadata_derive_key_def metadata_restore_key_def kdf_derive_key_def kdf_restore_key_def kdf_input_fit
      get_key_def call_def rust_defs split: MetadataKey.splits res.splits prod.splits if_splits)

lemma meta_derive_key_Ok:
  assumes "meta_derive_key env m (gen, w) = (Ok (key, m1), t)" "gen_for env mode gen"
    and "mp_encrypt_flags (mi_plain m) = flags_of_mode mode"
  obtains "mode = IntegrityOnly" "key = key_default" "m1 = m"
  | u key_id w1 where "mode = UserKey u" "metadata_derive_key env (MK_UserKey u) KT_Metadata w = (Ok (key, key_id), w1)"
      "m1 = upd_plain (\<lambda>p. p\<lparr>mp_key_id := key_id\<rparr>) m"
  | p key_id w1 where "mode_key_policy mode = Some p"
      "metadata_derive_key env (MK_AutoKey (env_isv_svn env) (env_cpu_svn env) (Some p)) KT_Metadata w = (Ok (key, key_id), w1)"
      "m1 = upd_plain (\<lambda>p. p\<lparr>mp_key_id := key_id, mp_cpu_svn := env_cpu_svn env, mp_isv_svn := env_isv_svn env\<rparr>) m"
  using assms(1,3)
  by (cases rule: gen_forE [OF assms(2)])
     (auto simp: meta_derive_key_def derive_key_def on_rng_def zoom_def and_then_Ok_iff seq_Ok_iff flags_of_mode_def
       mode_key_policy_def split: prod.splits)

lemma meta_derive_key_restore:
  assumes "meta_derive_key env m (gen, w) = (Ok (key, m1), t)" "gen_for env mode gen" "gen_for env mode' gen'"
    and "opens mode mode'" "mp_encrypt_flags (mi_plain m) = flags_of_mode mode"
    and "\<And>p. mode_key_policy mode = Some p \<Longrightarrow> mp_key_policy (mi_plain m) = p"
    and "mi_plain m2 = (mi_plain m1)\<lparr>mp_gmac := mac\<rparr>"
  shows "meta_restore_key env m2 gen' s = (Ok key, s)"
  using assms(1,2,5)
proof (cases rule: meta_derive_key_Ok)
  case 1
  then show ?thesis using assms(3-5,7)
    by (cases mode'; cases gen') (auto simp: meta_restore_key_def restore_key_def flags_of_mode_def ret_def)
next
  case (2 u key_id w1)
  then show ?thesis using assms(3-5,7) metadata_key_restore(2) [OF 2(2) refl, where s = s]
    by (cases mode'; cases gen') (auto simp: meta_restore_key_def restore_key_def flags_of_mode_def upd_plain_def Let_def)
next
  case (3 p key_id w1)
  then have "mp_encrypt_flags (mi_plain m2) = EF_AutoKey" "mp_key_policy (mi_plain m2) = p" "mp_key_id (mi_plain m2) = key_id"
      "mp_cpu_svn (mi_plain m2) = env_cpu_svn env" "mp_isv_svn (mi_plain m2) = env_isv_svn env"
    using assms(5-7) by (auto simp: upd_plain_def flags_of_mode_def mode_key_policy_def split: OpenMode.splits)
  moreover have "mode' = AutoKey p \<or> mode' = ExportKey"
    using assms(4) 3(1) by (cases mode) (auto simp: mode_key_policy_def)
  ultimately show ?thesis using assms(3) metadata_key_restore(3) [OF 3(2) refl, where s = s]
    by (cases gen') (auto simp: meta_restore_key_def restore_key_def Let_def)
qed

lemma meta_derive_key_ok:
  assumes "meta_derive_key env m (gen, w) = (Ok (key, m1), t)" "gen_for env mode gen"
    and "mp_encrypt_flags (mi_plain m) = flags_of_mode mode" "metadata_ok (mi_metadata m)"
    and "length (env_cpu_svn env) = 16" "env_isv_svn env < 256 ^ 2"
  shows "metadata_ok (mi_metadata m1)" "mi_encrypted_plain m1 = mi_encrypted_plain m"
    "mp_encrypt_flags (mi_plain m1) = mp_encrypt_flags (mi_plain m)" "mp_update_flag (mi_plain m1) = mp_update_flag (mi_plain m)"
    "mp_key_policy (mi_plain m1) = mp_key_policy (mi_plain m)"
  by (cases rule: meta_derive_key_Ok [OF assms(1-3)];
      use assms(4-6) metadata_key_restore(1) in \<open>fastforce simp: upd_plain_def metadata_ok_def plain_ok_def\<close>)+

text \<open>
  C11: the metadata that a session encrypts can be read by a later one: from the bytes on the disk, every mode that
  opens files of the writing mode restores the key the writer derived and decrypts the same contents. The user
  key must be the same; a file with a sealing key, also one whose key was just imported, opens with its policy and can export its key.
\<close>

theorem metadata_reopen:
  assumes "gcm_correct (env_crypto env)" "length (env_cpu_svn env) = 16" "env_isv_svn env < 256 ^ 2"
    and "gen_for env mode gen" "gen_for env mode' gen'" "opens mode mode'"
    and "metadata_ok (mi_metadata m)" "encrypted_ok (mi_encrypted_plain m)"
    and "mp_encrypt_flags (mi_plain m) = flags_of_mode mode"
    and "\<And>p. mode_key_policy mode = Some p \<Longrightarrow> mp_key_policy (mi_plain m) = p"
    and "meta_derive_key env m (gen, w) = (Ok (key, m1), t)" "meta_encrypt env m1 key = (Ok (), m2)"
    and "on_disk = metadata_info_default\<lparr>mi_metadata := metadata_of_bytes (metadata_bytes (mi_metadata m2))\<rparr>"
  shows "meta_restore_key env on_disk gen' s = (Ok key, s)
    \<and> meta_decrypt env on_disk key s = (Ok (on_disk\<lparr>mi_encrypted_plain := mi_encrypted_plain m\<rparr>), s)"
proof -
  note m1 = meta_derive_key_ok [OF assms(11,4,9,7,2,3)]
  let ?e = "encrypted_bytes (mi_encrypted_plain m)"
  obtain mac cipher where seal: "seal_bytes env (mp_encrypt_flags (mi_plain m1)) key ?e (md_ciphertext (mi_metadata m1)) = (Ok mac, cipher)"
      and m2: "mi_metadata m2 = (mi_metadata m1)\<lparr>md_ciphertext := cipher, md_plaintext := (mi_plain m1)\<lparr>mp_gmac := mac\<rparr>\<rparr>"
    using assms(12) m1(2) by (auto simp: meta_encrypt_def upd_plain_def Let_def split: prod.splits res.splits)
  have len: "length (encrypted_bytes encrypted_default) = length ?e"
    using length_encrypted_bytes [OF assms(8)] by (simp add: encrypted_bytes_def encrypted_default_def metadata_sizes)
  note opened = seal_bytes_Ok [OF assms(1) seal len]
  have "metadata_ok (mi_metadata m2)"
    using m1(1) opened length_encrypted_bytes [OF assms(8)] by (simp add: m2 metadata_ok_def plain_ok_def)
  then have disk: "mi_metadata on_disk = mi_metadata m2" "mi_encrypted_plain on_disk = encrypted_default"
    by (simp_all add: assms(13) metadata_info_default_def metadata_of_metadata_bytes)
  show ?thesis
    using meta_derive_key_restore [OF assms(11,4,5,6,9,10), of on_disk mac s] opened encrypted_of_encrypted_bytes [OF assms(8)]
    by (simp add: disk m2 meta_decrypt_def of_res_def and_then_def ret_def)
qed

end
