(* ===== verification/Pfs_Wf.thy ===== *)
theory Pfs_Wf
  imports Pfs_Crypt
begin

text \<open>
  Well-formed protected files: the tree of nodes, the cache, the metadata and the position fit together. Nothing is assumed
  of the host; \<open>env_ok\<close> collects what the library relies on of the functions it calls inside the
  enclave: fixed sizes of their outputs, and that they return.
\<close>

section \<open>What is relied on\<close>

definition env_ok :: "'w fs_env \<Rightarrow> bool" where
  "env_ok env \<longleftrightarrow> crypto_ok (env_crypto env) \<and> (\<forall>request. env_get_key env request \<noteq> Panic)
     \<and> length (env_cpu_svn env) = 16 \<and> env_isv_svn env < 256 ^ 2"

lemma seal_bytes_total:
  assumes "env_ok env" "length cipher = length plain" "seal_bytes env flags key plain cipher = (r, d)"
  shows "length d = length plain \<and> r \<noteq> Panic \<and> (\<forall>mac. r = Ok mac \<longrightarrow> length mac = 16)"
proof -
  let ?c = "env_crypto env"
  have c: "crypto_ok ?c" using assms(1) by (simp add: env_ok_def)
  show ?thesis
  proof (cases "flags = EF_IntegrityOnly")
    case True
    then show ?thesis using assms(2,3) gcm_new_total [of key nonce_zeroed plain] gcm_ops_total(3,4) [OF c]
      by (auto simp: seal_bytes_def split: res.splits if_splits)
  next
    case False
    show ?thesis
    proof (cases "gcm_new key nonce_zeroed []")
      case (Ok aes)
      obtain r' d' where enc: "gcm_encrypt ?c aes plain cipher = (r', d')" by fastforce
      then show ?thesis using assms(3) False Ok gcm_ops_total(1) [OF c enc assms(2)]
        by (cases r') (auto simp: seal_bytes_def)
    qed (use assms(2,3) False gcm_new_total in \<open>auto simp: seal_bytes_def\<close>)
  qed
qed

lemma open_bytes_total:
  assumes "env_ok env" "length plain = length cipher"
  shows "case open_bytes env flags key mac cipher plain of Ok bs \<Rightarrow> length bs = length cipher | Err e \<Rightarrow> True | Panic \<Rightarrow> False"
proof -
  let ?c = "env_crypto env"
  have c: "crypto_ok ?c" using assms(1) by (simp add: env_ok_def)
  show ?thesis
  proof (cases "flags = EF_IntegrityOnly")
    case True
    then show ?thesis using assms(2) gcm_new_total [of key nonce_zeroed cipher] gcm_ops_total(5) [OF c]
      by (auto simp: open_bytes_def split: res.splits)
  next
    case False
    show ?thesis
    proof (cases "gcm_new key nonce_zeroed []")
      case (Ok aes)
      obtain r' d' where dec: "gcm_decrypt ?c aes cipher plain mac = (r', d')" by fastforce
      then show ?thesis using False Ok gcm_ops_total(2) [OF c dec assms(2)]
        by (cases r') (auto simp: open_bytes_def)
    qed (use False gcm_new_total in \<open>auto simp: open_bytes_def\<close>)
  qed
qed

lemma kdf_derive_key_total:
  assumes "env_ok env"
  shows "twp (kdf_derive_key env key t number) (\<lambda>(k, i) _. length k = 16 \<and> length i = 32) (\<lambda>_ _. True) w"
proof -
  have "crypto_ok (env_crypto env)" using assms(1) by (simp add: env_ok_def)
  note lens = crypto_okD [OF this]
  show ?thesis
    by (auto simp: kdf_derive_key_def twp cmac_def split: prod.splits res.splits if_splits dest: lens)
qed

lemma get_key_total:
  assumes "env_ok env"
  shows "twp (get_key env request) (\<lambda>_ t. t = s) (\<lambda>_ t. t = s) s"
proof -
  have "env_get_key env request \<noteq> Panic" using assms by (simp add: env_ok_def)
  then show ?thesis by (auto simp: get_key_def twp split: res.splits)
qed

lemma master_key_update_total:
  assumes "env_ok env"
  shows "twp (master_key_update env) (\<lambda>_ _. True) (\<lambda>_ _. True) (mk, w)"
  by (simp add: master_key_update_def twp master_key_new_def on_rng_def case_prod_beta)
     (rule impI, rule twp_conseq [OF kdf_derive_key_total [OF assms]], simp_all add: twp)

lemma master_derive_total:
  assumes "env_ok env"
  shows "twp (master_derive_key env KT_Random number) (\<lambda>(k, _) _. length k = 16) (\<lambda>_ _. True) (mk, w)"
proof -
  have "twp (on_rng (kdf_derive_key env key KT_Random number)) (\<lambda>(k, _) _. length k = 16) (\<lambda>_ _. True) t" for key t
    unfolding on_rng_def twp_zoom by (rule twp_conseq [OF kdf_derive_key_total [OF assms]]) auto
  then show ?thesis
    unfolding master_derive_key_def KeyType.case twp_and_then
    by (intro twp_conseq [OF master_key_update_total [OF assms]]) (simp_all add: case_prod_beta)
qed

lemma derive_random_total:
  assumes "env_ok env" "gen_for env mode gen"
  shows "twp (derive_key env KT_Random number) (\<lambda>(k, _) (g, _). length k = 16 \<and> gen_for env mode g)
    (\<lambda>_ (g, _). gen_for env mode g) (gen, w)"
proof -
  have "twp (derive_key env KT_Random number) (\<lambda>(k, _) _. length k = 16) (\<lambda>_ _. True) (gen, w)"
  proof (cases gen)
    case (EncryptWithIntegrity k mk)
    show ?thesis
      unfolding derive_key_def EncryptWithIntegrity twp_and_then twp_gets fst_conv FsKeyGen.case KeyType.case twp_zoom prod.case
      by (rule twp_conseq [OF master_derive_total [OF assms(1)]]) (simp_all add: case_prod_beta)
  qed (simp_all add: derive_key_def twp key_default_def)
  moreover obtain res g w' where d: "derive_key env KT_Random number (gen, w) = (res, g, w')"
    by (rule prod_cases3)
  ultimately show ?thesis using derive_key_for [OF assms(2) d]
    by (cases res) (simp_all add: twp_def d case_prod_beta)
qed

section \<open>Well-formed files\<close>

type_synonym shape = "NodeType \<times> nat \<times> nat \<times> node_ref option"

definition shape :: "FileNode \<Rightarrow> shape" where
  "shape n = (fn_node_type n, fn_logic_number n, fn_physical_number n, fn_parent n)"

primrec parent_logic :: "NodeType \<Rightarrow> nat \<Rightarrow> nat" where
  "parent_logic NT_Mht l = (l - 1) div CHILD_MHT_NODES_COUNT"
| "parent_logic NT_Data l = l div ATTACHED_DATA_NODES_COUNT"

primrec physical_of :: "NodeType \<Rightarrow> nat \<Rightarrow> nat" where
  "physical_of NT_Mht l = mht_physical l"
| "physical_of NT_Data l = data_physical l"

text \<open>
  A node has the number of its place; the root is the hash node 0, and every other node has the hash
  node above its place as its parent.
\<close>

definition shape_ok :: "shape list \<Rightarrow> node_ref \<Rightarrow> node_ref \<Rightarrow> bool" where
  "shape_ok sh root r = (case sh ! r of (t, l, phys, parent) \<Rightarrow>
     phys = physical_of t l
     \<and> (if r = root then t = NT_Mht \<and> l = 0
        else (t = NT_Mht \<longrightarrow> 0 < l)
          \<and> (case parent of None \<Rightarrow> False
             | Some p \<Rightarrow> p < length sh \<and> fst (sh ! p) = NT_Mht \<and> fst (snd (sh ! p)) = parent_logic t l)))"

definition shapes_ok :: "shape list \<Rightarrow> node_ref \<Rightarrow> bool" where
  "shapes_ok sh root \<longleftrightarrow> root < length sh \<and> (\<forall>r < length sh. shape_ok sh root r)"

definition content_ok :: "FileNode \<Rightarrow> bool" where
  "content_ok n \<longleftrightarrow> node_ok (fn_node_type n) (fn_plaintext n) \<and> length (fn_ciphertext n) = NODE_SIZE"

definition cache_ok :: "node_ref LruCache \<Rightarrow> shape list \<Rightarrow> node_ref \<Rightarrow> bool" where
  "cache_ok c sh root \<longleftrightarrow>
     lru_ok c \<and> list_all (\<lambda>(k, r). r < length sh \<and> r \<noteq> root \<and> fst (snd (snd (sh ! r))) = k) (entries c)"

definition meta_ok :: "MetadataInfo \<Rightarrow> bool" where
  "meta_ok m \<longleftrightarrow> metadata_ok (mi_metadata m) \<and> \<not> update_flag m
     \<and> length (me_file_name (mi_encrypted_plain m)) = FILENAME_MAX_LEN \<and> length (me_mht_key (mi_encrypted_plain m)) = 16
     \<and> length (me_mht_gmac (mi_encrypted_plain m)) = 16 \<and> length (me_data (mi_encrypted_plain m)) = MD_USER_DATA_SIZE"

definition mode_ok :: "'w fs_env \<Rightarrow> OpenMode \<Rightarrow> FsKeyGen \<Rightarrow> MetadataInfo \<Rightarrow> bool" where
  "mode_ok env mode gen m \<longleftrightarrow> gen_for env mode gen \<and> mp_encrypt_flags (mi_plain m) = flags_of_mode mode
     \<and> (case mode_key_policy mode of Some p \<Rightarrow> mp_key_policy (mi_plain m) = p | None \<Rightarrow> True)"

abbreviation shapes :: "'w FileInner \<Rightarrow> shape list" where
  "shapes s \<equiv> map shape (ns_nodes s)"

definition file_ok :: "'w fs_env \<Rightarrow> OpenMode \<Rightarrow> 'w FileInner \<Rightarrow> bool" where
  "file_ok env mode s \<longleftrightarrow> shapes_ok (shapes s) (f_root_mht s) \<and> list_all content_ok (ns_nodes s)
     \<and> cache_ok (f_cache s) (shapes s) (f_root_mht s) \<and> meta_ok (f_metadata s) \<and> mode_ok env mode (f_key_gen s) (f_metadata s)
     \<and> f_offset s \<le> f_size s"

section \<open>Reading the invariant\<close>

lemma shape_okD:
  assumes "shapes_ok (map shape ns) root" "r < length ns" "r \<noteq> root"
  shows "\<exists>p. fn_parent (ns ! r) = Some p \<and> p < length ns \<and> fn_node_type (ns ! p) = NT_Mht
      \<and> fn_logic_number (ns ! p) = parent_logic (fn_node_type (ns ! r)) (fn_logic_number (ns ! r))"
    "\<not> is_root_mht (ns ! r)" "fn_physical_number (ns ! r) > ROOT_MHT_PHY_NUM"
    "fn_node_type (ns ! r) = NT_Mht \<Longrightarrow> 0 < fn_logic_number (ns ! r)"
proof -
  have ok: "shape_ok (map shape ns) root r" using assms by (simp add: shapes_ok_def)
  then show "\<exists>p. fn_parent (ns ! r) = Some p \<and> p < length ns \<and> fn_node_type (ns ! p) = NT_Mht
      \<and> fn_logic_number (ns ! p) = parent_logic (fn_node_type (ns ! r)) (fn_logic_number (ns ! r))"
    using assms by (auto simp: shape_ok_def shape_def split: option.splits)
  show phys: "fn_physical_number (ns ! r) > ROOT_MHT_PHY_NUM"
    using ok assms by (cases "fn_node_type (ns ! r)")
      (auto simp: shape_ok_def shape_def ROOT_MHT_PHY_NUM_def mht_physical_def data_physical_def layout_consts)
  show "\<not> is_root_mht (ns ! r)" using phys by (simp add: is_root_mht_def)
  show "fn_node_type (ns ! r) = NT_Mht \<Longrightarrow> 0 < fn_logic_number (ns ! r)"
    using ok assms by (auto simp: shape_ok_def shape_def)
qed

lemma shape_ok_root:
  assumes "shapes_ok (map shape ns) root"
  shows "root < length ns" "is_root_mht (ns ! root)" "fn_node_type (ns ! root) = NT_Mht" "fn_physical_number (ns ! root) = 1"
    "fn_logic_number (ns ! root) = 0"
proof -
  have "root < length ns" "shape_ok (map shape ns) root root" using assms by (auto simp: shapes_ok_def)
  then show "root < length ns" "is_root_mht (ns ! root)" "fn_node_type (ns ! root) = NT_Mht" "fn_physical_number (ns ! root) = 1"
    "fn_logic_number (ns ! root) = 0"
    by (auto simp: shape_ok_def shape_def is_root_mht_def ROOT_MHT_PHY_NUM_def mht_physical_def)
qed

lemma shape_ok_phys:
  assumes "shapes_ok (map shape ns) root" "r < length ns"
  shows "fn_physical_number (ns ! r) = physical_of (fn_node_type (ns ! r)) (fn_logic_number (ns ! r))"
    "fn_physical_number (ns ! r) \<noteq> 0"
proof -
  have "shape_ok (map shape ns) root r" using assms by (auto simp: shapes_ok_def)
  then show "fn_physical_number (ns ! r) = physical_of (fn_node_type (ns ! r)) (fn_logic_number (ns ! r))"
    using assms(2) by (auto simp: shape_ok_def shape_def split: if_splits)
  then show "fn_physical_number (ns ! r) \<noteq> 0"
    by (cases "fn_node_type (ns ! r)") (simp_all add: mht_physical_def data_physical_def)
qed

lemma content_okD: "list_all content_ok ns \<Longrightarrow> r < length ns \<Longrightarrow> content_ok (ns ! r)"
  by (simp add: list_all_length)

lemma cache_okD:
  assumes "cache_ok c (map shape ns) root" "cache_find k c = Some r"
  shows "r < length ns" "r \<noteq> root" "fn_physical_number (ns ! r) = k"
  using assms lru.lookup_Some [of c k r] by (auto simp: cache_ok_def list_all_iff shape_def)

lemma update_shape: "shape n = shape (ns ! r) \<Longrightarrow> map shape (ns[r := n]) = map shape ns"
  by (metis map_update list_update_id nth_map list_update_beyond linorder_not_less length_map)

lemma update_content: "list_all content_ok ns \<Longrightarrow> content_ok n \<Longrightarrow> list_all content_ok (ns[r := n])"
  by (auto simp: list_all_iff dest!: set_update_subset_insert [THEN subsetD])

end
