(* ===== verification/Pfs_Flush.thy ===== *)
theory Pfs_Flush
  imports Pfs_Wf
begin

text \<open>
  Flushing a protected file: whatever the host does, it returns, keeps the file well formed and its contents as they are. If the
  waiting nodes were announced, with the file and its root marked and more than 3072 bytes, then after a success no cached node waits to be written.
\<close>

section \<open>What flushing leaves alone\<close>

definition data_of :: "FileNode \<Rightarrow> Node option" where
  "data_of n = (if fn_node_type n = NT_Data then Some (fn_plaintext n) else None)"

type_synonym file_frame = "shape list \<times> Node option list \<times> node_ref LruCache \<times> node_ref \<times> OpenOptions \<times> usize \<times> bool \<times> usize
  \<times> FsError \<times> usize \<times> byte list \<times> byte list"

definition frame :: "'w FileInner \<Rightarrow> file_frame" where
  "frame s = (shapes s, map data_of (ns_nodes s), f_cache s, f_root_mht s, f_opts s, f_offset s, f_end_of_file s, f_max_cache_page s,
     f_last_error s, f_size s, me_data (mi_encrypted_plain (f_metadata s)), me_file_name (mi_encrypted_plain (f_metadata s)))"

text \<open>Changes wait for the next flush: the root and the file are marked.\<close>

definition hot :: "'w FileInner \<Rightarrow> bool" where
  "hot s \<longleftrightarrow> f_need_writing s \<and> fn_need_writing (ns_nodes s ! f_root_mht s)"

definition flush_inv :: "'w fs_env \<Rightarrow> OpenMode \<Rightarrow> bool \<Rightarrow> 'w FileInner \<Rightarrow> 'w FileInner \<Rightarrow> bool" where
  "flush_inv env mode h s0 s \<longleftrightarrow> file_ok env mode s \<and> frame s = frame s0 \<and> (h \<longrightarrow> hot s)"

lemmas flush_inv_defs = flush_inv_def file_ok_def frame_def hot_def

lemma flush_inv_simps [simp]:
  "flush_inv env mode h s0 (s\<lparr>ns_world := w\<rparr>) = flush_inv env mode h s0 s"
  "flush_inv env mode h s0 (s\<lparr>f_status := st\<rparr>) = flush_inv env mode h s0 s"
  by (simp_all add: flush_inv_defs)

lemma flush_inv_frame:
  assumes "flush_inv env mode h s0 s"
  shows "file_ok env mode s" "shapes_ok (shapes s) (f_root_mht s)" "list_all content_ok (ns_nodes s)" "meta_ok (f_metadata s)"
    "f_cache s = f_cache s0" "f_root_mht s = f_root_mht s0" "shapes s = shapes s0" "length (ns_nodes s) = length (ns_nodes s0)"
  using assms map_eq_imp_length_eq [of shape "ns_nodes s" shape "ns_nodes s0"] by (auto simp: flush_inv_defs)

lemma twp_on_host:
  assumes "twp m (\<lambda>_ _. True) (\<lambda>_ _. True) (ns_world s)" "\<And>a w. P a (s\<lparr>ns_world := w\<rparr>)" "\<And>e w. Q e (s\<lparr>ns_world := w\<rparr>)"
  shows "twp (on_host m) P Q s" "twp (on_ns_world m) P Q s"
  unfolding on_host_def on_ns_world_def twp_zoom by (rule twp_conseq [OF assms(1)]; simp add: assms(2,3))+

lemma write_metadata_total:
  assumes "\<And>a w. P a (s\<lparr>ns_world := w\<rparr>)" "\<And>e w. Q e (s\<lparr>ns_world := w\<rparr>)"
  shows "twp (write_metadata env) P Q s"
  unfolding write_metadata_def twp_and_then twp_gets prod.case meta_write_to_disk_def
  by (rule twp_on_host; simp add: host_ops_total assms)

lemma host_flush_total:
  assumes "\<And>a w. P a (s\<lparr>ns_world := w\<rparr>)" "\<And>e w. Q e (s\<lparr>ns_world := w\<rparr>)"
  shows "twp (host_flush env) P Q s"
  unfolding host_flush_def twp_and_then twp_gets by (rule twp_on_host; simp add: host_ops_total assms)

lemma set_update_flag_twice:
  "\<not> update_flag m \<Longrightarrow> set_update_flag 0 (set_update_flag 1 m) = m"
  by (simp add: update_flag_def set_update_flag_def upd_plain_def)

lemma file_set_update_flag_inv:
  assumes "flush_inv env mode h s0 s"
  shows "twp (file_set_update_flag env b) (\<lambda>_. flush_inv env mode h s0) (\<lambda>_. flush_inv env mode h s0) s"
proof -
  have m: "set_update_flag 0 (set_update_flag 1 (f_metadata s)) = f_metadata s"
    using flush_inv_frame(4) [OF assms] by (simp add: meta_ok_def set_update_flag_twice)
  show ?thesis
    unfolding file_set_update_flag_def twp_seq twp_and_then twp_attempt upd_metadata_def twp_modify
    by (rule write_metadata_total)
       (auto simp: twp m assms intro!: host_flush_total write_metadata_total)
qed

lemma clear_update_flag_total:
  assumes "meta_ok (f_metadata s)" "\<And>w. P () (s\<lparr>ns_world := w\<rparr>)"
  shows "twp (clear_update_flag env) P Q s"
  unfolding clear_update_flag_def twp_seq twp_and_then twp_attempt twp_gets twp_rassert
  using assms by (auto simp: twp meta_ok_def intro!: host_flush_total write_metadata_total)

section \<open>Recovery files\<close>

text \<open>The nodes in the cache.\<close>

definition cached :: "'w FileInner \<Rightarrow> node_ref list" where
  "cached s = map snd (entries (f_cache s))"

lemma cached_ok:
  assumes "file_ok env mode s" "r \<in> set (cached s)"
  shows "r < length (ns_nodes s)" "r \<noteq> f_root_mht s"
  using assms by (auto simp: file_ok_def cache_ok_def cached_def list_all_iff)

lemma twp_cache_nodes: "file_ok env mode s \<Longrightarrow> twp cache_nodes P Q s \<longleftrightarrow> P (cached s) s"
  by (simp add: cache_nodes_def twp_def file_ok_def cache_ok_def cache_iter_entries cached_def)

lemma node_write_recovery_total:
  assumes "fn_physical_number n \<noteq> 0" "\<And>a w. P a (s\<lparr>ns_world := w\<rparr>)" "\<And>e w. Q e (s\<lparr>ns_world := w\<rparr>)"
  shows "twp (on_host (node_write_recovery_file env f n)) P Q s"
  by (rule twp_on_host) (use assms in \<open>simp_all add: node_write_recovery_file_def twp host_ops_total\<close>)

lemma meta_write_recovery_total:
  assumes "\<And>a w. P a (s\<lparr>ns_world := w\<rparr>)" "\<And>e w. Q e (s\<lparr>ns_world := w\<rparr>)"
  shows "twp (on_host (meta_write_recovery_file env f m)) P Q s"
  by (rule twp_on_host) (use assms in \<open>simp_all add: meta_write_recovery_file_def host_ops_total\<close>)

lemma flush_inv_node:
  assumes "flush_inv env mode h s0 s" "r = f_root_mht s0 \<or> r \<in> set (cached s0)"
  shows "r < length (ns_nodes s)" "fn_physical_number (ns_nodes s ! r) \<noteq> 0"
proof -
  note inv = flush_inv_frame [OF assms(1)]
  have "r = f_root_mht s \<or> r \<in> set (cached s)" using assms(2) inv(5,6) by (simp add: cached_def)
  then show "r < length (ns_nodes s)" using cached_ok(1) [OF inv(1)] shape_ok_root(1) [OF inv(2)] by blast
  then show "fn_physical_number (ns_nodes s ! r) \<noteq> 0" using shape_ok_phys [OF inv(2)] by blast
qed

lemma write_recovery_node_inv:
  assumes "flush_inv env mode h s0 s" "r = f_root_mht s0 \<or> r \<in> set (cached s0)"
  shows "twp (recovery_node env f r) (\<lambda>_. flush_inv env mode h s0) (\<lambda>_. flush_inv env mode h s0) s"
  using flush_inv_node [OF assms] assms(1) by (auto simp: recovery_node_def twp intro!: node_write_recovery_total)

lemma write_recovery_file_inv:
  fixes env :: "'w fs_env"
  assumes "flush_inv env mode h s0 s"
  shows "twp (write_recovery_file env) (\<lambda>_. flush_inv env mode h s0) (\<lambda>_. flush_inv env mode h s0) s"
proof -
  let ?I = "flush_inv env mode h s0"
  have close: "twp (on_host (recovery_file_close env f)) (\<lambda>_. ?I) (\<lambda>_. ?I) t" if "?I t" for f t
    by (rule twp_on_host; simp add: host_ops_total that)
  have rest: "twp (and_then (gets f_root_mht) (\<lambda>root. seq (recovery_node env f root)
       (and_then (gets f_metadata) (\<lambda>m. on_host (meta_write_recovery_file env f m))))) (\<lambda>_. ?I) (\<lambda>_. ?I) t" if "?I t" for f t
    using flush_inv_node [OF that disjI1 [OF refl]] flush_inv_frame(6) [OF that] that
    by (auto simp: recovery_node_def twp intro!: node_write_recovery_total meta_write_recovery_total)
  have "twp (write_recovery_file_node env) (\<lambda>_. ?I) (\<lambda>_. ?I) s"
    unfolding write_recovery_file_node_def twp_and_then [of "gets _"] twp_gets twp_and_then [of "on_host _"]
  proof (rule twp_on_host)
    fix f w
    let ?t = "s\<lparr>ns_world := w\<rparr>"
    have t: "?I ?t" using assms by simp
    have c: "set (cached ?t) = set (cached s0)" using flush_inv_frame(5) [OF t] by (simp add: cached_def)
    show "twp (scoped (and_then cache_nodes (\<lambda>nodes. seq (for_each (recovery_node env f) nodes)
       (and_then (gets f_root_mht) (\<lambda>root. seq (recovery_node env f root)
       (and_then (gets f_metadata) (\<lambda>m. on_host (meta_write_recovery_file env f m)))))))
       (on_host (recovery_file_close env f))) (\<lambda>_. ?I) (\<lambda>_. ?I) ?t"
      unfolding twp_scoped twp_and_then [of cache_nodes] twp_cache_nodes [OF flush_inv_frame(1) [OF t]] twp_seq
      by (rule twp_conseq [OF twp_for_each [of ?I ?t _ "recovery_node env f", OF t write_recovery_node_inv]])
         (auto simp: c intro!: close twp_conseq [OF rest])
  qed (use assms in \<open>simp_all add: host_paths_total\<close>)
  moreover have "twp (seq (attempt (on_host (host_remove env path)) :: ('w FileInner, FsError, FsError + unit) rust) (ret ())) (\<lambda>_. ?I) (\<lambda>_. ?I) t"
    if "?I t" for path t
    unfolding twp_seq twp_attempt twp_ret by (rule twp_on_host; simp add: host_paths_total that)
  ultimately show ?thesis
    unfolding write_recovery_file_def twp_on_err
    by (elim twp_conseq) (auto simp: twp_and_then twp_gets)
qed

section \<open>Encrypting nodes\<close>

lemma file_ok_nodes:
  assumes "flush_inv env mode h s0 s" "map shape ns = shapes s" "map data_of ns = map data_of (ns_nodes s)"
    and "list_all content_ok ns" "h \<Longrightarrow> fn_need_writing (ns_nodes s ! f_root_mht s) \<Longrightarrow> fn_need_writing (ns ! f_root_mht s)"
  shows "flush_inv env mode h s0 (s\<lparr>ns_nodes := ns\<rparr>)"
  using assms by (auto simp: flush_inv_defs)

text \<open>Marking a node for writing.\<close>

lemma flush_inv_mark:
  assumes "flush_inv env mode h s0 s" "r < length (ns_nodes s)"
  shows "flush_inv env mode h s0 (s\<lparr>ns_nodes := (ns_nodes s)[r := (ns_nodes s ! r)\<lparr>fn_need_writing := True\<rparr>]\<rparr>)"
proof (rule file_ok_nodes [OF assms(1)])
  let ?n = "(ns_nodes s ! r)\<lparr>fn_need_writing := True\<rparr>"
  show "map shape ((ns_nodes s)[r := ?n]) = shapes s" by (simp add: update_shape shape_def)
  show "map data_of ((ns_nodes s)[r := ?n]) = map data_of (ns_nodes s)" by (simp add: map_update data_of_def list_update_same_conv assms(2))
  show "list_all content_ok ((ns_nodes s)[r := ?n])"
    using flush_inv_frame(3) [OF assms(1)] assms(2) by (auto intro!: update_content simp: content_ok_def dest: content_okD)
  show "fn_need_writing (ns_nodes s ! f_root_mht s) \<Longrightarrow> fn_need_writing ((ns_nodes s)[r := ?n] ! f_root_mht s)"
    using assms(2) by (cases "r = f_root_mht s") auto
qed

lemma parent_less: "0 < l \<Longrightarrow> (l - 1) div CHILD_MHT_NODES_COUNT < l"
  by (rule le_less_trans [OF div_le_dividend]) simp

lemma mark_parents_unfold:
  "mark_parents (Some r) = p_then (returns (node_at r)) (\<lambda>mht.
     if \<not> is_root_mht mht then
       p_seq (returns (update_node r (\<lambda>n. n\<lparr>fn_need_writing := True\<rparr>))) (mark_parents (fn_parent mht))
     else returns (ret ()))"
  by (rule ext, subst mark_parents.simps) simp

lemma mark_parents_total:
  assumes "flush_inv env mode h s0 s" "p < length (ns_nodes s)" "fn_node_type (ns_nodes s ! p) = NT_Mht"
  shows "pwp (mark_parents (Some p)) (\<lambda>_. flush_inv env mode h s0) (\<lambda>_ _. False) s"
  using assms
proof (induction "fn_logic_number (ns_nodes s ! p)" arbitrary: p s rule: less_induct)
  case less
  let ?t = "s\<lparr>ns_nodes := (ns_nodes s)[p := (ns_nodes s ! p)\<lparr>fn_need_writing := True\<rparr>]\<rparr>"
  show ?case
  proof (cases "p = f_root_mht s")
    case True
    then show ?thesis using less.prems shape_ok_root(2) [OF flush_inv_frame(2) [OF less.prems(1)]]
      unfolding mark_parents_unfold [of p] by (simp add: pwp twp)
  next
    case False
    note sh = shape_okD [OF flush_inv_frame(2) [OF less.prems(1)] less.prems(2) False]
    obtain q where q: "fn_parent (ns_nodes s ! p) = Some q" "q < length (ns_nodes s)" "fn_node_type (ns_nodes s ! q) = NT_Mht"
        "fn_logic_number (ns_nodes s ! q) = (fn_logic_number (ns_nodes s ! p) - 1) div CHILD_MHT_NODES_COUNT"
      using sh(1) less.prems(3) by auto
    have "shape (ns_nodes ?t ! q) = shape (ns_nodes s ! q)"
      using q(2) by (cases "q = p") (simp_all add: shape_def)
    moreover have "fn_logic_number (ns_nodes s ! q) < fn_logic_number (ns_nodes s ! p)"
      unfolding q(4) by (rule parent_less) (rule sh(4) [OF less.prems(3)])
    ultimately have "pwp (mark_parents (Some q)) (\<lambda>_. flush_inv env mode h s0) (\<lambda>_ _. False) ?t"
      using flush_inv_mark [OF less.prems(1,2)] q(2,3) by (intro less.hyps) (auto simp: shape_def)
    then show ?thesis using sh(2) less.prems(2) q(1)
      unfolding mark_parents_unfold [of p] by (simp add: pwp twp)
  qed
qed

lemma mark_parents_inv:
  assumes "flush_inv env mode h s0 s" "p < length (ns_nodes s)" "fn_node_type (ns_nodes s ! p) = NT_Mht"
  shows "pwp (mark_parents (Some p)) (\<lambda>_. flush_inv env mode h s0) (\<lambda>_. flush_inv env mode h s0) s"
  by (rule pwp_conseq [OF mark_parents_total [OF assms]]) auto

lemma map_eq_by_nth:
  assumes "length ns' = length ns" "\<And>r. r < length ns \<Longrightarrow> f (ns' ! r) = f (ns ! r)"
  shows "map f ns' = map f ns"
  using assms by (auto intro: nth_equalityI)

lemma map_need_writing:
  "map fn_need_writing ns' = map fn_need_writing ns \<Longrightarrow> r < length ns \<Longrightarrow> fn_need_writing (ns' ! r) = fn_need_writing (ns ! r)"
  by (metis length_map nth_map)

lemma cipher_nodes_ok:
  assumes "list_all content_ok ns" "length cipher = NODE_SIZE" "ns' = ns[r := (ns ! r)\<lparr>fn_ciphertext := cipher\<rparr>]"
  shows "map shape ns' = map shape ns" "map data_of ns' = map data_of ns" "map fn_need_writing ns' = map fn_need_writing ns"
    "list_all content_ok ns'"
proof -
  have "shape (ns' ! i) = shape (ns ! i) \<and> data_of (ns' ! i) = data_of (ns ! i) \<and> fn_need_writing (ns' ! i) = fn_need_writing (ns ! i)
      \<and> content_ok (ns' ! i)" if "i < length ns" for i
    using that assms content_okD [OF assms(1) that]
    by (cases "i = r") (simp_all add: shape_def data_of_def content_ok_def)
  then show "map shape ns' = map shape ns" "map data_of ns' = map data_of ns" "map fn_need_writing ns' = map fn_need_writing ns"
    "list_all content_ok ns'"
    using assms(3) by (auto intro!: map_eq_by_nth simp: list_all_length)
qed

lemma sealed_nodes_ok:
  assumes "shapes_ok (map shape ns) root" "list_all content_ok ns" "r < length ns"
    and "length key = 16" "length mac = 16" "length cipher = NODE_SIZE" "ns' = sealed_nodes ns r key mac cipher"
  shows "map shape ns' = map shape ns" "map data_of ns' = map data_of ns" "map fn_need_writing ns' = map fn_need_writing ns"
    "list_all content_ok ns'"
proof -
  define ns1 where "ns1 = ns[r := (ns ! r)\<lparr>fn_ciphertext := cipher\<rparr>]"
  note c = cipher_nodes_ok [OF assms(2,6) ns1_def]
  have "map shape ns' = map shape ns1 \<and> map data_of ns' = map data_of ns1 \<and> map fn_need_writing ns' = map fn_need_writing ns1
      \<and> list_all content_ok ns'"
  proof (cases "r = root")
    case True
    then have "ns' = ns1" using shape_ok_root(2) [OF assms(1)]
      by (auto simp: assms(7) sealed_nodes_def Let_def ns1_def split: option.splits)
    then show ?thesis using c by simp
  next
    case False
    note sh = shape_okD [OF assms(1,3) False]
    obtain p where p: "fn_parent (ns ! r) = Some p" "p < length ns" "fn_node_type (ns ! p) = NT_Mht"
      using sh(1) by blast
    let ?n = "(ns1 ! p)\<lparr>fn_plaintext := put_gcm (fn_plaintext (ns1 ! p)) (fn_node_type (ns ! r))
        (gcm_slot (fn_node_type (ns ! r)) (fn_logic_number (ns ! r))) \<lparr>gd_key = key, gd_mac = mac\<rparr>\<rparr>"
    have ns': "ns' = ns1[p := ?n]" using sh(2) p(1) by (simp add: assms(7) sealed_nodes_def Let_def ns1_def)
    have l: "p < length ns1" using p(2) by (simp add: ns1_def)
    have t: "fn_node_type (ns1 ! p) = NT_Mht" using p(2,3) by (cases "p = r") (simp_all add: ns1_def)
    have "content_ok (ns1 ! p)" using c(4) l by (rule content_okD)
    then have "content_ok ?n" using t node_gcm_data(4) [of "fn_plaintext (ns1 ! p)"] assms(4,5)
      by (simp add: content_ok_def gcm_ok_def)
    then have "shape (ns' ! i) = shape (ns1 ! i) \<and> data_of (ns' ! i) = data_of (ns1 ! i)
        \<and> fn_need_writing (ns' ! i) = fn_need_writing (ns1 ! i) \<and> content_ok (ns' ! i)" if "i < length ns1" for i
      using that t content_okD [OF c(4) that]
      by (cases "i = p") (simp_all add: ns' shape_def data_of_def)
    moreover have "length ns' = length ns1" by (simp add: ns')
    ultimately show ?thesis by (auto intro!: map_eq_by_nth simp: list_all_length)
  qed
  then show "map shape ns' = map shape ns" "map data_of ns' = map data_of ns" "map fn_need_writing ns' = map fn_need_writing ns"
    "list_all content_ok ns'" using c by simp_all
qed

lemma twp_on_key_gen:
  assumes "twp m (\<lambda>a (g, _). gen_for env mode g \<and> R a) (\<lambda>_ (g, _). gen_for env mode g) (f_key_gen s, ns_world s)"
    and "\<And>a g w. gen_for env mode g \<Longrightarrow> R a \<Longrightarrow> P a (s\<lparr>f_key_gen := g, ns_world := w\<rparr>)"
    and "\<And>e g w. gen_for env mode g \<Longrightarrow> Q e (s\<lparr>f_key_gen := g, ns_world := w\<rparr>)"
  shows "twp (on_key_gen m) P Q s"
  unfolding on_key_gen_def twp_zoom by (rule twp_conseq [OF assms(1)]) (auto simp: assms(2,3))

lemma flush_inv_gen:
  assumes "flush_inv env mode h s0 s" "gen_for env mode g"
  shows "flush_inv env mode h s0 (s\<lparr>f_key_gen := g\<rparr>)" "flush_inv env mode h s0 (s\<lparr>f_key_gen := g, ns_world := w\<rparr>)"
  using assms by (auto simp: flush_inv_defs mode_ok_def)

lemma node_encrypt_inv:
  assumes "env_ok env" "flush_inv env mode h s0 s" "r < length (ns_nodes s)" "length key = 16"
  shows "twp (node_encrypt env r key) (\<lambda>mac t. length mac = 16 \<and> flush_inv env mode h s0 t) (\<lambda>_. flush_inv env mode h s0) s"
proof -
  let ?n = "ns_nodes s ! r" and ?root = "f_root_mht s"
  note inv = flush_inv_frame [OF assms(2)]
  have ok: "content_ok ?n" using inv(3) assms(3) by (rule content_okD)
  have plain: "length (node_bytes (fn_plaintext ?n)) = NODE_SIZE" using ok length_node_bytes by (auto simp: content_ok_def)
  obtain res cipher where seal: "seal_bytes env (fn_encrypt_flags ?n) key (node_bytes (fn_plaintext ?n)) (fn_ciphertext ?n) = (res, cipher)"
    by fastforce
  have t: "length cipher = NODE_SIZE" "res \<noteq> Panic" "\<And>mac. res = Ok mac \<Longrightarrow> length mac = 16"
    using seal_bytes_total [OF assms(1) _ seal] plain ok by (auto simp: content_ok_def)
  have parent: "\<exists>p. fn_parent ?n = Some p \<and> p < length (ns_nodes s) \<and> node_ok NT_Mht (fn_plaintext (ns_nodes s ! p))"
    if "\<not> is_root_mht ?n"
  proof -
    have "r \<noteq> ?root" using that shape_ok_root(2) [OF inv(2)] by blast
    then show ?thesis using shape_okD(1) [OF inv(2) assms(3)] content_okD [OF inv(3)] by (force simp: content_ok_def)
  qed
  show ?thesis
  proof (cases res)
    case (Ok mac)
    note s = sealed_nodes_ok [OF inv(2,3) assms(3,4) t(3) [OF Ok] t(1) refl]
    have "flush_inv env mode h s0 (s\<lparr>ns_nodes := sealed_nodes (ns_nodes s) r key mac cipher\<rparr>)"
      using s map_need_writing [OF s(3)] shape_ok_root(1) [OF inv(2)] by (intro file_ok_nodes [OF assms(2)]) auto
    then show ?thesis
      using t(3) [OF Ok] by (subst twp_node_encrypt [OF assms(3) parent]) (auto simp: seal Ok)
  next
    case (Err e)
    note s = cipher_nodes_ok [OF inv(3) t(1) refl, of r]
    have "flush_inv env mode h s0 (s\<lparr>ns_nodes := (ns_nodes s)[r := ?n\<lparr>fn_ciphertext := cipher\<rparr>]\<rparr>)"
      using s map_need_writing [OF s(3)] shape_ok_root(1) [OF inv(2)] by (intro file_ok_nodes [OF assms(2)]) auto
    then show ?thesis by (subst twp_node_encrypt [OF assms(3) parent]) (auto simp: seal Err)
  qed (use t(2) in simp)
qed

lemma twp_ret_eta: "twp (ret a) P Q = P a"
  by (simp add: fun_eq_iff twp)

lemma seal_node_inv:
  assumes "env_ok env" "flush_inv env mode h s0 s" "r < length (ns_nodes s)"
  shows "twp (seal_node env r) (\<lambda>(key, mac) t. length key = 16 \<and> length mac = 16 \<and> flush_inv env mode h s0 t)
    (\<lambda>_. flush_inv env mode h s0) s"
proof -
  have gen: "gen_for env mode (f_key_gen s)" using flush_inv_frame(1) [OF assms(2)] by (simp add: file_ok_def mode_ok_def)
  have enc: "twp (node_encrypt env r key) (\<lambda>mac t. length mac = 16 \<and> flush_inv env mode h s0 t) (\<lambda>_. flush_inv env mode h s0)
      (s\<lparr>f_key_gen := g, ns_world := w\<rparr>)" if "gen_for env mode g" "length key = 16" for g w key
    using node_encrypt_inv [OF assms(1) flush_inv_gen(2) [OF assms(2) that(1)] _ that(2)] assms(3) by simp
  have "twp (on_key_gen (derive_key env KT_Random (fn_physical_number (ns_nodes s ! r))))
      (\<lambda>a. twp (node_encrypt env r (fst a)) (\<lambda>mac t. length (fst a) = 16 \<and> length mac = 16 \<and> flush_inv env mode h s0 t)
        (\<lambda>_. flush_inv env mode h s0))
      (\<lambda>_. flush_inv env mode h s0) s"
    by (rule twp_on_key_gen [where R = "\<lambda>(k, _). length k = 16", OF twp_conseq [OF derive_random_total [OF assms(1) gen]]])
       (auto simp: flush_inv_gen(1) [OF assms(2)] case_prod_beta intro!: twp_conseq [OF enc])
  then show ?thesis using assms(3)
    by (simp add: seal_node_def node_derive_key_def twp twp_ret_eta case_prod_beta)
qed

lemma flush_inv_root_gmac:
  assumes "flush_inv env mode h s0 s" "length key = 16" "length mac = 16"
  shows "flush_inv env mode h s0 (s\<lparr>f_metadata := upd_encrypted (\<lambda>e. e\<lparr>me_mht_key := key, me_mht_gmac := mac\<rparr>) (f_metadata s)\<rparr>)"
  using assms by (auto simp: flush_inv_defs meta_ok_def update_flag_def mode_ok_def upd_encrypted_def
      split: option.splits)

lemma update_nodes_inv:
  assumes "env_ok env" "flush_inv env mode h s0 s"
  shows "pwp (update_nodes env) (\<lambda>_. flush_inv env mode h s0) (\<lambda>_. flush_inv env mode h s0) s"
proof -
  let ?I = "flush_inv env mode h s0"
  have len: "r < length (ns_nodes t)" if "?I t" "r \<in> set (cached s)" for r t
    using flush_inv_frame(5) [OF assms(2)] flush_inv_node(1) [OF that(1)] that(2) by (auto simp: cached_def)
  have data: "pwp (p_then (returns (node_at r)) (\<lambda>node. if is_data node \<and> fn_need_writing node
      then p_seq (returns (seal_node env r)) (mark_parents (fn_parent node)) else returns (ret ()))) (\<lambda>_. ?I) (\<lambda>_. ?I) t"
    if t: "?I t" "r \<in> set (cached s)" for r t
  proof -
    note r = len [OF t] and inv = flush_inv_frame [OF t(1)]
    have "r \<noteq> f_root_mht t" using cached_ok(2) [OF inv(1)] t inv(5) flush_inv_frame(5) [OF assms(2)] by (simp add: cached_def)
    then obtain p where p: "fn_parent (ns_nodes t ! r) = Some p" "p < length (ns_nodes t)" "fn_node_type (ns_nodes t ! p) = NT_Mht"
      using shape_okD(1) [OF inv(2) r] by blast
    have "pwp (mark_parents (Some p)) (\<lambda>_. ?I) (\<lambda>_. ?I) t'" if "?I t'" for t'
    proof -
      have "shape (ns_nodes t' ! p) = shape (ns_nodes t ! p)" "p < length (ns_nodes t')"
        using flush_inv_frame(7,8) [OF that] inv(7,8) p(2) by (metis nth_map)+
      then show ?thesis using mark_parents_inv [OF that] p(3) by (simp add: shape_def)
    qed
    then show ?thesis using r p(1) seal_node_inv [OF assms(1) t(1) r]
      by (auto simp: pwp twp t(1) elim!: twp_conseq)
  qed
  have seal: "twp (seq (seal_node env r) (ret ())) (\<lambda>_. ?I) (\<lambda>_. ?I) t" if "?I t" "r \<in> set (cached s)" for r t
    using seal_node_inv [OF assms(1) that(1) len [OF that]] by (auto simp: twp elim!: twp_conseq)
  have root: "twp (and_then (gets f_root_mht) (\<lambda>root. and_then (seal_node env root) (\<lambda>(key, mac).
      upd_metadata (upd_encrypted (\<lambda>e. e\<lparr>me_mht_key := key, me_mht_gmac := mac\<rparr>))))) (\<lambda>_. ?I) (\<lambda>_. ?I) t" if "?I t" for t
    using seal_node_inv [OF assms(1) that shape_ok_root(1) [OF flush_inv_frame(2) [OF that]]]
    by (auto simp: twp upd_metadata_def intro: flush_inv_root_gmac elim!: twp_conseq)
  show ?thesis
    unfolding update_nodes_def pwp_then [of "returns cache_nodes"] pwp_returns twp_cache_nodes [OF flush_inv_frame(1) [OF assms(2)]] pwp_seq
    by (rule pwp_conseq [OF pwp_for_each [of ?I s, OF assms(2) data]])
       (auto simp: twp_and_then [of "gets ns_nodes"] twp_gets Let_def twp_seq intro!: twp_conseq [OF twp_for_each [of ?I, OF _ seal]] root)
qed

section \<open>Metadata and disk\<close>

lemma metadata_derive_total:
  assumes "env_ok env"
  shows "twp (metadata_derive_key env k KT_Metadata) (\<lambda>_ _. True) (\<lambda>_ _. True) w"
proof (cases k)
  case (MK_UserKey u)
  then show ?thesis
    by (auto simp: metadata_derive_key_def twp intro!: twp_conseq [OF kdf_derive_key_total [OF assms]])
next
  case (MK_AutoKey isv cpu p)
  then show ?thesis
    by (auto simp: metadata_derive_key_def twp intro!: twp_conseq [OF get_key_total [OF assms]] split: prod.splits)
qed

lemma meta_derive_total:
  assumes "env_ok env" "mode_ok env mode gen m" "meta_ok m"
  shows "twp (meta_derive_key env m)
    (\<lambda>a (g, _). gen_for env mode g \<and> meta_ok (snd a) \<and> mi_encrypted_plain (snd a) = mi_encrypted_plain m \<and> mode_ok env mode g (snd a))
    (\<lambda>_ (g, _). gen_for env mode g) (gen, w)"
proof -
  have gen: "gen_for env mode gen" and flags: "mp_encrypt_flags (mi_plain m) = flags_of_mode mode"
    using assms(2) by (auto simp: mode_ok_def)
  have "twp (derive_key env KT_Metadata 0) (\<lambda>_ _. True) (\<lambda>_ _. True) (gen, w)"
    using metadata_derive_total [OF assms(1)] by (cases gen) (auto simp: derive_key_def twp on_rng_def)
  moreover have "mp_encrypt_flags (mi_plain m) \<noteq> InvalidFlags b" for b
    by (simp add: flags flags_of_mode_def split: OpenMode.splits)
  ultimately have "twp (meta_derive_key env m) (\<lambda>_ _. True) (\<lambda>_ _. True) (gen, w)"
    by (auto simp: meta_derive_key_def twp elim!: twp_conseq split: EncryptFlags.splits)
  moreover obtain res g w' where d: "meta_derive_key env m (gen, w) = (res, g, w')" by (rule prod_cases3)
  moreover have "gen_for env mode g"
  proof -
    obtain r g' w1 where dk: "derive_key env KT_Metadata 0 (gen, w) = (r, g', w1)" by (rule prod_cases3)
    then have "g = g'" using d
      by (cases r) (auto simp: meta_derive_key_def rust_defs split: EncryptFlags.splits prod.splits)
    then show ?thesis using derive_key_for [OF gen dk] by simp
  qed
  moreover have "meta_ok m1 \<and> mi_encrypted_plain m1 = mi_encrypted_plain m \<and> mode_ok env mode g m1" if "res = Ok (key, m1)" for key m1
    using meta_derive_key_ok [OF d [unfolded that] gen flags] assms \<open>gen_for env mode g\<close>
    by (auto simp: meta_ok_def env_ok_def mode_ok_def update_flag_def split: option.splits)
  ultimately show ?thesis by (cases res) (auto simp: twp_def)
qed

lemma meta_encrypt_total:
  assumes "env_ok env" "meta_ok m" "meta_encrypt env m key = (res, m')"
  shows "res \<noteq> Panic" "meta_ok m'" "mi_encrypted_plain m' = mi_encrypted_plain m"
    "mp_encrypt_flags (mi_plain m') = mp_encrypt_flags (mi_plain m)" "mp_key_policy (mi_plain m') = mp_key_policy (mi_plain m)"
proof -
  let ?e = "encrypted_bytes (mi_encrypted_plain m)"
  obtain r cipher where seal: "seal_bytes env (mp_encrypt_flags (mi_plain m)) key ?e (md_ciphertext (mi_metadata m)) = (r, cipher)"
    by fastforce
  have e: "length ?e = METADATA_ENCRYPTED" "length (md_ciphertext (mi_metadata m)) = METADATA_ENCRYPTED"
    using assms(2) by (simp_all add: meta_ok_def encrypted_bytes_def metadata_ok_def metadata_sizes)
  note t = seal_bytes_total [OF assms(1) _ seal]
  show "res \<noteq> Panic" "meta_ok m'" "mi_encrypted_plain m' = mi_encrypted_plain m"
    "mp_encrypt_flags (mi_plain m') = mp_encrypt_flags (mi_plain m)" "mp_key_policy (mi_plain m') = mp_key_policy (mi_plain m)"
    using assms(2,3) t e
    by (auto simp: meta_encrypt_def seal Let_def meta_ok_def metadata_ok_def plain_ok_def upd_plain_def update_flag_def split: res.splits)
qed

lemma flush_inv_meta:
  assumes "flush_inv env mode h s0 s" "meta_ok m" "mi_encrypted_plain m = mi_encrypted_plain (f_metadata s)" "mode_ok env mode (f_key_gen s) m"
  shows "flush_inv env mode h s0 (s\<lparr>f_metadata := m\<rparr>)"
  using assms by (auto simp: flush_inv_defs)

lemma update_metadata_inv:
  assumes "env_ok env" "flush_inv env mode h s0 s"
  shows "twp (update_metadata env) (\<lambda>_. flush_inv env mode h s0) (\<lambda>_. flush_inv env mode h s0) s"
proof -
  let ?m = "f_metadata s" and ?I = "flush_inv env mode h s0"
  have m: "meta_ok ?m" "mode_ok env mode (f_key_gen s) ?m" using flush_inv_frame(1) [OF assms(2)] by (auto simp: file_ok_def)
  show ?thesis
    unfolding update_metadata_def twp_and_then [of "gets _"] twp_gets twp_and_then [of "on_key_gen _"]
  proof (rule twp_on_key_gen [where R = "\<lambda>a. meta_ok (snd a) \<and> mi_encrypted_plain (snd a) = mi_encrypted_plain ?m
        \<and> (\<forall>g. gen_for env mode g \<longrightarrow> mode_ok env mode g (snd a))"])
    show "twp (meta_derive_key env ?m) (\<lambda>a (g, _). gen_for env mode g \<and> meta_ok (snd a) \<and> mi_encrypted_plain (snd a) = mi_encrypted_plain ?m
        \<and> (\<forall>g. gen_for env mode g \<longrightarrow> mode_ok env mode g (snd a))) (\<lambda>_ (g, _). gen_for env mode g) (f_key_gen s, ns_world s)"
      by (rule twp_conseq [OF meta_derive_total [OF assms(1) m(2,1)]]) (auto simp: mode_ok_def)
  next
    fix a :: "key128 \<times> MetadataInfo" and g w
    assume g: "gen_for env mode g" and a: "meta_ok (snd a) \<and> mi_encrypted_plain (snd a) = mi_encrypted_plain ?m
        \<and> (\<forall>g. gen_for env mode g \<longrightarrow> mode_ok env mode g (snd a))"
    let ?t = "s\<lparr>f_key_gen := g, ns_world := w\<rparr>"
    obtain res m' where e: "meta_encrypt env (snd a) (fst a) = (res, m')" by fastforce
    note t = meta_encrypt_total [OF assms(1) conjunct1 [OF a] e]
    have "?I (?t\<lparr>f_metadata := m'\<rparr>)"
      by (rule flush_inv_meta [OF flush_inv_gen(2) [OF assms(2) g]]) (use a t g in \<open>auto simp: mode_ok_def split: option.splits\<close>)
    then show "twp ((\<lambda>(key, m). case meta_encrypt env m key of (result, m) \<Rightarrow> seq (upd_metadata (\<lambda>_. m)) (of_res result)) a) (\<lambda>_. ?I) (\<lambda>_. ?I) ?t"
      using t(1) by (simp add: case_prod_beta e twp upd_metadata_def split: res.splits)
  qed (use flush_inv_gen(2) [OF assms(2)] in blast)
qed

text \<open>A cached node waits to be written; then the root and the file are marked and the file has nodes.\<close>

definition dirty :: "'w FileInner \<Rightarrow> bool" where
  "dirty s \<longleftrightarrow> list_ex (\<lambda>r. fn_need_writing (ns_nodes s ! r)) (cached s)"

definition dirty_ok :: "'w FileInner \<Rightarrow> bool" where
  "dirty_ok s \<longleftrightarrow> (dirty s \<longrightarrow> hot s \<and> MD_USER_DATA_SIZE < f_size s)"

lemma dirty_simps [simp]:
  "dirty (s\<lparr>ns_world := w\<rparr>) = dirty s" "dirty (s\<lparr>f_status := st\<rparr>) = dirty s" "dirty (s\<lparr>f_need_writing := b\<rparr>) = dirty s"
  "dirty_ok (s\<lparr>ns_world := w\<rparr>) = dirty_ok s" "dirty_ok (s\<lparr>f_status := st\<rparr>) = dirty_ok s"
  "flush_inv env mode False s0 (s\<lparr>f_need_writing := b\<rparr>) = flush_inv env mode False s0 s"
  by (simp_all add: dirty_ok_def dirty_def hot_def cached_def flush_inv_defs)

lemma update_metadata_nodes:
  assumes "update_metadata env s = (res, t)"
  shows "ns_nodes t = ns_nodes s" "f_need_writing t = f_need_writing s"
  using assms
  by (auto simp: update_metadata_def rust_defs on_key_gen_def upd_metadata_def of_res_def split: prod.splits res.splits)

lemma flush_inv_clean:
  assumes "flush_inv env mode h s0 s" "r < length (ns_nodes s)" "h' \<Longrightarrow> h \<and> r \<noteq> f_root_mht s"
  shows "flush_inv env mode h' s0 (s\<lparr>ns_nodes := (ns_nodes s)[r := (ns_nodes s ! r)\<lparr>fn_need_writing := False, fn_new_node := False\<rparr>]\<rparr>)"
proof (rule file_ok_nodes)
  let ?n = "(ns_nodes s ! r)\<lparr>fn_need_writing := False, fn_new_node := False\<rparr>"
  show "flush_inv env mode h' s0 s" using assms(1,3) by (auto simp: flush_inv_def)
  show "map shape ((ns_nodes s)[r := ?n]) = shapes s" by (simp add: update_shape shape_def)
  show "map data_of ((ns_nodes s)[r := ?n]) = map data_of (ns_nodes s)" by (simp add: map_update data_of_def list_update_same_conv assms(2))
  show "list_all content_ok ((ns_nodes s)[r := ?n])"
    using flush_inv_frame(3) [OF assms(1)] assms(2) by (auto intro!: update_content simp: content_ok_def dest: content_okD)
  show "h' \<Longrightarrow> fn_need_writing (ns_nodes s ! f_root_mht s) \<Longrightarrow> fn_need_writing ((ns_nodes s)[r := ?n] ! f_root_mht s)"
    using assms(3) by simp
qed

text \<open>No node becomes marked, and those in a list lose their mark.\<close>

definition cleans :: "node_ref list \<Rightarrow> 'w FileInner \<Rightarrow> 'w FileInner \<Rightarrow> bool" where
  "cleans rs s t \<longleftrightarrow> (\<forall>q < length (ns_nodes s). fn_need_writing (ns_nodes t ! q) \<longrightarrow> q \<notin> set rs \<and> fn_need_writing (ns_nodes s ! q))"

lemma cleans_trans: "cleans rs s t \<Longrightarrow> cleans qs t u \<Longrightarrow> length (ns_nodes t) = length (ns_nodes s) \<Longrightarrow> cleans (rs @ qs) s u"
  by (auto simp: cleans_def)

lemma cleans_world [simp]: "cleans [] s (s\<lparr>ns_world := w\<rparr>)" "cleans [] s s"
  by (simp_all add: cleans_def)

lemma node_write_to_disk_inv:
  assumes "flush_inv env mode h s0 s" "r = f_root_mht s0 \<or> r \<in> set (cached s0)" "h' \<Longrightarrow> h \<and> r \<noteq> f_root_mht s"
  shows "twp (node_write_to_disk env f r) (\<lambda>_ t. flush_inv env mode h' s0 t \<and> cleans [r] s t)
    (\<lambda>_ t. flush_inv env mode h s0 t \<and> cleans [] s t) s"
proof -
  note r = flush_inv_node [OF assms(1,2)]
  have "twp (host_file_write env f n bs) (\<lambda>_ _. True) (\<lambda>_ _. True) w" for n bs w by (rule host_ops_total)
  moreover have "flush_inv env mode h' s0 (s\<lparr>ns_world := w, ns_nodes := (ns_nodes s)[r := (ns_nodes s ! r)\<lparr>fn_need_writing := False, fn_new_node := False\<rparr>]\<rparr>)" for w
    using flush_inv_clean [of env mode h s0 "s\<lparr>ns_world := w\<rparr>" r h'] assms r by simp
  ultimately show ?thesis using r assms(1)
    by (auto simp: node_write_to_disk_def twp nth_list_update cleans_def intro!: twp_on_host)
qed

lemma write_nodes_inv:
  assumes "flush_inv env mode h s0 s" "set rs \<subseteq> set (cached s0)"
  shows "twp (for_each (\<lambda>r. and_then (node_at r) (\<lambda>node. if fn_need_writing node then node_write_to_disk env f r else ret ())) rs)
    (\<lambda>_ t. flush_inv env mode h s0 t \<and> cleans rs s t) (\<lambda>_ t. flush_inv env mode h s0 t \<and> cleans [] s t) s"
  using assms
proof (induction rs arbitrary: s)
  case (Cons r rs)
  have r: "r \<in> set (cached s0)" "set rs \<subseteq> set (cached s0)" using Cons.prems(2) by auto
  have "r \<noteq> f_root_mht s"
    using cached_ok(2) [OF flush_inv_frame(1) [OF Cons.prems(1)]] r(1) flush_inv_frame(5) [OF Cons.prems(1)] by (simp add: cached_def)
  then have head: "twp (and_then (node_at r) (\<lambda>node. if fn_need_writing node then node_write_to_disk env f r else ret ()))
      (\<lambda>_ t. flush_inv env mode h s0 t \<and> cleans [r] s t) (\<lambda>_ t. flush_inv env mode h s0 t \<and> cleans [] s t) s"
    using node_write_to_disk_inv [OF Cons.prems(1) disjI2 [OF r(1)], of h] flush_inv_node(1) [OF Cons.prems(1) disjI2 [OF r(1)]] Cons.prems(1)
    by (auto simp: twp cleans_def)
  show ?case
    unfolding for_each.simps
  proof (subst twp_and_then, rule twp_conseq [OF head])
    fix a :: unit and t assume t: "flush_inv env mode h s0 t \<and> cleans [r] s t"
    have "length (ns_nodes t) = length (ns_nodes s)"
      using flush_inv_frame(8) [OF conjunct1 [OF t]] flush_inv_frame(8) [OF Cons.prems(1)] by simp
    then show "twp (for_each (\<lambda>r. and_then (node_at r) (\<lambda>node. if fn_need_writing node then node_write_to_disk env f r else ret ())) rs)
        (\<lambda>_ t. flush_inv env mode h s0 t \<and> cleans (r # rs) s t) (\<lambda>_ t. flush_inv env mode h s0 t \<and> cleans [] s t) t"
      using t by (intro twp_conseq [OF Cons.IH [OF conjunct1 [OF t] r(2)]]) (auto simp: cleans_def)
  qed
qed (simp add: twp)

lemma not_dirty_cleans:
  assumes "flush_inv env mode h s0 s" "flush_inv env mode h' s0 t" "cleans rs s t" "\<not> dirty s \<or> set (cached s) \<subseteq> set rs"
  shows "\<not> dirty t"
proof -
  have "cached t = cached s" using flush_inv_frame(5) [OF assms(1)] flush_inv_frame(5) [OF assms(2)] by (simp add: cached_def)
  then show ?thesis using assms(3,4) cached_ok(1) [OF flush_inv_frame(1) [OF assms(1)]]
    by (fastforce simp: dirty_def list_ex_iff cleans_def)
qed

lemma write_to_disk_inv:
  assumes "flush_inv env mode False s0 s"
  shows "twp (write_to_disk env b) (\<lambda>_ t. flush_inv env mode False s0 t \<and> (dirty_ok s \<longrightarrow> \<not> dirty t))
    (\<lambda>_ t. flush_inv env mode False s0 t \<and> (dirty_ok s \<longrightarrow> dirty_ok t)) s"
proof -
  let ?P = "\<lambda>_ t. flush_inv env mode False s0 t \<and> (dirty_ok s \<longrightarrow> \<not> dirty t)"
    and ?Q = "\<lambda>_ t. flush_inv env mode False s0 t \<and> (dirty_ok s \<longrightarrow> dirty_ok t)"
  note inv = flush_inv_frame [OF assms(1)]
  have rest: "twp (seq (write_metadata env) (if b then host_flush env else ret ())) ?P ?Q t" if "?P () t" for t
    using that unfolding twp_seq
    by (intro write_metadata_total) (auto simp: twp dirty_ok_def dirty_def cached_def intro!: host_flush_total)
  show ?thesis
  proof (cases "MD_USER_DATA_SIZE < f_size s \<and> fn_need_writing (ns_nodes s ! f_root_mht s)")
    case False
    then have "?P () s" using assms by (auto simp: dirty_ok_def hot_def)
    then show ?thesis using rest False shape_ok_root(1) [OF inv(2)]
      by (auto simp: write_to_disk_def is_need_write_node_def twp)
  next
    case True
    let ?h = "f_need_writing s"
    have hot: "flush_inv env mode ?h s0 s" using assms(1) True by (simp add: flush_inv_def hot_def)
    have err: "?Q e t" if "flush_inv env mode ?h s0 t" "cleans [] s t" for e :: FsError and t
    proof -
      have "f_size t = f_size s" using that(1) assms(1) by (simp add: flush_inv_def frame_def)
      then have "dirty_ok t" if "dirty_ok s" "?h" using \<open>flush_inv env mode ?h s0 t\<close> that True by (auto simp: flush_inv_def dirty_ok_def)
      moreover have "dirty_ok t" if "dirty_ok s" "\<not> ?h"
        using not_dirty_cleans [OF hot \<open>flush_inv env mode ?h s0 t\<close> \<open>cleans [] s t\<close>] that by (auto simp: dirty_ok_def hot_def)
      ultimately show ?thesis using that(1) by (auto simp: flush_inv_def)
    qed
    have root: "twp (node_write_to_disk env f (f_root_mht t)) ?P ?Q t"
      if t: "flush_inv env mode ?h s0 t" and c: "cleans (cached s) s t" for f t
    proof -
      have len: "length (ns_nodes t) = length (ns_nodes s)" using flush_inv_frame(8) [OF t] inv(8) by simp
      have "\<not> dirty u" if "flush_inv env mode False s0 u" "cleans [f_root_mht t] t u" for u
        using not_dirty_cleans [OF hot that(1) cleans_trans [OF c that(2) len]] by auto
      moreover have "cleans [] s u" if "cleans [] t u" for u using cleans_trans [OF c that len] by (auto simp: cleans_def)
      ultimately show ?thesis using flush_inv_frame(6) [OF t]
        by (intro twp_conseq [OF node_write_to_disk_inv [OF t, of "f_root_mht t" False]]) (auto dest: err)
    qed
    have nodes: "twp (for_each (\<lambda>r. and_then (node_at r) (\<lambda>node. if fn_need_writing node then node_write_to_disk env f r else ret ())) (cached s))
        (\<lambda>_. twp (and_then (gets f_root_mht) (node_write_to_disk env f)) ?P ?Q) ?Q s" for f
      by (rule twp_conseq [OF write_nodes_inv [OF hot]]) (use root inv(5) in \<open>auto simp: twp cached_def dest: err\<close>)
    show ?thesis
      unfolding write_to_disk_def twp_and_then [of "gets f_host_file"] twp_gets twp_and_then [of is_need_write_node]
      using shape_ok_root(1) [OF inv(2)] True rest
      by (cases b) (auto simp: is_need_write_node_def twp_and_then twp_gets twp_node_at twp_ret twp_seq [of "seq _ _"] twp_seq [of "and_then cache_nodes _"]
          twp_cache_nodes [OF inv(1)] intro!: twp_conseq [OF nodes] elim!: twp_conseq)
  qed
qed

section \<open>Flushing\<close>

lemma flush_inv_refl: "file_ok env mode s \<Longrightarrow> flush_inv env mode False s s"
  by (simp add: flush_inv_def)

lemma flush_inv_weaken: "flush_inv env mode h s0 s \<Longrightarrow> flush_inv env mode False s0 s"
  by (simp add: flush_inv_def)

lemma dirty_ok_hot:
  assumes "flush_inv env mode True s0 t" "MD_USER_DATA_SIZE < f_size s0"
  shows "dirty_ok t"
proof -
  have "f_size t = f_size s0" using assms(1) by (simp add: flush_inv_def frame_def)
  then show ?thesis using assms by (simp add: flush_inv_def dirty_ok_def)
qed

lemma finish_flush_inv:
  assumes "env_ok env" "flush_inv env mode False s0 s" "dirty_ok s0 \<longrightarrow> dirty_ok s"
  shows "twp (seq (on_err (\<lambda>_. seq (clear_update_flag env) (set_file_status CryptoError)) (update_metadata env))
        (seq (on_err (\<lambda>_. set_file_status WriteToDiskFailed) (write_to_disk env b)) (modify (\<lambda>s. s\<lparr>f_need_writing := False\<rparr>))))
    (\<lambda>_ t. flush_inv env mode False s0 t \<and> (dirty_ok s0 \<longrightarrow> \<not> dirty t))
    (\<lambda>_ t. flush_inv env mode False s0 t \<and> (dirty_ok s0 \<longrightarrow> dirty_ok t)) s"
proof -
  let ?P = "\<lambda>_ t. flush_inv env mode False s0 t \<and> (dirty_ok s0 \<longrightarrow> dirty_ok t)"
  have upd: "twp (update_metadata env) ?P ?P s"
  proof -
    obtain res t where t: "update_metadata env s = (res, t)" by fastforce
    note nodes = update_metadata_nodes [OF t]
    have "?P () t" if "flush_inv env mode False s0 t"
    proof -
      have "frame t = frame s" using that assms(2) by (simp add: flush_inv_def)
      then have "dirty_ok t = dirty_ok s" using nodes by (simp add: dirty_ok_def dirty_def hot_def cached_def frame_def)
      then show ?thesis using that assms(3) by simp
    qed
    then show ?thesis using update_metadata_inv [OF assms(1,2)] by (cases res) (simp_all add: twp_def t)
  qed
  have err: "twp (seq (clear_update_flag env) (set_file_status CryptoError)) (\<lambda>_. ?P e) ?P t" if "?P e t" for e :: FsError and t
    unfolding twp_seq
    by (rule clear_update_flag_total)
       (use that flush_inv_frame(4) [of env mode False s0 t] in \<open>auto simp: set_file_status_def twp\<close>)
  have disk: "twp (seq (on_err (\<lambda>_. set_file_status WriteToDiskFailed) (write_to_disk env b)) (modify (\<lambda>s. s\<lparr>f_need_writing := False\<rparr>)))
      (\<lambda>_ t. flush_inv env mode False s0 t \<and> (dirty_ok s0 \<longrightarrow> \<not> dirty t)) ?P t" if t: "?P e t" for e :: unit and t
  proof -
    have "flush_inv env mode False s0 t" using t by blast
    from write_to_disk_inv [OF this, of b] show ?thesis
      unfolding twp_seq twp_on_err set_file_status_def twp_modify using t
      by (elim twp_conseq) auto
  qed
  show ?thesis
    unfolding twp_seq [of "on_err _ (update_metadata env)"] twp_on_err [of _ "update_metadata env"]
    by (rule twp_conseq [OF upd]) (use err disk in auto)
qed

lemma internal_flush_inv:
  assumes "env_ok env" "file_ok env mode s"
  shows "pwp (internal_flush env b) (\<lambda>_ t. flush_inv env mode False s t \<and> (dirty_ok s \<longrightarrow> \<not> dirty t))
    (\<lambda>_ t. flush_inv env mode False s t \<and> (dirty_ok s \<longrightarrow> dirty_ok t)) s"
proof (cases "f_need_writing s")
  case False
  then show ?thesis using flush_inv_refl [OF assms(2)]
    by (auto simp: internal_flush_def pwp twp dirty_ok_def hot_def)
next
  case True
  let ?I = "flush_inv env mode"
  note s = flush_inv_refl [OF assms(2)]
  let ?fin = "seq (on_err (\<lambda>_. seq (clear_update_flag env) (set_file_status CryptoError)) (update_metadata env))
        (seq (on_err (\<lambda>_. set_file_status WriteToDiskFailed) (write_to_disk env b)) (modify (\<lambda>s. s\<lparr>f_need_writing := False\<rparr>)))"
  let ?pre = "p_seq (returns (on_err (\<lambda>_. set_file_status FlushError) (write_recovery_file env)))
        (p_seq (returns (on_err (\<lambda>_. set_file_status FlushError) (file_set_update_flag env b)))
               (p_on_err (\<lambda>_. seq (clear_update_flag env) (set_file_status FlushError)) (update_nodes env)))"
  let ?P = "\<lambda>_ t. ?I False s t \<and> (dirty_ok s \<longrightarrow> \<not> dirty t)" and ?Q = "\<lambda>_ t. ?I False s t \<and> (dirty_ok s \<longrightarrow> dirty_ok t)"
  have fin: "twp ?fin ?P ?Q t" if "?I False s t" "dirty_ok s \<longrightarrow> dirty_ok t" for t
    by (rule finish_flush_inv [OF assms(1) that])
  let ?b = "MD_USER_DATA_SIZE < f_size s \<and> fn_need_writing (ns_nodes s ! f_root_mht s)"
  have unfold: "pwp (internal_flush env b) ?P ?Q s = pwp (p_seq (if ?b then ?pre else returns (ret ())) (returns ?fin)) ?P ?Q s"
    using True shape_ok_root(1) [OF flush_inv_frame(2) [OF s]]
    by (simp add: internal_flush_def is_need_write_node_def pwp_then pwp_returns twp_and_then twp_gets twp_node_at twp_ret)
  show ?thesis
  proof (cases ?b)
    case False
    then show ?thesis unfolding unfold using fin [OF s] by (auto simp: pwp twp_ret)
  next
    case b: True
    then have hot: "?I True s s" using s True by (simp add: flush_inv_def hot_def)
    have err: "?I False s t \<and> dirty_ok t" if "?I True s t" for t
      using that b dirty_ok_hot [OF that] by (simp add: flush_inv_def)
    have "twp (on_err (\<lambda>_. set_file_status FlushError) (write_recovery_file env)) (\<lambda>_. ?I True s) (\<lambda>_. ?I True s) s"
      unfolding twp_on_err set_file_status_def twp_modify by (rule twp_conseq [OF write_recovery_file_inv [OF hot]]) auto
    moreover have "twp (on_err (\<lambda>_. set_file_status FlushError) (file_set_update_flag env b)) (\<lambda>_. ?I True s) (\<lambda>_. ?I True s) t" if "?I True s t" for t
      unfolding twp_on_err set_file_status_def twp_modify by (rule twp_conseq [OF file_set_update_flag_inv [OF that]]) auto
    moreover have "pwp (p_on_err (\<lambda>_. seq (clear_update_flag env) (set_file_status FlushError)) (update_nodes env)) (\<lambda>_. ?I True s) (\<lambda>_. ?I True s) t"
      if "?I True s t" for t
      unfolding pwp_on_err by (rule pwp_conseq [OF update_nodes_inv [OF assms(1) that]])
        (auto simp: twp_seq set_file_status_def twp_modify intro!: clear_update_flag_total dest: flush_inv_frame(4))
    ultimately have "pwp ?pre (\<lambda>_. ?I True s) (\<lambda>_. ?I True s) s"
      unfolding pwp_seq pwp_returns by (blast intro: twp_conseq)
    then have "pwp (p_seq ?pre (returns ?fin)) ?P ?Q s"
      unfolding pwp_seq [of ?pre] pwp_returns by (rule pwp_conseq) (use err fin in blast)+
    then show ?thesis unfolding unfold by (simp only: b if_True simp_thms)
  qed
qed

end
