(* ===== verification/Pfs_Tree.thy ===== *)
theory Pfs_Tree
  imports Pfs_Flush "HOL-Library.Sublist"
begin

text \<open>
  Getting a node of a protected file: whatever the host answers, the tree stays well formed, the node is the one of the offset, and
  nothing that is known of the file is forgotten. Evicting nodes ends when the changes in the cache can be
  flushed.
\<close>

section \<open>What getting a node leaves alone\<close>

definition position :: "'w FileInner \<Rightarrow> usize \<times> usize \<times> byte list \<times> byte list \<times> OpenOptions \<times> bool \<times> usize \<times> FsError \<times> node_ref" where
  "position s = (f_offset s, f_size s, me_data (mi_encrypted_plain (f_metadata s)), me_file_name (mi_encrypted_plain (f_metadata s)),
     f_opts s, f_end_of_file s, f_max_cache_page s, f_last_error s, f_root_mht s)"

text \<open>The logic number of the data node of an offset.\<close>

definition data_logic :: "usize \<Rightarrow> nat" where
  "data_logic off = (off - MD_USER_DATA_SIZE) div NODE_SIZE"

text \<open>
  Nodes are only added, and their places and data stay. What is new in the cache is a hash node or the data node of the
  position.
\<close>

definition new_entry :: "'w FileInner \<Rightarrow> nat \<Rightarrow> node_ref \<Rightarrow> bool" where
  "new_entry s k r \<longleftrightarrow> length (ns_nodes s) \<le> r \<and> (\<forall>l. k = data_physical l \<longrightarrow> l = data_logic (f_offset s))"

definition keeps :: "'w FileInner \<Rightarrow> 'w FileInner \<Rightarrow> bool" where
  "keeps s t \<longleftrightarrow> position t = position s \<and> prefix (shapes s) (shapes t) \<and> prefix (map data_of (ns_nodes s)) (map data_of (ns_nodes t))
     \<and> (\<forall>(k, r) \<in> set (entries (f_cache t)). (k, r) \<in> set (entries (f_cache s)) \<or> new_entry s k r)"

lemma keeps_refl: "keeps s s"
  by (auto simp: keeps_def)

lemma keeps_length: "keeps s t \<Longrightarrow> length (ns_nodes s) \<le> length (ns_nodes t)"
  by (auto simp: keeps_def dest: prefix_length_le)

lemma keeps_trans:
  assumes "keeps s t" "keeps t u"
  shows "keeps s u"
proof -
  note len = keeps_length [OF assms(1)]
  have new: "new_entry s k r" if "new_entry t k r" for k r
    using that assms(1) len by (auto simp: new_entry_def keeps_def position_def)
  have "(k, r) \<in> set (entries (f_cache s)) \<or> new_entry s k r" if "(k, r) \<in> set (entries (f_cache u))" for k r
    using assms that new unfolding keeps_def by fast
  then show ?thesis using assms unfolding keeps_def by (auto intro: prefix_order.trans)
qed

lemma prefix_nth: "prefix xs ys \<Longrightarrow> i < length xs \<Longrightarrow> ys ! i = xs ! i"
  by (auto simp: prefix_def nth_append)

lemma keeps_nth:
  assumes "keeps s t" "r < length (ns_nodes s)"
  shows "r < length (ns_nodes t)" "shape (ns_nodes t ! r) = shape (ns_nodes s ! r)" "data_of (ns_nodes t ! r) = data_of (ns_nodes s ! r)"
proof -
  show "r < length (ns_nodes t)" using keeps_length [OF assms(1)] assms(2) by simp
  then show "shape (ns_nodes t ! r) = shape (ns_nodes s ! r)" "data_of (ns_nodes t ! r) = data_of (ns_nodes s ! r)"
    using prefix_nth [of "shapes s" "shapes t" r] prefix_nth [of "map data_of (ns_nodes s)" "map data_of (ns_nodes t)" r] assms
    by (simp_all add: keeps_def)
qed

lemma flush_inv_keeps: "flush_inv env mode h s0 s \<Longrightarrow> keeps s0 s"
  by (auto simp: flush_inv_def frame_def keeps_def position_def)

section \<open>Adding nodes\<close>

text \<open>A node that fits into the tree.\<close>

definition fits :: "'w FileInner \<Rightarrow> FileNode \<Rightarrow> bool" where
  "fits s n \<longleftrightarrow> content_ok n \<and> \<not> fn_need_writing n \<and> fn_physical_number n = physical_of (fn_node_type n) (fn_logic_number n)
     \<and> (fn_node_type n = NT_Mht \<longrightarrow> 0 < fn_logic_number n)
     \<and> (fn_node_type n = NT_Data \<longrightarrow> fn_logic_number n = data_logic (f_offset s))
     \<and> (case fn_parent n of None \<Rightarrow> False
        | Some p \<Rightarrow> p < length (ns_nodes s) \<and> fn_node_type (ns_nodes s ! p) = NT_Mht
            \<and> fn_logic_number (ns_nodes s ! p) = parent_logic (fn_node_type n) (fn_logic_number n))"

lemma shape_ok_append:
  assumes "shapes_ok sh root" "r < length sh"
  shows "shape_ok (sh @ [x]) root r"
proof -
  have "shape_ok sh root r" "root < length sh" using assms by (auto simp: shapes_ok_def)
  moreover obtain t l phys parent where "sh ! r = (t, l, phys, parent)" by (rule prod_cases4)
  ultimately show ?thesis using assms(2)
    by (cases parent; cases "r = root") (auto simp: shape_ok_def nth_append)
qed

lemma cache_ok_append: "cache_ok c sh root \<Longrightarrow> cache_ok c (sh @ [x]) root"
  by (auto simp: cache_ok_def nth_append elim!: list.pred_mono_strong)

lemma file_ok_append:
  assumes "file_ok env mode s" "fits s n"
  shows "file_ok env mode (s\<lparr>ns_nodes := ns_nodes s @ [n]\<rparr>)"
proof -
  let ?sh = "shapes s @ [shape n]" and ?root = "f_root_mht s"
  have sh: "shapes_ok (shapes s) ?root" using assms(1) by (simp add: file_ok_def)
  then have root: "?root < length (ns_nodes s)" by (simp add: shapes_ok_def)
  obtain p where p: "fn_parent n = Some p" "p < length (ns_nodes s)" "fn_node_type (ns_nodes s ! p) = NT_Mht"
      "fn_logic_number (ns_nodes s ! p) = parent_logic (fn_node_type n) (fn_logic_number n)"
    using assms(2) by (auto simp: fits_def split: option.splits)
  have n: "content_ok n" "fn_physical_number n = physical_of (fn_node_type n) (fn_logic_number n)"
      "fn_node_type n = NT_Mht \<longrightarrow> 0 < fn_logic_number n"
    using assms(2) by (simp_all add: fits_def)
  have "shape_ok ?sh ?root (length (shapes s))"
    using root p n by (simp add: shape_ok_def shape_def nth_append)
  then have "shapes_ok ?sh ?root" using shape_ok_append [OF sh] root
    by (auto simp: shapes_ok_def less_Suc_eq)
  moreover have "cache_ok (f_cache s) ?sh ?root"
    using assms(1) cache_ok_append by (simp add: file_ok_def)
  ultimately show ?thesis using assms(1) n(1) by (simp add: file_ok_def)
qed

lemma keeps_append: "keeps s (s\<lparr>ns_nodes := ns_nodes s @ [n]\<rparr>)"
  by (auto simp: keeps_def position_def)

lemma cache_ok_pair:
  assumes "cache_ok c (map shape ns) root" "(k, r) \<in> set (entries c)"
  shows "r < length ns" "r \<noteq> root" "fn_physical_number (ns ! r) = k"
proof -
  have x: "case (k, r) of (k, r) \<Rightarrow> r < length (map shape ns) \<and> r \<noteq> root \<and> fst (snd (snd (map shape ns ! r))) = k"
    using assms unfolding cache_ok_def list_all_iff by blast
  then show r: "r < length ns" "r \<noteq> root" by simp_all
  show "fn_physical_number (ns ! r) = k" using x r by (simp add: shape_def)
qed

lemma file_ok_cache:
  assumes "file_ok env mode s" "lru_ok c"
    and "\<And>k r. (k, r) \<in> set (entries c) \<Longrightarrow> r < length (ns_nodes s) \<and> r \<noteq> f_root_mht s \<and> fn_physical_number (ns_nodes s ! r) = k"
  shows "file_ok env mode (s\<lparr>f_cache := c\<rparr>)"
proof -
  have "cache_ok c (shapes s) (f_root_mht s)"
    unfolding cache_ok_def list_all_iff
  proof (intro conjI ballI assms(2))
    fix x assume x: "x \<in> set (entries c)"
    obtain k r where "x = (k, r)" by fastforce
    then show "case x of (k, r) \<Rightarrow> r < length (shapes s) \<and> r \<noteq> f_root_mht s \<and> fst (snd (snd (shapes s ! r))) = k"
      using assms(3) [of k r] x by (simp add: shape_def)
  qed
  then show ?thesis using assms(1) by (simp add: file_ok_def)
qed

text \<open>The outcome of getting a node: a valid reference, found in the cache.\<close>

definition got :: "'w fs_env \<Rightarrow> OpenMode \<Rightarrow> 'w FileInner \<Rightarrow> 'w FileInner \<Rightarrow> bool" where
  "got env mode s t \<longleftrightarrow> file_ok env mode t \<and> keeps s t \<and> (dirty_ok s \<longrightarrow> dirty_ok t)"

lemma got_refl: "file_ok env mode s \<Longrightarrow> got env mode s s"
  by (simp add: got_def keeps_refl)

lemma got_trans: "got env mode s t \<Longrightarrow> got env mode t u \<Longrightarrow> got env mode s u"
  using keeps_trans by (auto simp: got_def)

lemma got_world: "file_ok env mode s \<Longrightarrow> got env mode s (s\<lparr>ns_world := w\<rparr>)"
  by (auto simp: got_def file_ok_def keeps_def position_def)

lemma got_append:
  assumes "file_ok env mode s" "fits s n"
  shows "got env mode s (s\<lparr>ns_nodes := ns_nodes s @ [n]\<rparr>)"
proof -
  have "f_root_mht s < length (ns_nodes s)" "\<And>r. r \<in> set (cached s) \<Longrightarrow> r < length (ns_nodes s)"
    using assms(1) cached_ok by (auto simp: file_ok_def shapes_ok_def)
  then have "dirty_ok (s\<lparr>ns_nodes := ns_nodes s @ [n]\<rparr>) = dirty_ok s"
    by (auto simp: dirty_ok_def dirty_def hot_def cached_def list_ex_iff nth_append)
  then show ?thesis using file_ok_append [OF assms] keeps_append by (simp add: got_def)
qed

lemma twp_on_cache [twp]:
  "twp (on_cache f) P Q s \<longleftrightarrow> (case f (f_cache s) of None \<Rightarrow> False | Some (a, c) \<Rightarrow> P a (s\<lparr>f_cache := c\<rparr>))"
  by (auto simp: on_cache_def twp_def split: option.splits)

lemma append_node_got:
  assumes "file_ok env mode s" "fits s n"
  shows "twp (append_node n) (\<lambda>r t. got env mode s t \<and> r < length (ns_nodes t) \<and> shape (ns_nodes t ! r) = shape n
      \<and> cache_find (fn_physical_number n) (f_cache t) = Some r) (\<lambda>_. got env mode s) s"
proof -
  let ?t = "s\<lparr>ns_nodes := ns_nodes s @ [n]\<rparr>" and ?r = "length (ns_nodes s)" and ?k = "fn_physical_number n"
  have root: "?r \<noteq> f_root_mht s" using assms(1) by (auto simp: file_ok_def shapes_ok_def)
  note t = got_append [OF assms]
  have lru: "lru_ok (f_cache s)" using assms(1) by (simp add: file_ok_def cache_ok_def)
  obtain b c where push: "cache_push ?k ?r (f_cache s) = Some (b, c)" "lru_ok c"
    using cache_push_entries [OF lru, of ?k ?r] by blast
  note c = lru.push_lookup [OF lru push(1)]
  have e: "(k, r) \<in> set (entries (f_cache s)) \<or> r = ?r \<and> k = ?k" if "(k, r) \<in> set (entries c)" for k r
    using that c(4) by (auto split: if_splits)
  have old: "cache_ok (f_cache s) (shapes s) (f_root_mht s)" using assms(1) by (simp add: file_ok_def)
  have "file_ok env mode (?t\<lparr>f_cache := c\<rparr>)"
  proof (rule file_ok_cache)
    fix k r assume "(k, r) \<in> set (entries c)"
    from e [OF this] show "r < length (ns_nodes ?t) \<and> r \<noteq> f_root_mht ?t \<and> fn_physical_number (ns_nodes ?t ! r) = k"
      using cache_ok_pair [OF old] root by (auto simp: nth_append)
  qed (use t push(2) in \<open>simp_all add: got_def\<close>)
  moreover have "keeps s (?t\<lparr>f_cache := c\<rparr>)"
  proof -
    have "new_entry s ?k ?r" using assms(2)
      by (cases "fn_node_type n") (auto simp: new_entry_def fits_def data_physical_inj data_physical_not_mht [symmetric])
    then have "(k, r) \<in> set (entries (f_cache s)) \<or> new_entry s k r" if "(k, r) \<in> set (entries c)" for k r
      using e [OF that] by auto
    then show ?thesis by (auto simp: keeps_def position_def)
  qed
  moreover have "dirty_ok (?t\<lparr>f_cache := c\<rparr>)" if "dirty_ok s"
  proof -
    have "dirty s" if d: "dirty (?t\<lparr>f_cache := c\<rparr>)"
    proof -
      obtain k r where r: "(k, r) \<in> set (entries c)" "fn_need_writing ((ns_nodes s @ [n]) ! r)"
        using d by (auto simp: dirty_def list_ex_iff cached_def)
      have "\<not> fn_need_writing n" using assms(2) by (simp add: fits_def)
      then have "r \<noteq> ?r" using r(2) by auto
      then have "(k, r) \<in> set (entries (f_cache s))" using e [OF r(1)] by blast
      then show ?thesis using cache_ok_pair(1) [OF old] r(2)
        by (force simp: dirty_def list_ex_iff cached_def nth_append)
    qed
    then show ?thesis using \<open>dirty_ok s\<close> root assms(1)
      by (auto simp: dirty_ok_def hot_def nth_append file_ok_def shapes_ok_def)
  qed
  ultimately have "got env mode s (?t\<lparr>f_cache := c\<rparr>)" by (simp add: got_def)
  then show ?thesis using c(3) [of ?k]
    by (auto simp: append_node_def push_cache_def twp push(1))
qed

section \<open>Reading nodes\<close>

lemma new_node_fits:
  assumes "p < length (ns_nodes s)" "fn_node_type (ns_nodes s ! p) = NT_Mht" "fn_logic_number (ns_nodes s ! p) = parent_logic t l"
    and "phys = physical_of t l" "t = NT_Mht \<Longrightarrow> 0 < l" "t = NT_Data \<Longrightarrow> l = data_logic (f_offset s)"
  shows "fits s ((file_node_new t l phys flags)\<lparr>fn_parent := Some p\<rparr>)"
  using assms by (simp add: fits_def file_node_new_def content_ok_def node_of_type_ok)

lemma node_read_total:
  assumes "fn_physical_number n \<noteq> 0" "\<And>bs w. length bs = NODE_SIZE \<Longrightarrow> P (n\<lparr>fn_ciphertext := bs\<rparr>) (s\<lparr>ns_world := w\<rparr>)"
    and "\<And>e w. Q e (s\<lparr>ns_world := w\<rparr>)"
  shows "twp (on_host (node_read_from_disk env f n)) P Q s"
  using assms(1) unfolding on_host_def node_read_from_disk_def twp_zoom twp_seq twp_rassert twp_and_then
  by (auto simp: twp intro!: twp_conseq [OF host_ops_total(1)] assms(2,3))

lemma node_decrypt_total:
  assumes "env_ok env" "content_ok n"
    and "\<And>bs. length bs = NODE_SIZE \<Longrightarrow> P (n\<lparr>fn_plaintext := node_with_bytes (fn_plaintext n) bs\<rparr>) s" "\<And>e. Q e s"
  shows "twp (node_decrypt env n key mac) P Q s"
proof -
  have "length (node_bytes (fn_plaintext n)) = length (fn_ciphertext n)" "length (fn_ciphertext n) = NODE_SIZE"
    using assms(2) length_node_bytes by (auto simp: content_ok_def)
  then show ?thesis using open_bytes_total [OF assms(1), of "node_bytes (fn_plaintext n)" "fn_ciphertext n" "fn_encrypt_flags n" key mac] assms(3,4)
    by (auto simp: node_decrypt_def twp split: res.splits)
qed

lemma load_node_got:
  assumes "env_ok env" "file_ok env mode s" "fits s n"
  shows "twp (load_node env n) (\<lambda>r t. got env mode s t \<and> r < length (ns_nodes t) \<and> shape (ns_nodes t ! r) = shape n
      \<and> cache_find (fn_physical_number n) (f_cache t) = Some r) (\<lambda>_. got env mode s) s"
proof -
  obtain p where p: "fn_parent n = Some p" "p < length (ns_nodes s)" "fn_node_type (ns_nodes s ! p) = NT_Mht"
    using assms(3) by (auto simp: fits_def split: option.splits)
  have phys: "fn_physical_number n > ROOT_MHT_PHY_NUM"
    using assms(3) by (cases "fn_node_type n")
      (auto simp: fits_def ROOT_MHT_PHY_NUM_def mht_physical_def data_physical_def layout_consts)
  have pn: "node_ok NT_Mht (fn_plaintext (ns_nodes s ! p))"
    using assms(2) p content_okD [of "ns_nodes s" p] by (auto simp: file_ok_def content_ok_def)
  let ?P = "\<lambda>r t. got env mode s t \<and> r < length (ns_nodes t) \<and> shape (ns_nodes t ! r) = shape n
      \<and> cache_find (fn_physical_number n) (f_cache t) = Some r"
  show ?thesis
    unfolding load_node_def twp_and_then [of "gets _"] twp_gets twp_and_then [of "on_host _"]
  proof (rule node_read_total)
    fix bs :: "byte list" and w assume bs: "length bs = NODE_SIZE"
    let ?t = "s\<lparr>ns_world := w\<rparr>" and ?m = "n\<lparr>fn_ciphertext := bs\<rparr>"
    note t = got_world [OF assms(2), of w]
    have fin: "twp (and_then (build_ref (?m\<lparr>fn_plaintext := node_with_bytes (fn_plaintext n) cs\<rparr>))
        (\<lambda>r. seq (push_cache (fn_physical_number n) r) (ret r))) ?P (\<lambda>_. got env mode s) ?t" if cs: "length cs = NODE_SIZE" for cs
    proof -
      let ?n = "?m\<lparr>fn_plaintext := node_with_bytes (fn_plaintext n) cs\<rparr>"
      have "fits ?t ?n" using assms(3) bs node_with_bytes_ok(1) [OF _ cs]
        by (simp add: fits_def content_ok_def p(1))
      from append_node_got [OF _ this, of env mode] t
      have "twp (append_node ?n) (\<lambda>r u. got env mode ?t u \<and> r < length (ns_nodes u) \<and> shape (ns_nodes u ! r) = shape ?n
          \<and> cache_find (fn_physical_number ?n) (f_cache u) = Some r) (\<lambda>_. got env mode ?t) ?t" by (simp add: got_def)
      then have "twp (append_node ?n) ?P (\<lambda>_. got env mode s) ?t"
        by (rule twp_conseq) (use got_trans [OF t] in \<open>auto simp: shape_def\<close>)
      then show ?thesis by (simp add: append_node_def)
    qed
    have "\<not> is_root_mht ?m" using phys by (simp add: is_root_mht_def)
    then have gcm: "twp (node_get_gcm ?m) (\<lambda>g u. u = ?t \<and> g \<noteq> None) Q ?t" for Q :: "FsError \<Rightarrow> 'a FileInner \<Rightarrow> bool"
      using p(1,2) phys by (simp add: node_get_gcm_def gcm_index_def twp node_gcm_data(1) [OF pn])
    have "content_ok ?m" using assms(3) bs by (simp add: fits_def content_ok_def)
    then show "twp (and_then (node_get_gcm ?m) (\<lambda>g. and_then (ok_or g (SgxError Sgx_Unexpected)) (\<lambda>gcm_data.
        and_then (node_decrypt env ?m (gd_key gcm_data) (gd_mac gcm_data)) (\<lambda>node. and_then (build_ref node) (\<lambda>r.
        seq (push_cache (fn_physical_number node) r) (ret r)))))) ?P (\<lambda>_. got env mode s) ?t"
      unfolding twp_and_then [of "node_get_gcm _"]
      using t fin by (intro twp_conseq [OF gcm]) (auto simp: twp_and_then [of "ok_or _ _"] twp_and_then [of "node_decrypt _ _ _ _"] twp_ok_or
          intro!: node_decrypt_total [OF assms(1)])
  qed (use phys got_world [OF assms(2)] in auto)
qed

definition mht_at :: "'w FileInner \<Rightarrow> node_ref \<Rightarrow> nat \<Rightarrow> bool" where
  "mht_at s r l \<longleftrightarrow> r < length (ns_nodes s) \<and> fn_node_type (ns_nodes s ! r) = NT_Mht \<and> fn_logic_number (ns_nodes s ! r) = l"

text \<open>The data node of an offset, which is in the cache.\<close>

definition data_at :: "'w FileInner \<Rightarrow> node_ref \<Rightarrow> usize \<Rightarrow> bool" where
  "data_at s r off \<longleftrightarrow> r < length (ns_nodes s) \<and> fn_node_type (ns_nodes s ! r) = NT_Data
     \<and> fn_logic_number (ns_nodes s ! r) = data_logic off \<and> cache_find (data_physical (data_logic off)) (f_cache s) = Some r"

lemma numbers_of_offset:
  assumes "MD_USER_DATA_SIZE \<le> off"
  shows "get_mht_node_numbers off = (parent_logic NT_Data (data_logic off), mht_physical (parent_logic NT_Data (data_logic off)))"
    "get_data_node_numbers off = (data_logic off, data_physical (data_logic off))"
  using get_node_numbers_eq [OF assms]
  by (simp_all add: get_mht_node_numbers_def get_data_node_numbers_def data_logic_def Let_def)

lemma physical_of_inj:
  "physical_of t l = mht_physical l' \<Longrightarrow> t = NT_Mht \<and> l = l'"
  "physical_of t l = data_physical l' \<Longrightarrow> t = NT_Data \<and> l = l'"
  by (cases t; simp add: mht_physical_inj data_physical_inj data_physical_not_mht data_physical_not_mht [symmetric])+

lemma cached_node:
  assumes "file_ok env mode s" "cache_find k (f_cache s) = Some r"
  shows "r < length (ns_nodes s)" "physical_of (fn_node_type (ns_nodes s ! r)) (fn_logic_number (ns_nodes s ! r)) = k"
proof -
  have ok: "cache_ok (f_cache s) (shapes s) (f_root_mht s)" "shapes_ok (shapes s) (f_root_mht s)"
    using assms(1) by (simp_all add: file_ok_def)
  note c = cache_okD [OF ok(1) assms(2)]
  show "r < length (ns_nodes s)" "physical_of (fn_node_type (ns_nodes s ! r)) (fn_logic_number (ns_nodes s ! r)) = k"
    using c(1,3) shape_ok_phys(1) [OF ok(2) c(1)] by simp_all
qed

lemma cached_mht: "file_ok env mode s \<Longrightarrow> cache_find (mht_physical l) (f_cache s) = Some r \<Longrightarrow> mht_at s r l"
  using cached_node physical_of_inj(1) by (fastforce simp: mht_at_def)

lemma cached_data:
  "file_ok env mode s \<Longrightarrow> cache_find (data_physical (data_logic off)) (f_cache s) = Some r \<Longrightarrow> data_at s r off"
  using cached_node physical_of_inj(2) by (fastforce simp: data_at_def)

lemma root_mht_at: "file_ok env mode s \<Longrightarrow> mht_at s (f_root_mht s) 0"
  using shape_ok_root [of "ns_nodes s" "f_root_mht s"] by (simp add: mht_at_def file_ok_def)

lemma mht_at_keeps: "mht_at s r l \<Longrightarrow> keeps s t \<Longrightarrow> mht_at t r l"
  using keeps_nth [of s t r] by (auto simp: mht_at_def shape_def)

lemma read_mht_node_got:
  assumes "env_ok env" "file_ok env mode s"
  shows "twp (read_mht_node env l) (\<lambda>r t. got env mode s t \<and> mht_at t r l) (\<lambda>_. got env mode s) s"
  using assms(2)
proof (induction l arbitrary: s rule: less_induct)
  case (less l)
  show ?case
  proof (cases "l = 0")
    case True
    then show ?thesis using root_mht_at [OF less.prems] got_refl [OF less.prems]
      by (subst read_mht_node.simps) (simp add: twp)
  next
    case False
    let ?q = "(l - 1) div CHILD_MHT_NODES_COUNT"
    show ?thesis
    proof (cases "cache_find (mht_physical l) (f_cache s)")
      case (Some r)
      then show ?thesis using False cached_mht [OF less.prems Some] got_refl [OF less.prems]
        by (subst read_mht_node.simps) (simp add: twp Let_def)
    next
      case None
      have "twp (load_node env ((file_node_new NT_Mht l (mht_physical l) (f_flags t))\<lparr>fn_parent := Some p\<rparr>))
          (\<lambda>r u. got env mode s u \<and> mht_at u r l) (\<lambda>_. got env mode s) t" if t: "got env mode s t" "mht_at t p ?q" for p t
      proof -
        have "fits t ((file_node_new NT_Mht l (mht_physical l) (f_flags t))\<lparr>fn_parent := Some p\<rparr>)"
          using t(2) False by (intro new_node_fits) (simp_all add: mht_at_def)
        from load_node_got [OF assms(1) _ this, of mode] t(1) show ?thesis
          by (auto simp: got_def [of env mode s t] mht_at_def shape_def file_node_new_def intro: got_trans [OF t(1)] elim!: twp_conseq)
      qed
      then show ?thesis
        using less.IH [OF parent_less less.prems] False None
        by (subst read_mht_node.simps) (auto simp: twp Let_def elim!: twp_conseq)
    qed
  qed
qed

text \<open>Bringing a new node in: by reading it from the disk or by appending it.\<close>

lemma add_node_got:
  assumes "env_ok env" "got env mode s t" "mht_at t p (parent_logic ty l)" "ty = NT_Mht \<Longrightarrow> 0 < l"
    and "ty = NT_Data \<Longrightarrow> l = data_logic (f_offset s)" "n = (file_node_new ty l (physical_of ty l) flags)\<lparr>fn_parent := Some p\<rparr>" "add = append_node \<or> add = load_node env"
  shows "twp (add n) (\<lambda>r u. got env mode s u \<and> r < length (ns_nodes u) \<and> fn_node_type (ns_nodes u ! r) = ty
    \<and> fn_logic_number (ns_nodes u ! r) = l \<and> cache_find (physical_of ty l) (f_cache u) = Some r) (\<lambda>_. got env mode s) t"
proof -
  have "f_offset t = f_offset s" using assms(2) by (simp add: got_def keeps_def position_def)
  then have fits: "fits t n" using assms(3-5) unfolding assms(6) by (intro new_node_fits) (simp_all add: mht_at_def)
  have ok: "file_ok env mode t" using assms(2) by (simp add: got_def)
  have n: "fn_node_type n = ty" "fn_logic_number n = l" "fn_physical_number n = physical_of ty l"
    by (simp_all add: assms(6) file_node_new_def)
  have "twp (add n) (\<lambda>r u. got env mode t u \<and> r < length (ns_nodes u) \<and> shape (ns_nodes u ! r) = shape n
      \<and> cache_find (fn_physical_number n) (f_cache u) = Some r) (\<lambda>_. got env mode t) t"
    using assms(7) append_node_got [OF ok fits] load_node_got [OF assms(1) ok fits] by blast
  then show ?thesis by (rule twp_conseq) (auto simp: n shape_def intro: got_trans [OF assms(2)])
qed

lemma get_mht_node_got:
  assumes "env_ok env" "file_ok env mode s"
  shows "twp (get_mht_node env) (\<lambda>r t. MD_USER_DATA_SIZE \<le> f_offset s \<and> got env mode s t \<and> mht_at t r (parent_logic NT_Data (data_logic (f_offset s))))
    (\<lambda>_. got env mode s) s"
proof (cases "MD_USER_DATA_SIZE \<le> f_offset s")
  case True
  let ?l = "parent_logic NT_Data (data_logic (f_offset s))"
  have read: "twp (read_mht_node env l) (\<lambda>r t. got env mode s t \<and> mht_at t r l) (\<lambda>_. got env mode s) s" for l
    by (rule read_mht_node_got [OF assms])
  have append: "twp (append_mht_node env ?l) (\<lambda>r t. got env mode s t \<and> mht_at t r ?l) (\<lambda>_. got env mode s) s" if "0 < ?l"
  proof -
    have "twp (append_node ((file_node_new NT_Mht ?l (mht_physical ?l) (f_flags t))\<lparr>fn_parent := Some p\<rparr>))
        (\<lambda>r t. got env mode s t \<and> mht_at t r ?l) (\<lambda>_. got env mode s) t"
      if t: "got env mode s t" "mht_at t p ((?l - 1) div CHILD_MHT_NODES_COUNT)" for t p
      using add_node_got [OF assms(1) t(1), of p NT_Mht ?l _ "f_flags t" append_node] t(2) \<open>0 < ?l\<close>
      by (auto simp: mht_at_def elim!: twp_conseq)
    then show ?thesis
      unfolding append_mht_node_def twp_and_then [of "read_mht_node _ _"]
      by (intro twp_conseq [OF read]) (auto simp: twp_and_then twp_gets)
  qed
  show ?thesis
    using True root_mht_at [OF assms(2)] got_refl [OF assms(2)] read [of ?l] append
    by (auto simp: get_mht_node_def twp_and_then twp_gets twp_seq twp_ensure numbers_of_offset(1) [OF True] elim!: twp_conseq)
next
  case False
  then show ?thesis using got_refl [OF assms(2)] by (simp add: get_mht_node_def twp)
qed

lemma data_node_got:
  assumes "env_ok env" "file_ok env mode s"
  shows "twp (append_data_node env) (\<lambda>r t. got env mode s t \<and> data_at t r (f_offset s)) (\<lambda>_. got env mode s) s"
    "MD_USER_DATA_SIZE \<le> f_offset s \<Longrightarrow>
      twp (read_data_node env) (\<lambda>r t. got env mode s t \<and> data_at t r (f_offset s)) (\<lambda>_. got env mode s) s"
proof -
  let ?off = "f_offset s" and ?d = "data_logic (f_offset s)"
  have add: "twp (add ((file_node_new NT_Data ?d (data_physical ?d) (f_flags t))\<lparr>fn_parent := Some p\<rparr>))
      (\<lambda>r t. got env mode s t \<and> data_at t r ?off) (\<lambda>_. got env mode s) t"
    if "got env mode s t" "mht_at t p (parent_logic NT_Data ?d)" "add = append_node \<or> add = load_node env" for t p add
    using add_node_got [OF assms(1) that(1), of p NT_Data ?d _ "f_flags t" add] that(2,3)
    by (auto simp: data_at_def elim!: twp_conseq)
  have off: "f_offset t = ?off" if "got env mode s t" for t using that by (simp add: got_def keeps_def position_def)
  show "twp (append_data_node env) (\<lambda>r t. got env mode s t \<and> data_at t r ?off) (\<lambda>_. got env mode s) s"
    unfolding append_data_node_def twp_and_then [of "get_mht_node _"]
    by (rule twp_conseq [OF get_mht_node_got [OF assms]]) (auto simp: twp_and_then twp_gets numbers_of_offset(2) off intro!: add)
  show "twp (read_data_node env) (\<lambda>r t. got env mode s t \<and> data_at t r ?off) (\<lambda>_. got env mode s) s" if md: "MD_USER_DATA_SIZE \<le> ?off"
  proof (cases "cache_find (data_physical ?d) (f_cache s)")
    case (Some r)
    then show ?thesis using cached_data [OF assms(2) Some] got_refl [OF assms(2)]
      by (simp add: read_data_node_def twp numbers_of_offset(2) [OF md])
  next
    case None
    have "twp (and_then (get_mht_node env) (\<lambda>mht_node. and_then (gets f_flags) (\<lambda>flags.
          load_node env ((file_node_new NT_Data ?d (data_physical ?d) flags)\<lparr>fn_parent := Some mht_node\<rparr>))))
        (\<lambda>r t. got env mode s t \<and> data_at t r ?off) (\<lambda>_. got env mode s) s"
      unfolding twp_and_then [of "get_mht_node _"]
      by (rule twp_conseq [OF get_mht_node_got [OF assms]]) (auto simp: twp_and_then twp_gets intro!: add)
    then show ?thesis by (simp add: read_data_node_def twp_and_then [of "gets _"] twp_gets numbers_of_offset(2) [OF md] None)
  qed
qed

section \<open>Recent and old nodes\<close>

lemma got_cache:
  assumes "file_ok env mode s" "lru_ok c" "set (entries c) \<subseteq> set (entries (f_cache s))"
  shows "got env mode s (s\<lparr>f_cache := c\<rparr>)"
proof -
  have old: "cache_ok (f_cache s) (shapes s) (f_root_mht s)" using assms(1) by (simp add: file_ok_def)
  have "file_ok env mode (s\<lparr>f_cache := c\<rparr>)"
    by (rule file_ok_cache [OF assms(1,2)]) (use assms(3) cache_ok_pair [OF old] in blast)
  moreover have "dirty s" if "dirty (s\<lparr>f_cache := c\<rparr>)"
    using that assms(3) by (fastforce simp: dirty_def list_ex_iff cached_def)
  moreover have "keeps s (s\<lparr>f_cache := c\<rparr>)" using assms(3) by (auto simp: keeps_def position_def)
  ultimately show ?thesis by (auto simp: got_def dirty_ok_def hot_def)
qed

lemma bump_parents_unfold:
  "bump_parents (Some r) = p_then (returns (node_at r)) (\<lambda>mht.
     if \<not> is_root_mht mht then
       p_seq (returns (on_cache (\<lambda>c. map_option (Pair ()) (cache_move_to_head (fn_physical_number mht) c)))) (bump_parents (fn_parent mht))
     else returns (ret ()))"
  by (rule ext, subst bump_parents.simps) simp

definition reordered :: "'w FileInner \<Rightarrow> 'w FileInner \<Rightarrow> bool" where
  "reordered s t \<longleftrightarrow> (\<exists>c. t = s\<lparr>f_cache := c\<rparr> \<and> lru_ok c \<and> set (entries c) = set (entries (f_cache s)) \<and> cache_len c = cache_len (f_cache s)
     \<and> (\<forall>k. cache_find k c = cache_find k (f_cache s)))"

lemma reordered_refl: "file_ok env mode s \<Longrightarrow> reordered s s"
  by (auto simp: reordered_def file_ok_def cache_ok_def intro!: exI [of _ "f_cache s"])

lemma reordered_got: "file_ok env mode s \<Longrightarrow> reordered s t \<Longrightarrow> got env mode s t"
  by (auto simp: reordered_def intro: got_cache)

lemma bump_parents_reorders:
  assumes "file_ok env mode s" "reordered s t" "mht_at s p l"
  shows "pwp (bump_parents (Some p)) (\<lambda>_. reordered s) (\<lambda>_ _. False) t"
  using assms(2,3)
proof (induction l arbitrary: p t rule: less_induct)
  case (less l)
  have t: "ns_nodes t = ns_nodes s" "lru_ok (f_cache t)" using less.prems(1) by (auto simp: reordered_def)
  have p: "p < length (ns_nodes s)" "fn_node_type (ns_nodes s ! p) = NT_Mht" "fn_logic_number (ns_nodes s ! p) = l"
    using less.prems(2) by (auto simp: mht_at_def)
  have sh: "shapes_ok (shapes s) (f_root_mht s)" using assms(1) by (simp add: file_ok_def)
  show ?case
  proof (cases "p = f_root_mht s")
    case True
    then show ?thesis using p(1) less.prems(1) shape_ok_root(2) [OF sh]
      unfolding bump_parents_unfold by (simp add: pwp twp t)
  next
    case False
    note n = shape_okD [OF sh p(1) False]
    obtain q where q: "fn_parent (ns_nodes s ! p) = Some q" "mht_at s q ((l - 1) div CHILD_MHT_NODES_COUNT)"
      using n(1) p by (auto simp: mht_at_def)
    obtain c where c: "cache_move_to_head (fn_physical_number (ns_nodes s ! p)) (f_cache t) = Some c" "lru_ok c"
        "set (entries c) = set (entries (f_cache t))" "cache_len c = cache_len (f_cache t)" "\<forall>j. cache_find j c = cache_find j (f_cache t)"
      using lru.bump_lookup [OF t(2)] by blast
    have "reordered s (t\<lparr>f_cache := c\<rparr>)" using c less.prems(1) by (auto simp: reordered_def)
    from less.IH [OF parent_less this q(2)] n(4) [OF p(2)] show ?thesis
      using p n(2) q(1) c(1) unfolding bump_parents_unfold [of p] by (simp add: pwp twp t)
  qed
qed

lemma bump_mht_node_reorders:
  assumes "file_ok env mode s" "data_at s r off"
  shows "pwp (bump_mht_node r) (\<lambda>_. reordered s) (\<lambda>_ _. False) s"
proof -
  have sh: "shapes_ok (shapes s) (f_root_mht s)" using assms(1) by (simp add: file_ok_def)
  have r: "r < length (ns_nodes s)" "fn_node_type (ns_nodes s ! r) = NT_Data" using assms(2) by (auto simp: data_at_def)
  then have "r \<noteq> f_root_mht s" using shape_ok_root(3) [OF sh] by auto
  then obtain p where "fn_parent (ns_nodes s ! r) = Some p" "mht_at s p (parent_logic NT_Data (fn_logic_number (ns_nodes s ! r)))"
    using shape_okD(1) [OF sh r(1)] r(2) by (auto simp: mht_at_def)
  then show ?thesis using bump_parents_reorders [OF assms(1) reordered_refl [OF assms(1)]] r(1)
    by (simp add: bump_mht_node_def pwp twp)
qed

lemma got_flush: "flush_inv env mode h s t \<Longrightarrow> (dirty_ok s \<longrightarrow> dirty_ok t) \<Longrightarrow> got env mode s t"
  using flush_inv_keeps flush_inv_frame(1) by (auto simp: got_def)

lemma got_status: "got env mode s t \<Longrightarrow> got env mode s (t\<lparr>f_status := st\<rparr>)"
  by (auto simp: got_def keeps_def position_def file_ok_def)

text \<open>Evicting nodes.\<close>

definition shrunk :: "'w fs_env \<Rightarrow> OpenMode \<Rightarrow> 'w FileInner \<Rightarrow> 'w FileInner \<Rightarrow> bool" where
  "shrunk env mode s t \<longleftrightarrow> got env mode s t \<and> set (entries (f_cache t)) \<subseteq> set (entries (f_cache s))"

lemma shrunk_refl: "file_ok env mode s \<Longrightarrow> shrunk env mode s s"
  by (simp add: shrunk_def got_refl)

lemma shrunk_trans: "shrunk env mode s t \<Longrightarrow> shrunk env mode t u \<Longrightarrow> shrunk env mode s u"
  using got_trans by (auto simp: shrunk_def)

lemma shrunk_cache:
  assumes "file_ok env mode s" "lru_ok c" "set (entries c) \<subseteq> set (entries (f_cache s))"
  shows "shrunk env mode s (s\<lparr>f_cache := c\<rparr>)"
  using got_cache [OF assms] assms(3) by (simp add: shrunk_def)

lemma shrunk_flush: "flush_inv env mode h s t \<Longrightarrow> (dirty_ok s \<longrightarrow> dirty_ok t) \<Longrightarrow> shrunk env mode s t"
  using got_flush [of env mode h s t] flush_inv_frame(5) [of env mode h s t] by (simp add: shrunk_def)

lemma shrunk_status: "shrunk env mode s t \<Longrightarrow> shrunk env mode s (t\<lparr>f_status := st\<rparr>)"
  by (simp add: shrunk_def got_status)

definition shrink_measure :: "'w FileInner \<Rightarrow> nat" where
  "shrink_measure s = 2 * cache_len (f_cache s) + (if dirty s then 1 else 0)"

text \<open>One turn of the loop, with the rest of the loop as an argument.\<close>

definition shrink_body :: "'w fs_env \<Rightarrow> ('w FileInner, FsError, unit) prog \<Rightarrow> ('w FileInner, FsError, unit) prog" where
  "shrink_body env again =
     p_then (returns (and_then (on_cache (\<lambda>c. map_option (\<lambda>v. (v, c)) (cache_back c)))
                          (\<lambda>v. ok_or v (SgxError Sgx_Unexpected)))) (\<lambda>r.
        p_then (returns (node_at r)) (\<lambda>node.
        p_seq (if \<not> fn_need_writing node
               then p_then (returns (on_cache cache_pop_back)) (\<lambda>_. returns (ret ()))
               else p_on_err (\<lambda>_. and_then (gets f_status) (\<lambda>status.
                        if status = FS_Ok then set_file_status FlushError else ret ()))
                      (internal_flush env False))
              again))"

lemma shrink_turn:
  fixes env :: "'w fs_env" and s0 s :: "'w FileInner"
  assumes "env_ok env" "shrunk env mode s0 s" "T \<Longrightarrow> dirty_ok s0" "f_max_cache_page s < cache_len (f_cache s)"
    and "\<And>t. shrunk env mode s0 t \<Longrightarrow> (T \<Longrightarrow> shrink_measure t < shrink_measure s) \<Longrightarrow> gwp T again (\<lambda>_. shrunk env mode s0) (\<lambda>_. shrunk env mode s0) t"
  shows "gwp T (shrink_body env again) (\<lambda>_. shrunk env mode s0) (\<lambda>_. shrunk env mode s0) s"
proof -
  have ok: "file_ok env mode s" using assms(2) by (simp add: shrunk_def got_def)
  have old: "cache_ok (f_cache s) (shapes s) (f_root_mht s)" using ok by (simp add: file_ok_def)
  then have lru: "lru_ok (f_cache s)" by (simp add: cache_ok_def)
  obtain xs k r where xs: "entries (f_cache s) = xs @ [(k, r)]"
    using assms(4) cache_len_entries [OF lru] by (cases "entries (f_cache s)" rule: rev_cases) auto
  have r: "r < length (ns_nodes s)" by (rule cache_ok_pair(1) [OF old, of k]) (simp add: xs)
  obtain c where c: "cache_pop_back (f_cache s) = Some (Some r, c)" "lru_ok c" "entries c = xs"
    using cache_pop_back_entries [OF lru xs] by blast
  have pop: "gwp T again (\<lambda>_. shrunk env mode s0) (\<lambda>_. shrunk env mode s0) (s\<lparr>f_cache := c\<rparr>)"
  proof (rule assms(5))
    show "shrunk env mode s0 (s\<lparr>f_cache := c\<rparr>)" by (rule shrunk_trans [OF assms(2) shrunk_cache [OF ok c(2)]]) (auto simp: c(3) xs)
    have "cache_len c + 1 = cache_len (f_cache s)" using cache_len_entries [OF lru] cache_len_entries [OF c(2)] by (simp add: c(3) xs)
    then show "shrink_measure (s\<lparr>f_cache := c\<rparr>) < shrink_measure s" by (simp add: shrink_measure_def)
  qed
  have flush: "pwp (internal_flush env False) (\<lambda>_. gwp T again (\<lambda>_. shrunk env mode s0) (\<lambda>_. shrunk env mode s0)) (\<lambda>_. shrunk env mode s0) s"
    if d: "fn_need_writing (ns_nodes s ! r)"
  proof (rule pwp_conseq [OF internal_flush_inv [OF assms(1) ok]])
    fix a t assume t: "flush_inv env mode False s t \<and> (dirty_ok s \<longrightarrow> \<not> dirty t)"
    have "f_cache t = f_cache s" using t flush_inv_frame(5) by blast
    moreover have "dirty s" using d by (simp add: dirty_def cached_def xs)
    moreover have "\<not> dirty t" if T using t assms(2,3) that by (auto simp: shrunk_def got_def)
    ultimately show "gwp T again (\<lambda>_. shrunk env mode s0) (\<lambda>_. shrunk env mode s0) t"
      using t by (intro assms(5) shrunk_trans [OF assms(2) shrunk_flush]) (auto simp: dirty_ok_def shrink_measure_def)
  qed (use shrunk_trans [OF assms(2) shrunk_flush] in blast)
  show ?thesis
    using r pop flush c(1) cache_back_entries [OF lru xs]
    by (auto simp: shrink_body_def gwp twp set_file_status_def intro!: pwp_gwp [OF flush] dest: shrunk_status)
qed

lemma gwp_at: "m s = m' s \<Longrightarrow> gwp T m P Q s = gwp T m' P Q s"
  by (simp add: gwp_def)

lemma shrink_cache_turn:
  "shrink_cache env s = (if f_max_cache_page s < cache_len (f_cache s) then shrink_body env (shrink_cache env) s else returns (ret ()) s)"
  by (subst shrink_cache.simps) (simp add: shrink_body_def)

lemma shrink_cache_ends:
  assumes "env_ok env" "shrunk env mode s0 s" "dirty_ok s0"
  shows "gwp True (shrink_cache env) (\<lambda>_. shrunk env mode s0) (\<lambda>_. shrunk env mode s0) s"
  using assms(2)
proof (induction "shrink_measure s" arbitrary: s rule: less_induct)
  case less
  show ?case
  proof (cases "f_max_cache_page s < cache_len (f_cache s)")
    case True
    show ?thesis
      by (subst gwp_at [where m' = "shrink_body env (shrink_cache env)"], simp add: shrink_cache_turn True)
         (rule shrink_turn [OF assms(1) less.prems assms(3) True], rule less.hyps, simp_all)
  next
    case False
    show ?thesis
      by (subst gwp_at [where m' = "returns (ret ())"], simp add: shrink_cache_turn False)
         (simp add: gwp twp less.prems)
  qed
qed

lemma shrink_cache_safe:
  assumes "env_ok env" "shrunk env mode s0 s"
  shows "gwp False (shrink_cache env) (\<lambda>_. shrunk env mode s0) (\<lambda>_. shrunk env mode s0) s"
proof (rule gwp_allI [where I = "shrunk env mode s0", OF _ assms(2)])
  let ?post = "\<lambda>y. case y of (Ok a, t) \<Rightarrow> shrunk env mode s0 t | (Err e, t) \<Rightarrow> shrunk env mode s0 t | (Panic, t) \<Rightarrow> False"
  fix s y assume y: "shrink_cache env s = Some y"
  have "env = env \<longrightarrow> shrunk env mode s0 s \<longrightarrow> ?post y"
  proof (rule shrink_cache.raw_induct [folded shrink_body_def, where P = "\<lambda>env' s y. env' = env \<longrightarrow> shrunk env mode s0 s \<longrightarrow> ?post y", OF _ y], intro impI)
    fix again env' s y
    assume ih: "\<And>env' s y. again env' s = Some y \<Longrightarrow> env' = env \<longrightarrow> shrunk env mode s0 s \<longrightarrow> ?post y"
      and run: "(if f_max_cache_page s < cache_len (f_cache s) then shrink_body env' (again env') s else returns (ret ()) s) = Some y"
      and env: "env' = env" and s: "shrunk env mode s0 s"
    have rec: "gwp False (again env) (\<lambda>_. shrunk env mode s0) (\<lambda>_. shrunk env mode s0) t" if "shrunk env mode s0 t" for t
      by (rule gwp_allI [where I = "shrunk env mode s0", OF _ that]) (use ih in blast)
    show "?post y"
    proof (cases "f_max_cache_page s < cache_len (f_cache s)")
      case True
      show ?thesis
        by (rule gwp_Some [OF shrink_turn [where T = False, OF assms(1) s _ True rec]])
           (use run True env in simp_all)
    next
      case False
      then show ?thesis using run s by (auto simp: returns_def ret_def)
    qed
  qed
  then show "shrunk env mode s0 s \<longrightarrow> ?post y" by simp
qed

lemma shrink_cache_shrinks:
  assumes "env_ok env" "shrunk env mode s0 s" "T \<Longrightarrow> dirty_ok s0"
  shows "gwp T (shrink_cache env) (\<lambda>_. shrunk env mode s0) (\<lambda>_. shrunk env mode s0) s"
  using shrink_cache_ends [OF assms(1,2)] shrink_cache_safe [OF assms(1,2)] assms(3) by (cases T) auto

section \<open>The data node of an offset\<close>

definition data_ref :: "'w FileInner \<Rightarrow> node_ref \<Rightarrow> usize \<Rightarrow> bool" where
  "data_ref s r off \<longleftrightarrow> r < length (ns_nodes s) \<and> fn_node_type (ns_nodes s ! r) = NT_Data
     \<and> fn_logic_number (ns_nodes s ! r) = data_logic off"

lemma data_at_ref: "data_at s r off \<Longrightarrow> data_ref s r off"
  by (simp add: data_at_def data_ref_def)

lemma data_ref_keeps: "data_ref s r off \<Longrightarrow> keeps s t \<Longrightarrow> data_ref t r off"
  using keeps_nth [of s t r] by (auto simp: data_ref_def shape_def)

definition appends :: "'w FileInner \<Rightarrow> bool" where
  "appends s \<longleftrightarrow> (f_offset s - MD_USER_DATA_SIZE) mod NODE_SIZE = 0 \<and> f_offset s = f_size s"

lemma cache_find_subset:
  assumes "cache_find k (f_cache s) = Some r" "set (entries (f_cache t)) \<subseteq> set (entries (f_cache s))" "file_ok env mode s" "file_ok env mode t"
  shows "cache_find k (f_cache t) \<in> {None, Some r}"
proof (cases "cache_find k (f_cache t)")
  case (Some q)
  then have "(k, q) \<in> set (entries (f_cache s))"
    using assms(2,4) lru.lookup_Some [of "f_cache t"] by (auto simp: file_ok_def cache_ok_def)
  then show ?thesis using assms(1,3) lru.lookup_Some [of "f_cache s" k q] Some by (auto simp: file_ok_def cache_ok_def)
qed simp

text \<open>A reference to the data node of an offset that is in the cache, unless it was evicted.\<close>

definition gives :: "'w FileInner \<Rightarrow> node_ref \<Rightarrow> usize \<Rightarrow> bool" where
  "gives s r off \<longleftrightarrow> MD_USER_DATA_SIZE \<le> off \<and> data_ref s r off \<and> cache_find (data_physical (data_logic off)) (f_cache s) \<in> {None, Some r}"

lemma get_data_node_got:
  assumes "env_ok env" "file_ok env mode s" "T \<Longrightarrow> dirty_ok s"
  shows "gwp T (get_data_node env) (\<lambda>r t. got env mode s t \<and> gives t r (f_offset s)) (\<lambda>_. got env mode s) s"
proof (cases "MD_USER_DATA_SIZE \<le> f_offset s")
  case False
  then show ?thesis using got_refl [OF assms(2)] by (simp add: get_data_node_def gwp twp)
next
  case True
  let ?off = "f_offset s"
  have get: "twp (if (?off - MD_USER_DATA_SIZE) mod NODE_SIZE = 0 \<and> ?off = f_size s then append_data_node env else read_data_node env)
      (\<lambda>r t. got env mode s t \<and> data_at t r ?off) (\<lambda>_. got env mode s) s"
    using data_node_got(1) [OF assms(1,2)] data_node_got(2) [OF assms(1,2) True] by (simp only: split: if_split) blast
  have shrink: "gwp T (p_seq (shrink_cache env) (returns (case d of Inr r \<Rightarrow> ret r | Inl e \<Rightarrow> bail e)))
      (\<lambda>r t. got env mode s t \<and> gives t r ?off) (\<lambda>_. got env mode s) t"
    if t: "got env mode s t" "\<And>r. d = Inr r \<Longrightarrow> data_at t r ?off" for d :: "FsError + node_ref" and t
  proof -
    have ok: "file_ok env mode t" "T \<Longrightarrow> dirty_ok t" using t(1) assms(3) by (auto simp: got_def)
    have "got env mode s u \<and> (\<forall>r. d = Inr r \<longrightarrow> gives u r ?off)" if u: "shrunk env mode t u" for u
      using that got_trans [OF t(1)] data_ref_keeps [OF data_at_ref [OF t(2)]] cache_find_subset [OF _ _ ok(1), of _ _ u] t(2) True
      by (auto simp: shrunk_def got_def [of env mode t u] gives_def data_at_def)
    then show ?thesis unfolding gwp_seq
      by (intro gwp_conseq [OF shrink_cache_shrinks [OF assms(1) shrunk_refl [OF ok(1)] ok(2)]]) (auto simp: gwp twp split: sum.split)
  qed
  have bump: "gwp T (bump_mht_node r) (\<lambda>_ u. got env mode s u \<and> data_at u r ?off) (\<lambda>_. got env mode s) t"
    if t: "got env mode s t" "data_at t r ?off" for r t
  proof -
    have ok: "file_ok env mode t" using t(1) by (simp add: got_def)
    have "got env mode s u \<and> data_at u r ?off" if u: "reordered t u" for u
      using reordered_got [OF ok u] got_trans [OF t(1)] data_ref_keeps [OF data_at_ref [OF t(2)], of u] t(2) u
      by (auto simp: got_def [of env mode t u] data_at_def data_ref_def reordered_def)
    then show ?thesis by (intro pwp_gwp [OF bump_mht_node_reorders [OF ok t(2)]]) auto
  qed
  have rest: "gwp T (p_seq (case d of Inr r \<Rightarrow> bump_mht_node r | Inl e \<Rightarrow> returns (ret ()))
      (p_seq (shrink_cache env) (returns (case d of Inr r \<Rightarrow> ret r | Inl e \<Rightarrow> bail e))))
      (\<lambda>r t. got env mode s t \<and> gives t r ?off) (\<lambda>_. got env mode s) t"
    if "got env mode s t" "\<And>r. d = Inr r \<Longrightarrow> data_at t r ?off" for d t
  proof (cases d)
    case (Inl e)
    then show ?thesis using shrink [OF that(1), of d] by (simp add: gwp_seq [of _ "returns (ret ())"] gwp_returns twp_ret)
  next
    case (Inr r)
    show ?thesis unfolding Inr sum.case gwp_seq [of _ "bump_mht_node r"]
      by (rule gwp_conseq [OF bump [OF that(1) that(2) [OF Inr]]]) (use shrink [of _ "Inr r"] in auto)
  qed
  show ?thesis
    unfolding get_data_node_def gwp_then gwp_returns twp_gets prod.case gwp_seq [of _ "returns (ensure _ _)"] twp_ensure if_P [OF True] twp_attempt
    by (rule twp_conseq [OF get]) (use rest [of _ "Inr _"] rest [of _ "Inl _"] in auto)
qed

end
