(* ===== verification/Pfs_Safe.thy ===== *)
theory Pfs_Safe
  imports Pfs_Tree
begin

text \<open>
  Reading and writing a protected file: no operation panics on a well formed file, whatever the host does, every operation keeps the
  file well formed, and reading and writing return when the changes in the cache can be flushed. Opening
  a file gives a well formed one.
\<close>

section \<open>Positions\<close>

lemma file_ok_position:
  assumes "file_ok env mode s" "off \<le> f_size s"
  shows "file_ok env mode (s\<lparr>f_offset := off\<rparr>)"
  using assms by (simp add: file_ok_def)

lemma file_ok_simps [simp]:
  "file_ok env mode (s\<lparr>f_last_error := e\<rparr>) = file_ok env mode s"
  "file_ok env mode (s\<lparr>f_end_of_file := b\<rparr>) = file_ok env mode s"
  "file_ok env mode (s\<lparr>f_status := st\<rparr>) = file_ok env mode s"
  "file_ok env mode (s\<lparr>f_need_writing := b\<rparr>) = file_ok env mode s"
  "file_ok env mode (s\<lparr>ns_world := w\<rparr>) = file_ok env mode s"
  "dirty_ok (s\<lparr>f_last_error := e\<rparr>) = dirty_ok s" "dirty_ok (s\<lparr>f_end_of_file := b\<rparr>) = dirty_ok s"
  "dirty_ok (s\<lparr>f_offset := off\<rparr>) = dirty_ok s"
  by (simp_all add: file_ok_def dirty_ok_def dirty_def hot_def cached_def)

text \<open>The file is well formed, and its changes can be flushed if they could be.\<close>

definition safe :: "'w fs_env \<Rightarrow> OpenMode \<Rightarrow> bool \<Rightarrow> 'w FileInner \<Rightarrow> bool" where
  "safe env mode T s \<longleftrightarrow> file_ok env mode s \<and> (T \<longrightarrow> dirty_ok s)"

lemma safe_simps [simp]:
  "safe env mode T (s\<lparr>f_last_error := e\<rparr>) = safe env mode T s"
  "safe env mode T (s\<lparr>f_end_of_file := b\<rparr>) = safe env mode T s"
  "safe env mode T (s\<lparr>f_status := st\<rparr>) = safe env mode T s"
  "safe env mode T (s\<lparr>ns_world := w\<rparr>) = safe env mode T s"
  by (simp_all add: safe_def)

lemma safe_got: "safe env mode T s \<Longrightarrow> got env mode s t \<Longrightarrow> safe env mode T t"
  by (auto simp: safe_def got_def)

lemma safe_offset: "safe env mode T s \<Longrightarrow> off \<le> f_size s \<Longrightarrow> safe env mode T (s\<lparr>f_offset := off\<rparr>)"
  by (simp add: safe_def file_ok_position)

lemma seek_target_bound:
  assumes "seek_target sz cur pos = Some off" "cur \<le> sz"
  shows "off \<le> sz"
  using assms by (auto simp: seek_target_def checked_sub_def checked_add_def split: SeekFrom.splits if_splits option.splits)

lemma file_seek_safe:
  assumes "safe env mode T s"
  shows "twp (file_seek pos) (\<lambda>off t. safe env mode T t \<and> f_offset t = off \<and> f_size t = f_size s \<and> seek_target (f_size s) (f_offset s) pos = Some off)
    (\<lambda>_ t. t = s) s"
proof -
  have "f_offset s \<le> f_size s" using assms by (simp add: safe_def file_ok_def)
  then show ?thesis using assms safe_offset [OF assms] seek_target_bound
    by (auto simp: file_seek_def twp split: option.splits)
qed

section \<open>Reading\<close>

lemma data_bytes:
  assumes "file_ok env mode s" "data_ref s r off"
  shows "\<exists>bs. fn_plaintext (ns_nodes s ! r) = Data bs \<and> length bs = NODE_SIZE"
proof -
  have "content_ok (ns_nodes s ! r)" using assms content_okD by (auto simp: file_ok_def data_ref_def)
  then show ?thesis using assms(2) by (auto simp: content_ok_def node_ok_def data_ref_def split: Node.splits)
qed

text \<open>A position in the metadata does not wrap around.\<close>

lemma in_metadata: "off < MD_USER_DATA_SIZE \<Longrightarrow> wrapping_add off (min n (MD_USER_DATA_SIZE - off)) = off + min n (MD_USER_DATA_SIZE - off)"
  by (rule wrapping_add_small) (simp add: layout_consts USIZE_LIMIT_def)

lemma read_loop_safe:
  assumes "env_ok env" "safe env mode T s" "f_offset s + n \<le> f_size s" "f_size s < USIZE_LIMIT"
  shows "gwp T (read_loop env n) (\<lambda>bs t. safe env mode T t \<and> f_size t = f_size s \<and> f_offset t = f_offset s + length bs \<and> length bs \<le> n)
    (\<lambda>_ _. False) s"
  using assms(2-4)
proof (induction n arbitrary: s rule: less_induct)
  case (less n)
  show ?case
  proof (cases "n = 0")
    case True
    then show ?thesis using less.prems by (subst read_loop.simps) (simp add: gwp twp)
  next
    case False
    have ok: "file_ok env mode s" "T \<Longrightarrow> dirty_ok s" using less.prems(1) by (auto simp: safe_def)
    let ?o = "(f_offset s - MD_USER_DATA_SIZE) mod NODE_SIZE"
    let ?len = "min n (NODE_SIZE - ?o)"
    have o: "?o < NODE_SIZE" by (simp add: NODE_SIZE_def)
    have turn: "gwp T (p_then (returns (gets f_offset)) (\<lambda>offset.
          p_then (returns (node_at r)) (\<lambda>node.
          let offset_in_node = (offset - MD_USER_DATA_SIZE) mod NODE_SIZE;
              len = min n (NODE_SIZE - offset_in_node) in
          p_seq (returns (set_offset (wrapping_add offset len)))
         (p_then (read_loop env (n - len)) (\<lambda>rest.
          returns (ret (take len (drop offset_in_node (node_bytes (fn_plaintext node))) @ rest)))))))
        (\<lambda>bs t. safe env mode T t \<and> f_size t = f_size s \<and> f_offset t = f_offset s + length bs \<and> length bs \<le> n) (\<lambda>_ _. False) t"
      if t: "got env mode s t" "data_ref t r (f_offset s)" for r t
    proof -
      have pos: "f_offset t = f_offset s" "f_size t = f_size s" using t(1) by (auto simp: got_def keeps_def position_def)
      have s: "safe env mode T t" using safe_got [OF less.prems(1) t(1)] .
      obtain bs where bs: "fn_plaintext (ns_nodes t ! r) = Data bs" "length bs = NODE_SIZE"
        using data_bytes [OF _ t(2), of env mode] t(1) by (auto simp: got_def)
      have r: "r < length (ns_nodes t)" using t(2) by (simp add: data_ref_def)
      have w: "wrapping_add (f_offset s) ?len = f_offset s + ?len" using less.prems(2,3) by (intro wrapping_add_small) simp
      let ?u = "t\<lparr>f_offset := f_offset s + ?len\<rparr>"
      have "safe env mode T ?u" using less.prems(2) by (intro safe_offset [OF s]) (simp add: pos)
      moreover have "f_offset ?u + (n - ?len) \<le> f_size ?u" "f_size ?u < USIZE_LIMIT" using less.prems(2,3) by (simp_all add: pos)
      moreover have "n - ?len < n" using False o by simp
      ultimately have "gwp T (read_loop env (n - ?len)) (\<lambda>bs t. safe env mode T t \<and> f_size t = f_size ?u
          \<and> f_offset t = f_offset ?u + length bs \<and> length bs \<le> n - ?len) (\<lambda>_ _. False) ?u"
        by (intro less.IH)
      then show ?thesis using r bs pos o
        by (simp add: gwp twp set_offset_def Let_def node_bytes_def w) (erule gwp_conseq; auto simp: gwp twp min_def split: if_splits)
    qed
    have err: "gwp T (p_seq (returns (set_last_error e)) (returns (ret [])))
        (\<lambda>bs t. safe env mode T t \<and> f_size t = f_size s \<and> f_offset t = f_offset s + length bs \<and> length bs \<le> n) (\<lambda>_ _. False) t"
      if t: "got env mode s t" for e t
      using safe_got [OF less.prems(1) t] t by (simp add: gwp twp set_last_error_def got_def keeps_def position_def)
    show ?thesis
      unfolding read_loop.simps [of env n] if_not_P [OF False] gwp_then [of _ "p_attempt _"] gwp_attempt
      by (rule gwp_conseq [OF get_data_node_got [OF assms(1) ok]]) (use turn err in \<open>auto simp: gives_def\<close>)
  qed
qed

lemma file_read_safe:
  assumes "env_ok env" "safe env mode T s" "f_size s < USIZE_LIMIT"
  shows "gwp T (file_read env buf len) (\<lambda>bs t. safe env mode T t \<and> f_size t = f_size s \<and> length bs \<le> len) (\<lambda>_ t. t = s) s"
proof -
  have off: "f_offset s \<le> f_size s" using assms(2) by (simp add: safe_def file_ok_def)
  let ?n = "min len (f_size s - f_offset s)"
  have sub: "wrapping_sub (f_size s) (f_offset s) = f_size s - f_offset s" using off assms(3) by (simp add: wrapping_sub_small)
  have md: "length (me_data (mi_encrypted_plain (f_metadata s))) = MD_USER_DATA_SIZE"
    using assms(2) by (simp add: safe_def file_ok_def meta_ok_def)
  have part: "twp (read_metadata_part ?n) (\<lambda>bs t. safe env mode T t \<and> f_size t = f_size s \<and> f_offset t = f_offset s + length bs \<and> length bs \<le> ?n)
      (\<lambda>(_ :: FsError) _. False) s"
    using off md assms(2) by (auto simp: read_metadata_part_def twp set_offset_def Let_def in_metadata intro!: safe_offset)
  have fin: "gwp T (p_then (read_loop env (?n - length first)) (\<lambda>rest.
          let bytes = first @ rest in
          p_seq (if ?n = length bytes \<and> ?n \<noteq> len
                 then p_then (returns (gets f_offset)) (\<lambda>offset.
                   p_seq (returns (rassert (offset = f_size s)))
                         (returns (modify (\<lambda>s. s\<lparr>f_end_of_file := True\<rparr>))))
                 else returns (ret ()))
                (returns (ret bytes))))
      (\<lambda>bs t. safe env mode T t \<and> f_size t = f_size s \<and> length bs \<le> len) (\<lambda>_ _. False) t"
    if t: "safe env mode T t" "f_size t = f_size s" "f_offset t = f_offset s + length first" "length first \<le> ?n" for first t
  proof -
    have "f_offset t + (?n - length first) \<le> f_size t" "f_size t < USIZE_LIMIT" using t off assms(3) by simp_all
    from read_loop_safe [OF assms(1) t(1) this] show ?thesis
      unfolding gwp_then
      by (rule gwp_conseq) (use t off in \<open>auto simp: gwp twp Let_def min_def split: if_splits\<close>)
  qed
  show ?thesis
    using assms(2) off
    by (auto simp: file_read_def gwp_returns gwp_then [of _ "returns _"] gwp_seq twp sub Let_def intro!: twp_conseq [OF part] gwp_conseq [OF fin [simplified Let_def length_append]])
qed

lemma safe_keeps_position:
  assumes "safe env mode T s" "safe env mode T t" "f_size t = f_size s"
  shows "safe env mode T (t\<lparr>f_offset := f_offset s\<rparr>)"
  using assms by (intro safe_offset) (auto simp: safe_def file_ok_def)

lemma file_read_at_safe:
  assumes "env_ok env" "safe env mode T s" "f_size s < USIZE_LIMIT"
  shows "gwp T (file_read_at env buf len off) (\<lambda>bs t. safe env mode T t \<and> f_size t = f_size s \<and> f_offset t = f_offset s \<and> length bs \<le> len)
    (\<lambda>_ t. safe env mode T t \<and> f_size t = f_size s \<and> f_offset t = f_offset s) s"
proof -
  have restore: "safe env mode T (t\<lparr>f_offset := f_offset s\<rparr>)" if "safe env mode T t" "f_size t = f_size s" for t
    by (rule safe_keeps_position [OF assms(2) that])
  have read: "gwp T (file_read env buf len) (\<lambda>bs u. safe env mode T u \<and> f_size u = f_size s \<and> length bs \<le> len)
      (\<lambda>_ u. safe env mode T u \<and> f_size u = f_size s) t" if "safe env mode T t" "f_size t = f_size s" for t
    by (rule gwp_conseq [OF file_read_safe [OF assms(1) that(1)]]) (use that assms(3) in auto)
  show ?thesis
    using assms(2) unfolding file_read_at_def gwp_then [of _ "returns _"] gwp_returns twp_gets prod.case
    by (auto simp: gwp_seq [of _ "returns (file_seek _)"] gwp_returns gwp_then gwp_attempt gwp_seq twp set_offset_def restore
        intro!: twp_conseq [OF file_seek_safe [OF assms(2)]] gwp_conseq [OF read])
qed

section \<open>Writing\<close>

text \<open>Moving on behind what was written; the file grows when its end is passed.\<close>

definition advance :: "usize \<Rightarrow> 'w FileInner \<Rightarrow> 'w FileInner" where
  "advance off s = s\<lparr>f_offset := off,
     f_metadata := (if off > f_size s then upd_encrypted (\<lambda>e. e\<lparr>me_size := off\<rparr>) (f_metadata s) else f_metadata s)\<rparr>"

lemma advance_eq:
  "(if f_offset (s\<lparr>f_offset := off\<rparr>) > f_size (s\<lparr>f_offset := off\<rparr>)
    then s\<lparr>f_offset := off, f_metadata := upd_encrypted (\<lambda>e. e\<lparr>me_size := off\<rparr>) (f_metadata s)\<rparr>
    else s\<lparr>f_offset := off\<rparr>) = advance off s"
  by (simp add: advance_def)

lemma advance_fields [simp]:
  "f_size (advance off s) = max (f_size s) off" "f_offset (advance off s) = off" "ns_nodes (advance off s) = ns_nodes s"
  "f_cache (advance off s) = f_cache s" "f_root_mht (advance off s) = f_root_mht s" "f_need_writing (advance off s) = f_need_writing s"
  "me_data (mi_encrypted_plain (f_metadata (advance off s))) = me_data (mi_encrypted_plain (f_metadata s))"
  "f_opts (advance off s) = f_opts s" "f_status (advance off s) = f_status s" "f_max_cache_page (advance off s) = f_max_cache_page s"
  by (simp_all add: advance_def upd_encrypted_def)

lemma upd_encrypted_ok [simp]:
  "mode_ok env mode g (upd_encrypted f m) = mode_ok env mode g m"
  "meta_ok (upd_encrypted (\<lambda>e. e\<lparr>me_size := n\<rparr>) m) = meta_ok m"
  "mi_encrypted_plain (upd_encrypted f m) = f (mi_encrypted_plain m)"
  by (simp_all add: mode_ok_def meta_ok_def update_flag_def upd_encrypted_def split: option.split)

lemma advance_safe:
  assumes "safe env mode T s"
  shows "safe env mode T (advance off s)"
proof -
  have "file_ok env mode (advance off s)" using assms by (simp add: safe_def file_ok_def) (simp add: advance_def)
  moreover have "dirty_ok (advance off s)" if "dirty_ok s"
    using that by (simp add: dirty_ok_def dirty_def hot_def cached_def less_max_iff_disj)
  ultimately show ?thesis using assms by (simp add: safe_def)
qed

text \<open>Overwriting a part of a data node.\<close>

definition put_bytes :: "node_ref \<Rightarrow> nat \<Rightarrow> byte list \<Rightarrow> 'w FileInner \<Rightarrow> 'w FileInner" where
  "put_bytes r o' new s = s\<lparr>ns_nodes := (ns_nodes s)[r := (ns_nodes s ! r)\<lparr>fn_plaintext :=
     node_with_bytes (fn_plaintext (ns_nodes s ! r)) (splice o' new (node_bytes (fn_plaintext (ns_nodes s ! r))))\<rparr>]\<rparr>"

lemma length_splice: "o' + length new \<le> length bs \<Longrightarrow> length (splice o' new bs) = length bs"
  by (simp add: splice_def)

lemma put_bytes_shape: "shapes (put_bytes r o' new s) = shapes s"
  by (simp add: put_bytes_def update_shape shape_def)

lemma put_bytes_safe:
  assumes "safe env mode T s" "data_ref s r off" "o' + length new \<le> NODE_SIZE"
  shows "safe env mode T (put_bytes r o' new s)"
proof -
  have ok: "file_ok env mode s" using assms(1) by (simp add: safe_def)
  obtain bs where bs: "fn_plaintext (ns_nodes s ! r) = Data bs" "length bs = NODE_SIZE" using data_bytes [OF ok assms(2)] by blast
  have r: "r < length (ns_nodes s)" "fn_node_type (ns_nodes s ! r) = NT_Data" using assms(2) by (auto simp: data_ref_def)
  have "content_ok (ns_nodes s ! r)" using ok r(1) content_okD by (auto simp: file_ok_def)
  then have "content_ok ((ns_nodes s ! r)\<lparr>fn_plaintext := node_with_bytes (fn_plaintext (ns_nodes s ! r))
      (splice o' new (node_bytes (fn_plaintext (ns_nodes s ! r))))\<rparr>)"
    using assms(3) length_splice [of o' new bs] by (simp add: content_ok_def bs r(2) node_with_bytes_def node_bytes_def node_ok_def)
  then have "file_ok env mode (put_bytes r o' new s)"
    using ok put_bytes_shape [of r o' new s] update_content by (simp add: file_ok_def put_bytes_def)
  moreover have "fn_need_writing (ns_nodes (put_bytes r o' new s) ! q) = fn_need_writing (ns_nodes s ! q)" for q
    using r(1) by (cases "q = r") (simp_all add: put_bytes_def)
  then have "dirty_ok (put_bytes r o' new s) = dirty_ok s"
    by (simp add: dirty_ok_def dirty_def hot_def cached_def) (simp add: put_bytes_def)
  ultimately show ?thesis using assms(1) by (simp add: safe_def)
qed

lemma mark_dirty_safe:
  assumes "safe env mode T s" "data_ref s r off" "MD_USER_DATA_SIZE < f_size s"
  shows "gwp T (mark_dirty r) (\<lambda>_ t. safe env mode T t \<and> frame t = frame s) (\<lambda>_ _. False) s"
proof (cases "fn_need_writing (ns_nodes s ! r)")
  case True
  then show ?thesis using assms by (simp add: mark_dirty_def gwp twp data_ref_def)
next
  case False
  have ok: "file_ok env mode s" using assms(1) by (simp add: safe_def)
  have sh: "shapes_ok (shapes s) (f_root_mht s)" using ok by (simp add: file_ok_def)
  have r: "r < length (ns_nodes s)" "fn_node_type (ns_nodes s ! r) = NT_Data" using assms(2) by (auto simp: data_ref_def)
  have "r \<noteq> f_root_mht s" using r(2) shape_ok_root(3) [OF sh] by auto
  then obtain p where p: "fn_parent (ns_nodes s ! r) = Some p" "mht_at s p (parent_logic NT_Data (fn_logic_number (ns_nodes s ! r)))"
    using shape_okD(1) [OF sh r(1)] r(2) by (auto simp: mht_at_def)
  let ?s = "s\<lparr>ns_nodes := (ns_nodes s)[r := (ns_nodes s ! r)\<lparr>fn_need_writing := True\<rparr>]\<rparr>"
  note inv = flush_inv_mark [OF flush_inv_refl [OF ok] r(1)]
  have "mht_at ?s p (parent_logic NT_Data (fn_logic_number (ns_nodes s ! r)))"
    by (rule mht_at_keeps [OF p(2) flush_inv_keeps [OF inv]])
  then have "pwp (mark_parents (Some p)) (\<lambda>_. flush_inv env mode False s) (\<lambda>_ _. False) ?s"
    by (intro mark_parents_total [OF inv]) (simp_all add: mht_at_def)
  moreover have "safe env mode T (u\<lparr>f_need_writing := True\<rparr>) \<and> frame (u\<lparr>f_need_writing := True\<rparr>) = frame s \<and> f_root_mht t < length (ns_nodes t)"
    if t: "flush_inv env mode False s t" and u: "u = t\<lparr>ns_nodes := (ns_nodes t)[f_root_mht t := (ns_nodes t ! f_root_mht t)\<lparr>fn_need_writing := True\<rparr>]\<rparr>" for t u
  proof -
    have root: "f_root_mht t < length (ns_nodes t)" using shape_ok_root(1) [OF flush_inv_frame(2) [OF t]] .
    have u': "flush_inv env mode False s u" unfolding u by (rule flush_inv_mark [OF t root])
    have "hot (u\<lparr>f_need_writing := True\<rparr>)" using root by (simp add: hot_def u)
    moreover have "f_size u = f_size s" using u' by (simp add: flush_inv_def frame_def)
    ultimately show ?thesis using u' root assms(3) by (simp add: safe_def flush_inv_def dirty_ok_def frame_def)
  qed
  ultimately show ?thesis using False r p(1)
    by (auto simp: mark_dirty_def gwp twp elim!: pwp_gwp)
qed

section \<open>Contents\<close>

text \<open>A byte of the file as far as it is known in the enclave: in the metadata or in a cached node.\<close>

definition byte_in :: "'w FileInner \<Rightarrow> node_ref \<Rightarrow> nat \<Rightarrow> byte" where
  "byte_in s r j = node_bytes (fn_plaintext (ns_nodes s ! r)) ! j"

definition in_node :: "usize \<Rightarrow> nat" where
  "in_node i = (i - MD_USER_DATA_SIZE) mod NODE_SIZE"

definition byte_at :: "'w FileInner \<Rightarrow> usize \<Rightarrow> byte option" where
  "byte_at s i =
     (if i < MD_USER_DATA_SIZE then Some (me_data (mi_encrypted_plain (f_metadata s)) ! i)
      else map_option (\<lambda>r. byte_in s r (in_node i)) (cache_find (data_physical (data_logic i)) (f_cache s)))"

text \<open>The offset of a byte of a data node.\<close>

definition place :: "'w FileInner \<Rightarrow> node_ref \<Rightarrow> nat \<Rightarrow> usize" where
  "place s r j = MD_USER_DATA_SIZE + fn_logic_number (ns_nodes s ! r) * NODE_SIZE + j"

text \<open>
  The effect of writing bytes to the nodes from an offset on: what is known of them is there, in every node the other bytes are
  as they were, and only nodes from that offset on are new in the cache.
\<close>

definition wrote :: "'w FileInner \<Rightarrow> usize \<Rightarrow> byte list \<Rightarrow> 'w FileInner \<Rightarrow> bool" where
  "wrote s off buf t \<longleftrightarrow>
     (\<forall>i < length buf. byte_at t (off + i) \<in> {None, Some (buf ! i)})
   \<and> (\<forall>r < length (ns_nodes s). fn_node_type (ns_nodes s ! r) = NT_Data \<longrightarrow> (\<forall>j < NODE_SIZE.
        byte_in t r j = byte_in s r j
        \<or> off \<le> place s r j \<and> place s r j < off + length buf \<and> byte_in t r j = buf ! (place s r j - off)))
   \<and> (\<forall>l r. cache_find (data_physical l) (f_cache t) = Some r \<longrightarrow> cache_find (data_physical l) (f_cache s) = Some r \<or> data_logic off \<le> l)
   \<and> prefix (shapes s) (shapes t)
   \<and> me_data (mi_encrypted_plain (f_metadata t)) = me_data (mi_encrypted_plain (f_metadata s))"

lemma node_place:
  assumes "MD_USER_DATA_SIZE \<le> i"
  shows "MD_USER_DATA_SIZE + data_logic i * NODE_SIZE + in_node i = i" "in_node i < NODE_SIZE"
  using assms by (simp_all add: data_logic_def in_node_def NODE_SIZE_def)

lemma same_node:
  assumes "MD_USER_DATA_SIZE \<le> off" "in_node off + n \<le> NODE_SIZE" "i < n"
  shows "data_logic (off + i) = data_logic off" "in_node (off + i) = in_node off + i"
proof -
  have "off + i - MD_USER_DATA_SIZE = data_logic off * NODE_SIZE + (in_node off + i)"
    using node_place(1) [OF assms(1)] assms(1) by simp
  moreover have "in_node off + i < NODE_SIZE" using assms(2,3) by simp
  ultimately show "data_logic (off + i) = data_logic off" "in_node (off + i) = in_node off + i"
    by (simp_all add: data_logic_def [of "off + i"] in_node_def [of "off + i"])
qed

lemma next_node:
  assumes "MD_USER_DATA_SIZE \<le> off" "in_node off + n = NODE_SIZE"
  shows "data_logic (off + n) = Suc (data_logic off)"
proof -
  have "off + n - MD_USER_DATA_SIZE = data_logic off * NODE_SIZE + NODE_SIZE"
    using node_place(1) [OF assms(1)] assms by simp
  then show ?thesis by (simp add: data_logic_def [of "off + n"] NODE_SIZE_def)
qed

lemma byte_in_data_of:
  assumes "data_of (ns_nodes t ! r) = data_of (ns_nodes s ! r)" "fn_node_type (ns_nodes s ! r) = NT_Data"
  shows "byte_in t r j = byte_in s r j"
  using assms by (auto simp: byte_in_def data_of_def split: if_splits)

lemma nth_splice:
  "o' + length new \<le> length bs \<Longrightarrow> j < length bs \<Longrightarrow>
     splice o' new bs ! j = (if o' \<le> j \<and> j < o' + length new then new ! (j - o') else bs ! j)"
  by (auto simp: splice_def nth_append)

lemma put_bytes_byte_in:
  assumes "file_ok env mode s" "data_ref s r off" "o' + length new \<le> NODE_SIZE" "j < NODE_SIZE"
  shows "byte_in (put_bytes r o' new s) q j =
    (if q = r \<and> o' \<le> j \<and> j < o' + length new then new ! (j - o') else byte_in s q j)"
proof -
  obtain bs where bs: "fn_plaintext (ns_nodes s ! r) = Data bs" "length bs = NODE_SIZE" using data_bytes [OF assms(1,2)] by blast
  have "r < length (ns_nodes s)" using assms(2) by (simp add: data_ref_def)
  then show ?thesis using assms(3,4) nth_splice [of o' new bs j]
    by (cases "q = r") (auto simp: byte_in_def put_bytes_def bs node_with_bytes_def node_bytes_def)
qed

lemma data_ref_place: "data_ref s r off \<Longrightarrow> place s r j = MD_USER_DATA_SIZE + data_logic off * NODE_SIZE + j"
  by (simp add: place_def data_ref_def)

lemma shapes_nth:
  assumes "prefix (shapes s) (shapes t)" "r < length (ns_nodes s)"
  shows "r < length (ns_nodes t)" "fn_node_type (ns_nodes t ! r) = fn_node_type (ns_nodes s ! r)"
    "fn_logic_number (ns_nodes t ! r) = fn_logic_number (ns_nodes s ! r)"
proof -
  have len: "length (ns_nodes s) \<le> length (ns_nodes t)" using prefix_length_le [OF assms(1)] by simp
  then show r: "r < length (ns_nodes t)" using assms(2) by simp
  have "shape (ns_nodes t ! r) = shape (ns_nodes s ! r)" using prefix_nth [OF assms(1), of r] assms(2) r by simp
  then show "fn_node_type (ns_nodes t ! r) = fn_node_type (ns_nodes s ! r)"
    "fn_logic_number (ns_nodes t ! r) = fn_logic_number (ns_nodes s ! r)" by (simp_all add: shape_def)
qed

lemma find_entry: "file_ok env mode s \<Longrightarrow> cache_find k (f_cache s) = Some r \<longleftrightarrow> (k, r) \<in> set (entries (f_cache s))"
  using lru.lookup_Some [of "f_cache s" k r] by (simp add: file_ok_def cache_ok_def)

lemma wrote_turn:
  assumes "file_ok env mode s" "got env mode s t1" "gives t1 r (f_offset s)" "off = f_offset s"
    and "in_node off + length new \<le> NODE_SIZE" "frame t = frame (advance off' (put_bytes r (in_node off) new t1))"
  shows "wrote s off new t"
proof -
  let ?t2 = "put_bytes r (in_node off) new t1"
  have ok1: "file_ok env mode t1" and k: "keeps s t1" using assms(2) by (auto simp: got_def)
  have md: "MD_USER_DATA_SIZE \<le> off" and ref: "data_ref t1 r off" and c: "cache_find (data_physical (data_logic off)) (f_cache t1) \<in> {None, Some r}"
    using assms(3,4) by (auto simp: gives_def)
  have f: "f_cache t = f_cache t1" "shapes t = shapes t1" "map data_of (ns_nodes t) = map data_of (ns_nodes ?t2)"
      "me_data (mi_encrypted_plain (f_metadata t)) = me_data (mi_encrypted_plain (f_metadata t1))"
    using assms(6) put_bytes_shape [of r "in_node off" new t1] by (auto simp: frame_def) (simp_all add: put_bytes_def)
  have len: "length (ns_nodes t) = length (ns_nodes t1)" using map_eq_imp_length_eq [OF f(2)] .
  have byte: "byte_in t q j = (if q = r \<and> in_node off \<le> j \<and> j < in_node off + length new then new ! (j - in_node off) else byte_in t1 q j)"
    if "q < length (ns_nodes t1)" "fn_node_type (ns_nodes t1 ! q) = NT_Data" "j < NODE_SIZE" for q j
  proof -
    have "data_of (ns_nodes t ! q) = data_of (ns_nodes ?t2 ! q)" using f(3) that(1) len by (metis length_map nth_map)
    moreover have "fn_node_type (ns_nodes ?t2 ! q) = NT_Data"
      using that(1,2) by (cases "q = r") (simp_all add: put_bytes_def)
    ultimately show ?thesis using byte_in_data_of [of t q ?t2] put_bytes_byte_in [OF ok1 ref assms(5) that(3)] by simp
  qed
  have r: "r < length (ns_nodes t1)" "fn_node_type (ns_nodes t1 ! r) = NT_Data" using ref by (auto simp: data_ref_def)
  have "byte_at t (off + i) \<in> {None, Some (new ! i)}" if i: "i < length new" for i
    using c byte [OF r, of "in_node off + i"] same_node [OF md assms(5) i] i assms(5) md
    by (auto simp: byte_at_def f(1))
  moreover have "byte_in t q j = byte_in s q j \<or> off \<le> place s q j \<and> place s q j < off + length new \<and> byte_in t q j = new ! (place s q j - off)"
    if q: "q < length (ns_nodes s)" "fn_node_type (ns_nodes s ! q) = NT_Data" and j: "j < NODE_SIZE" for q j
  proof -
    note n = keeps_nth [OF k q(1)]
    have t1: "fn_node_type (ns_nodes t1 ! q) = NT_Data" "place t1 q j = place s q j" using n(2) q(2) by (simp_all add: shape_def place_def)
    have same: "byte_in t1 q j = byte_in s q j" by (rule byte_in_data_of [OF n(3) q(2)])
    show ?thesis
    proof (cases "q = r \<and> in_node off \<le> j \<and> j < in_node off + length new")
      case True
      then have "place s q j = off + (j - in_node off)"
        using t1(2) data_ref_place [OF ref, of j] node_place(1) [OF md] by simp
      then show ?thesis using byte [OF n(1) t1(1) j] True by auto
    next
      case False
      then show ?thesis using byte [OF n(1) t1(1) j] same by auto
    qed
  qed
  moreover have "cache_find (data_physical l) (f_cache s) = Some q \<or> data_logic off \<le> l" if "cache_find (data_physical l) (f_cache t) = Some q" for l q
  proof -
    have "(data_physical l, q) \<in> set (entries (f_cache t1))" using that find_entry [OF ok1] by (simp add: f(1))
    then have "(data_physical l, q) \<in> set (entries (f_cache s)) \<or> new_entry s (data_physical l) q" using k by (auto simp: keeps_def)
    then show ?thesis using find_entry [OF assms(1)] assms(4) by (auto simp: new_entry_def)
  qed
  ultimately show ?thesis using k f(2,4) unfolding wrote_def by (auto simp: keeps_def position_def)
qed

lemma data_logic_mono: "a \<le> b \<Longrightarrow> data_logic a \<le> data_logic b"
  by (simp add: data_logic_def div_le_mono)

lemma wrote_append:
  assumes "wrote s off as t" "wrote t (off + length as) bs u" "file_ok env mode t"
    and "MD_USER_DATA_SIZE \<le> off" "in_node off + length as \<le> NODE_SIZE" "u = t \<and> bs = [] \<or> in_node off + length as = NODE_SIZE"
  shows "wrote s off (as @ bs) u"
proof (cases "u = t \<and> bs = []")
  case True
  then show ?thesis using assms(1) by simp
next
  case False
  then have full: "in_node off + length as = NODE_SIZE" using assms(6) by blast
  have w1: "byte_at t (off + i) \<in> {None, Some (as ! i)}" if "i < length as" for i using assms(1) that by (simp add: wrote_def)
  have w2: "byte_in u r j = byte_in t r j \<or> off + length as \<le> place t r j \<and> place t r j < off + length as + length bs
      \<and> byte_in u r j = bs ! (place t r j - (off + length as))"
    if "r < length (ns_nodes t)" "fn_node_type (ns_nodes t ! r) = NT_Data" "j < NODE_SIZE" for r j
    using assms(2) that unfolding wrote_def by blast
  have w2': "byte_in t r j = byte_in s r j \<or> off \<le> place s r j \<and> place s r j < off + length as \<and> byte_in t r j = as ! (place s r j - off)"
    if "r < length (ns_nodes s)" "fn_node_type (ns_nodes s ! r) = NT_Data" "j < NODE_SIZE" for r j
    using assms(1) that unfolding wrote_def by blast
  have w3: "cache_find (data_physical l) (f_cache t) = Some r \<or> data_logic (off + length as) \<le> l"
    if "cache_find (data_physical l) (f_cache u) = Some r" for l r
    using assms(2) that unfolding wrote_def by blast
  have sh: "prefix (shapes s) (shapes t)" "prefix (shapes t) (shapes u)" using assms(1,2) by (auto simp: wrote_def)
  have "byte_at u (off + i) \<in> {None, Some ((as @ bs) ! i)}" if "i < length (as @ bs)" for i
  proof (cases "i < length as")
    case True
    let ?d = "data_logic off"
    note n = same_node [OF assms(4,5) True]
    show ?thesis
    proof (cases "cache_find (data_physical ?d) (f_cache u)")
      case None
      then show ?thesis using assms(4) by (simp add: byte_at_def n)
    next
      case (Some r)
      then have r: "cache_find (data_physical ?d) (f_cache t) = Some r"
        using w3 next_node [OF assms(4) full] by fastforce
      have at: "data_ref t r off" by (rule data_at_ref [OF cached_data [OF assms(3) r]])
      have "place t r (in_node off + i) = off + i" using data_ref_place [OF at] node_place(1) [OF assms(4)] by simp
      then have "byte_in u r (in_node off + i) = byte_in t r (in_node off + i)"
        using w2 [of r "in_node off + i"] at True assms(5) by (auto simp: data_ref_def)
      then show ?thesis using w1 [OF True] Some r True assms(4) by (auto simp: byte_at_def n nth_append)
    qed
  next
    case False
    then have "i - length as < length bs" using that by simp
    then have "byte_at u (off + length as + (i - length as)) \<in> {None, Some (bs ! (i - length as))}"
      using assms(2) unfolding wrote_def by blast
    then show ?thesis using False by (simp add: nth_append)
  qed
  moreover have "byte_in u r j = byte_in s r j \<or> off \<le> place s r j \<and> place s r j < off + length (as @ bs) \<and> byte_in u r j = (as @ bs) ! (place s r j - off)"
    if r: "r < length (ns_nodes s)" "fn_node_type (ns_nodes s ! r) = NT_Data" and j: "j < NODE_SIZE" for r j
  proof -
    note n = shapes_nth [OF sh(1) r(1)]
    have "place t r j = place s r j" by (simp add: place_def n(3))
    then show ?thesis using w2 [OF n(1) _ j] w2' [OF r j] n(2) r(2) by (auto simp: nth_append)
  qed
  moreover have "cache_find (data_physical l) (f_cache s) = Some r \<or> data_logic off \<le> l" if "cache_find (data_physical l) (f_cache u) = Some r" for l r
    using w3 [OF that] assms(1) data_logic_mono [of off "off + length as"] unfolding wrote_def by fastforce
  moreover have "me_data (mi_encrypted_plain (f_metadata u)) = me_data (mi_encrypted_plain (f_metadata s))"
    using assms(1,2) by (simp add: wrote_def)
  ultimately show ?thesis using prefix_order.trans [OF sh] unfolding wrote_def by blast
qed

lemma wrote_got:
  assumes "file_ok env mode s" "got env mode s t" "off = f_offset s"
  shows "wrote s off [] t"
proof -
  have ok: "file_ok env mode t" and k: "keeps s t" using assms(2) by (auto simp: got_def)
  have "cache_find (data_physical l) (f_cache s) = Some q \<or> data_logic off \<le> l" if "cache_find (data_physical l) (f_cache t) = Some q" for l q
  proof -
    have "(data_physical l, q) \<in> set (entries (f_cache t))" using that find_entry [OF ok] by simp
    then have "(data_physical l, q) \<in> set (entries (f_cache s)) \<or> new_entry s (data_physical l) q" using k by (auto simp: keeps_def)
    then show ?thesis using find_entry [OF assms(1)] assms(3) by (auto simp: new_entry_def)
  qed
  moreover have "byte_in t r j = byte_in s r j" if "r < length (ns_nodes s)" "fn_node_type (ns_nodes s ! r) = NT_Data" for r j
    by (rule byte_in_data_of [OF keeps_nth(3) [OF k that(1)] that(2)])
  ultimately show ?thesis using k by (auto simp: wrote_def keeps_def position_def)
qed

text \<open>
  The outcome of writing a part of a buffer. The position wraps around at the end of \<open>usize\<close>: what was written where is said of
  a write that ends below it.
\<close>

definition write_post :: "'w fs_env \<Rightarrow> OpenMode \<Rightarrow> bool \<Rightarrow> 'w FileInner \<Rightarrow> byte list \<Rightarrow> nat \<Rightarrow> 'w FileInner \<Rightarrow> bool" where
  "write_post env mode T s buf n t \<longleftrightarrow> safe env mode T t \<and> n \<le> length buf \<and> (buf = [] \<longrightarrow> t = s)
     \<and> f_size s \<le> f_size t \<and> (f_size s < USIZE_LIMIT \<longrightarrow> f_size t < USIZE_LIMIT)
     \<and> (f_offset s + n < USIZE_LIMIT \<longrightarrow> f_offset t = f_offset s + n
         \<and> f_size t = max (f_size s) (f_offset s + n) \<and> wrote s (f_offset s) (take n buf) t)"

lemma wrote_last_error [simp]: "wrote s off bs (t\<lparr>f_last_error := e\<rparr>) = wrote s off bs t"
  by (simp add: wrote_def byte_at_def byte_in_def)

lemma twp_grow_to_offset: "twp grow_to_offset P Q (s\<lparr>f_offset := off\<rparr>) \<longleftrightarrow> P () (advance off s)"
  by (simp add: grow_to_offset_def twp advance_def)

lemma write_post_turn:
  assumes "write_post env mode T t4 (drop len buf) n t" "frame t4 = frame (advance (wrapping_add off len) (put_bytes r (in_node off) (take len buf) t1))"
    and "safe env mode T s" "got env mode s t1" "gives t1 r (f_offset s)" "off = f_offset s" "safe env mode T t4" "buf \<noteq> []"
    and "len = min (length buf) (NODE_SIZE - in_node off)"
  shows "write_post env mode T s buf (len + n) t"
proof -
  have ok: "file_ok env mode s" "file_ok env mode t4" using assms(3,7) by (auto simp: safe_def)
  have md: "MD_USER_DATA_SIZE \<le> off" using assms(5,6) by (simp add: gives_def)
  have len: "length (take len buf) = len" "in_node off + len \<le> NODE_SIZE" "0 < len"
    using node_place(2) [OF md] assms(8) by (auto simp: assms(9))
  have t4: "f_offset t4 = wrapping_add off len" "f_size t4 = max (f_size s) (wrapping_add off len)"
    using assms(2,4) by (auto simp: frame_def got_def keeps_def position_def put_bytes_def)
  have w: "wrote s off (take len buf) t4"
    using wrote_turn [OF ok(1) assms(4,5,6) _ assms(2)] len by simp
  have grown: "f_size s \<le> f_size t" "f_size s < USIZE_LIMIT \<Longrightarrow> f_size t < USIZE_LIMIT"
    using assms(1) wrapping_add_lt [of off len] by (auto simp: write_post_def t4)
  have "f_offset t = off + (len + n) \<and> f_size t = max (f_size s) (off + (len + n)) \<and> wrote s off (take (len + n) buf) t"
    if "off + (len + n) < USIZE_LIMIT"
  proof -
    have wrap: "wrapping_add off len = off + len" using that by (intro wrapping_add_small) simp
    have rest: "f_offset t = off + len + n" "f_size t = max (f_size t4) (off + len + n)" "wrote t4 (off + len) (take n (drop len buf)) t"
      using assms(1) that by (auto simp: write_post_def t4 wrap add.assoc)
    have "t = t4 \<and> take n (drop len buf) = [] \<or> in_node off + length (take len buf) = NODE_SIZE"
      using assms(1) len(1,2) by (cases "drop len buf = []") (auto simp: write_post_def assms(9) min_def split: if_splits)
    then have "wrote s off (take len buf @ take n (drop len buf)) t"
      using wrote_append [OF w _ ok(2) md] rest(3) len by simp
    then show ?thesis using rest by (simp add: t4 wrap take_add)
  qed
  then show ?thesis using assms(1,6,8) grown len by (auto simp: write_post_def)
qed

lemma write_loop_wrote:
  assumes "env_ok env" "safe env mode T s"
  shows "gwp T (write_loop env buf) (write_post env mode T s buf) (\<lambda>_ _. False) s"
  using assms(2)
proof (induction "length buf" arbitrary: s buf rule: less_induct)
  case less
  have ok: "file_ok env mode s" "T \<Longrightarrow> dirty_ok s" "f_offset s \<le> f_size s" using less.prems by (auto simp: safe_def file_ok_def)
  let ?off = "f_offset s"
  show ?case
  proof (cases "buf = []")
    case True
    then show ?thesis using less.prems ok(3) wrote_got [OF ok(1) got_refl [OF ok(1)] refl]
      by (subst write_loop.simps) (simp add: gwp twp write_post_def)
  next
    case False
    have err: "gwp T (p_seq (returns (set_last_error e)) (returns (ret 0))) (write_post env mode T s buf) (\<lambda>_ _. False) t"
      if t: "got env mode s t" for e t
      using safe_got [OF less.prems t] t wrote_got [OF ok(1) t refl] ok(3) False
      by (simp add: gwp twp set_last_error_def write_post_def got_def keeps_def position_def)
    have turn: "gwp T (p_then (returns (gets f_offset)) (\<lambda>offset.
          let offset_in_node = (offset - MD_USER_DATA_SIZE) mod NODE_SIZE;
              len = min (length buf) (NODE_SIZE - offset_in_node) in
          p_seq (returns (update_node r (\<lambda>n. n\<lparr>fn_plaintext := node_with_bytes (fn_plaintext n)
                   (splice offset_in_node (take len buf) (node_bytes (fn_plaintext n)))\<rparr>)))
         (p_seq (returns (set_offset (wrapping_add offset len)))
         (p_seq (returns grow_to_offset)
         (p_seq (mark_dirty r)
         (p_then (write_loop env (drop len buf)) (\<lambda>n. returns (ret (len + n)))))))))
        (write_post env mode T s buf) (\<lambda>_ _. False) t1"
      if t1: "got env mode s t1" "gives t1 r ?off" for r t1
    proof -
      define len where "len = min (length buf) (NODE_SIZE - in_node ?off)"
      let ?u = "advance (wrapping_add ?off len) (put_bytes r (in_node ?off) (take len buf) t1)"
      have md: "MD_USER_DATA_SIZE \<le> ?off" and ref: "data_ref t1 r ?off" using t1(2) by (auto simp: gives_def)
      have pos: "f_offset t1 = ?off" "f_size t1 = f_size s" using t1(1) by (auto simp: got_def keeps_def position_def)
      have len: "in_node ?off + length (take len buf) \<le> NODE_SIZE" "0 < len" "len \<le> length buf"
        using node_place(2) [OF md] False by (auto simp: len_def)
      have u: "safe env mode T ?u" using put_bytes_safe [OF safe_got [OF less.prems t1(1)] ref len(1)] by (rule advance_safe)
      have "data_ref ?u r ?off" using ref put_bytes_shape [of r "in_node ?off" "take len buf" t1]
        by (auto simp: data_ref_def shape_def put_bytes_def nth_list_update)
      moreover have "MD_USER_DATA_SIZE < f_size ?u"
      proof (cases "?off + len < USIZE_LIMIT")
        case True
        then show ?thesis using md len(2) by (simp add: wrapping_add_small)
      next
        case False
        then have "MD_USER_DATA_SIZE < f_size s" using ok(3) by (simp add: len_def layout_consts USIZE_LIMIT_def)
        then show ?thesis by (simp add: put_bytes_def pos)
      qed
      ultimately have mark: "gwp T (mark_dirty r) (\<lambda>_ t. safe env mode T t \<and> frame t = frame ?u) (\<lambda>_ _. False) ?u"
        by (rule mark_dirty_safe [OF u])
      have rec: "gwp T (p_then (write_loop env (drop len buf)) (\<lambda>n. returns (ret (len + n)))) (write_post env mode T s buf) (\<lambda>_ _. False) t4"
        if "safe env mode T t4 \<and> frame t4 = frame ?u" for t4
      proof -
        have "gwp T (write_loop env (drop len buf)) (write_post env mode T t4 (drop len buf)) (\<lambda>_ _. False) t4"
          using that len by (intro less.hyps) auto
        then show ?thesis unfolding gwp_then
          by (rule gwp_conseq) (use write_post_turn [OF _ _ less.prems t1 refl _ False len_def] that in \<open>auto simp: gwp twp\<close>)
      qed
      have "gwp T (p_seq (mark_dirty r) (p_then (write_loop env (drop len buf)) (\<lambda>n. returns (ret (len + n)))))
          (write_post env mode T s buf) (\<lambda>_ _. False) ?u"
        unfolding gwp_seq by (rule gwp_conseq [OF mark]) (use rec in auto)
      moreover have "(put_bytes r (in_node ?off) (take len buf) t1) = t1\<lparr>ns_nodes := (ns_nodes t1)[r := (ns_nodes t1 ! r)\<lparr>fn_plaintext :=
          node_with_bytes (fn_plaintext (ns_nodes t1 ! r)) (splice (in_node ?off) (take len buf) (node_bytes (fn_plaintext (ns_nodes t1 ! r))))\<rparr>]\<rparr>"
        by (simp add: put_bytes_def)
      moreover have "r < length (ns_nodes t1)" using ref by (simp add: data_ref_def)
      ultimately show ?thesis
        by (simp add: gwp_then [of _ "returns _"] gwp_returns twp_gets pos Let_def gwp_seq [of _ "returns _"] twp_update_node set_offset_def
            twp_modify twp_grow_to_offset flip: in_node_def len_def)
    qed
    show ?thesis
      unfolding write_loop.simps [of env buf] if_not_P [OF False] gwp_then [of _ "p_attempt _"] gwp_attempt
      by (rule gwp_conseq [OF get_data_node_got [OF assms(1) ok(1,2)]]) (use turn err in auto)
  qed
qed

end
