(* ===== verification/Pfs_Write.thy ===== *)
theory Pfs_Write
  imports Pfs_Safe
begin

text \<open>
  The operations on an open file: each keeps the file well formed and panics on no answer of the host; a write puts its bytes where
  they belong. The loops that fill a file with zeros are treated as they are: they end only if the file can be written.
\<close>

section \<open>Writing\<close>

lemma safe_need_writing: "safe env mode T s \<Longrightarrow> safe env mode T (s\<lparr>f_need_writing := True\<rparr>)"
  by (simp add: safe_def dirty_ok_def hot_def)

text \<open>The first bytes of a file are in the metadata.\<close>

definition meta_room :: "'w FileInner \<Rightarrow> byte list \<Rightarrow> nat" where
  "meta_room s buf = min (length buf) (MD_USER_DATA_SIZE - f_offset s)"

definition put_meta :: "byte list \<Rightarrow> 'w FileInner \<Rightarrow> 'w FileInner" where
  "put_meta buf s =
     (if f_offset s < MD_USER_DATA_SIZE then
        (advance (f_offset s + meta_room s buf) (s\<lparr>f_metadata := upd_encrypted
          (\<lambda>e. e\<lparr>me_data := splice (f_offset s) (take (meta_room s buf) buf) (me_data e)\<rparr>) (f_metadata s)\<rparr>))\<lparr>f_need_writing := True\<rparr>
      else s)"

lemma twp_write_metadata_part:
  "twp (write_metadata_part buf) P Q s \<longleftrightarrow> P (meta_room s buf) (put_meta buf s)"
  by (simp add: write_metadata_part_def twp meta_room_def put_meta_def Let_def upd_metadata_def set_offset_def twp_grow_to_offset in_metadata)

lemma put_meta_safe:
  assumes "safe env mode T s"
  shows "safe env mode T (put_meta buf s)"
proof -
  let ?s = "s\<lparr>f_metadata := upd_encrypted
          (\<lambda>e. e\<lparr>me_data := splice (f_offset s) (take (meta_room s buf) buf) (me_data e)\<rparr>) (f_metadata s)\<rparr>"
  have "meta_ok (f_metadata ?s)" if "meta_ok (f_metadata s)" "f_offset s < MD_USER_DATA_SIZE"
    using that by (simp add: meta_ok_def length_splice meta_room_def) (simp add: upd_encrypted_def update_flag_def)
  then have "file_ok env mode ?s" if "f_offset s < MD_USER_DATA_SIZE" using assms that by (simp add: safe_def file_ok_def)
  moreover have "dirty_ok ?s = dirty_ok s" by (simp add: dirty_ok_def dirty_def hot_def cached_def)
  ultimately have "safe env mode T ?s" if "f_offset s < MD_USER_DATA_SIZE" using assms that by (simp add: safe_def)
  from safe_need_writing [OF advance_safe [OF this]] assms show ?thesis by (simp add: put_meta_def)
qed

lemma put_meta_fields:
  "f_offset (put_meta buf s) = f_offset s + meta_room s buf" "f_cache (put_meta buf s) = f_cache s" "ns_nodes (put_meta buf s) = ns_nodes s"
  "f_offset s \<le> f_size s \<Longrightarrow> f_size (put_meta buf s) = max (f_size s) (f_offset s + meta_room s buf)"
  by (simp_all add: put_meta_def meta_room_def)

lemma put_meta_byte:
  assumes "file_ok env mode s"
  shows "byte_at (put_meta buf s) i =
    (if f_offset s \<le> i \<and> i < f_offset s + meta_room s buf then Some (buf ! (i - f_offset s)) else byte_at s i)"
proof -
  have "length (me_data (mi_encrypted_plain (f_metadata s))) = MD_USER_DATA_SIZE" using assms by (simp add: file_ok_def meta_ok_def)
  then show ?thesis
    by (auto simp: byte_at_def byte_in_def put_meta_fields) (auto simp: put_meta_def meta_room_def nth_splice intro!: nth_take)
qed

text \<open>A byte is where it was: in the metadata or in the same node.\<close>

definition stays :: "'w FileInner \<Rightarrow> 'w FileInner \<Rightarrow> usize \<Rightarrow> bool" where
  "stays s t i \<longleftrightarrow> i < MD_USER_DATA_SIZE
     \<or> cache_find (data_physical (data_logic i)) (f_cache t) = cache_find (data_physical (data_logic i)) (f_cache s)"

definition written :: "'w FileInner \<Rightarrow> usize \<Rightarrow> byte list \<Rightarrow> 'w FileInner \<Rightarrow> bool" where
  "written s off bs t \<longleftrightarrow> (\<forall>i < length bs. byte_at t (off + i) \<in> {None, Some (bs ! i)})
     \<and> (\<forall>i. (i < off \<or> off + length bs \<le> i) \<and> stays s t i \<longrightarrow> byte_at t i = byte_at s i)"

lemma wrote_stays:
  assumes "wrote s off bs t" "file_ok env mode s" "stays s t i" "i < off \<or> off + length bs \<le> i"
  shows "byte_at t i = byte_at s i"
proof (cases "i < MD_USER_DATA_SIZE")
  case True
  then show ?thesis using assms(1) by (simp add: byte_at_def wrote_def)
next
  case False
  then have find: "cache_find (data_physical (data_logic i)) (f_cache t) = cache_find (data_physical (data_logic i)) (f_cache s)"
    using assms(3) by (simp add: stays_def)
  have "byte_in t r (in_node i) = byte_in s r (in_node i)" if r: "cache_find (data_physical (data_logic i)) (f_cache s) = Some r" for r
  proof -
    note place = node_place [of i]
    have "data_at s r i" using cached_data [OF assms(2)] r False by (simp add: data_logic_def)
    then have "r < length (ns_nodes s)" "fn_node_type (ns_nodes s ! r) = NT_Data" "place s r (in_node i) = i"
      using place(1) False by (auto simp: data_at_def place_def data_logic_def)
    then show ?thesis using assms(1,4) place(2) False unfolding wrote_def by (metis not_less)
  qed
  then show ?thesis using False find
    by (cases "cache_find (data_physical (data_logic i)) (f_cache s)") (simp_all add: byte_at_def)
qed

lemma written_part:
  assumes "file_ok env mode s" "wrote (put_meta buf s) (f_offset s + meta_room s buf) bs t" "file_ok env mode (put_meta buf s)"
  shows "written s (f_offset s) (take (meta_room s buf) buf @ bs) t"
proof -
  let ?k = "meta_room s buf"
  have k: "length (take ?k buf) = ?k" "?k = 0 \<or> f_offset s + ?k \<le> MD_USER_DATA_SIZE" by (auto simp: meta_room_def)
  have stays: "stays (put_meta buf s) t i = stays s t i" for i by (simp add: stays_def put_meta_fields)
  have "byte_at t (f_offset s + i) \<in> {None, Some ((take ?k buf @ bs) ! i)}" if i: "i < ?k + length bs" for i
  proof (cases "i < ?k")
    case True
    then have "byte_at t (f_offset s + i) = byte_at (put_meta buf s) (f_offset s + i)"
      using k by (intro wrote_stays [OF assms(2,3)]) (auto simp: stays_def)
    then show ?thesis using True k by (simp add: put_meta_byte [OF assms(1)] nth_append)
  next
    case False
    have "\<forall>j < length bs. byte_at t (f_offset s + ?k + j) \<in> {None, Some (bs ! j)}" using assms(2) unfolding wrote_def by blast
    from this [rule_format, of "i - ?k"] show ?thesis using False i k by (simp add: nth_append)
  qed
  moreover have "byte_at t i = byte_at s i" if "i < f_offset s \<or> f_offset s + (?k + length bs) \<le> i" "stays s t i" for i
    using wrote_stays [OF assms(2,3)] that by (auto simp: stays put_meta_byte [OF assms(1)])
  ultimately show ?thesis using k by (auto simp: written_def)
qed

text \<open>Where a write starts, and its outcome.\<close>

definition start_of :: "'w FileInner \<Rightarrow> usize" where
  "start_of s = (if oo_append (f_opts s) then f_size s else f_offset s)"

definition write_result :: "'w fs_env \<Rightarrow> OpenMode \<Rightarrow> bool \<Rightarrow> 'w FileInner \<Rightarrow> byte list \<Rightarrow> nat \<Rightarrow> 'w FileInner \<Rightarrow> bool" where
  "write_result env mode T s buf n t \<longleftrightarrow> safe env mode T t \<and> n \<le> length buf
     \<and> f_size s \<le> f_size t \<and> (f_size s < USIZE_LIMIT \<longrightarrow> f_size t < USIZE_LIMIT)
     \<and> (start_of s + n < USIZE_LIMIT \<longrightarrow> (buf \<noteq> [] \<longrightarrow> f_offset t = start_of s + n)
         \<and> f_size t = max (f_size s) (start_of s + n) \<and> written s (start_of s) (take n buf) t)"

lemma written_refl: "written s off [] s"
  by (simp add: written_def)

lemma file_write_parts:
  assumes "env_ok env" "safe env mode T s" "buf \<noteq> []"
  shows "gwp T (p_then (returns (write_metadata_part buf)) (\<lambda>first. p_then (write_loop env (drop first buf)) (\<lambda>n. returns (ret (first + n)))))
    (\<lambda>n t. safe env mode T t \<and> n \<le> length buf \<and> f_size s \<le> f_size t \<and> (f_size s < USIZE_LIMIT \<longrightarrow> f_size t < USIZE_LIMIT)
     \<and> (f_offset s + n < USIZE_LIMIT \<longrightarrow> f_offset t = f_offset s + n
         \<and> f_size t = max (f_size s) (f_offset s + n) \<and> written s (f_offset s) (take n buf) t)) (\<lambda>_ _. False) s"
proof -
  let ?k = "meta_room s buf"
  have ok: "file_ok env mode s" "file_ok env mode (put_meta buf s)" "f_offset s \<le> f_size s"
    using assms(2) put_meta_safe [OF assms(2)] by (auto simp: safe_def file_ok_def)
  have k: "?k \<le> length buf" by (simp add: meta_room_def)
  have size: "f_size s \<le> f_size (put_meta buf s)" "f_size s < USIZE_LIMIT \<Longrightarrow> f_size (put_meta buf s) < USIZE_LIMIT"
    using ok(3) by (auto simp: put_meta_fields meta_room_def layout_consts USIZE_LIMIT_def)
  have "?k + n \<le> length buf \<and> f_size s \<le> f_size t \<and> (f_size s < USIZE_LIMIT \<longrightarrow> f_size t < USIZE_LIMIT)
      \<and> (f_offset s + (?k + n) < USIZE_LIMIT \<longrightarrow> f_offset t = f_offset s + (?k + n) \<and> f_size t = max (f_size s) (f_offset s + (?k + n))
          \<and> written s (f_offset s) (take (?k + n) buf) t)"
    if "write_post env mode T (put_meta buf s) (drop ?k buf) n t" for n t
    using that k written_part [OF ok(1) _ ok(2), of "take n (drop ?k buf)" t] ok(3) size
    by (intro conjI impI) (auto simp: write_post_def put_meta_fields take_add add.assoc)
  then show ?thesis
    unfolding gwp_then gwp_returns twp_write_metadata_part
    by (intro gwp_conseq [OF write_loop_wrote [OF assms(1) put_meta_safe [OF assms(2)]]]) (auto simp: twp write_post_def)
qed

lemma file_write_result:
  assumes "env_ok env" "safe env mode T s"
  shows "gwp T (file_write env a buf) (write_result env mode T s buf) (\<lambda>_ t. t = s) s"
proof (cases "buf = []")
  case True
  then show ?thesis using assms(2)
    by (auto simp: file_write_def gwp twp write_result_def written_refl start_of_def safe_def file_ok_def)
next
  case False
  let ?s = "s\<lparr>f_offset := start_of s\<rparr>"
  have s: "safe env mode T ?s" using assms(2) by (intro safe_offset) (auto simp: start_of_def safe_def file_ok_def)
  have "byte_at ?s = byte_at s" "stays ?s = stays s" by (auto simp: fun_eq_iff byte_at_def byte_in_def stays_def)
  then have "written ?s = written s" by (auto simp: fun_eq_iff written_def)
  then have "gwp T (p_then (returns (write_metadata_part buf)) (\<lambda>first. p_then (write_loop env (drop first buf)) (\<lambda>n. returns (ret (first + n)))))
     (write_result env mode T s buf) (\<lambda>_ t. t = s) ?s"
    by (intro gwp_conseq [OF file_write_parts [OF assms(1) s False]]) (auto simp: write_result_def)
  then show ?thesis using False
    by (cases "oo_append (f_opts s)")
      (simp_all add: file_write_def gwp_then [of _ "returns (gets _)"] gwp_returns gwp_seq twp set_offset_def start_of_def del: p_then_gets)
qed

section \<open>Filling with zeros, and the operations that do\<close>

definition bounded :: "'w fs_env \<Rightarrow> OpenMode \<Rightarrow> bool \<Rightarrow> 'w FileInner \<Rightarrow> bool" where
  "bounded env mode T s \<longleftrightarrow> safe env mode T s \<and> f_size s < USIZE_LIMIT"

lemma bounded_simps [simp]:
  "bounded env mode T (s\<lparr>f_last_error := e\<rparr>) = bounded env mode T s"
  "bounded env mode T (s\<lparr>f_end_of_file := v\<rparr>) = bounded env mode T s"
  "bounded env mode T (s\<lparr>f_status := st\<rparr>) = bounded env mode T s"
  "bounded env mode T (s\<lparr>ns_world := w\<rparr>) = bounded env mode T s"
  by (simp_all add: bounded_def)

lemma bounded_offset: "bounded env mode T s \<Longrightarrow> off \<le> f_size s \<Longrightarrow> bounded env mode T (s\<lparr>f_offset := off\<rparr>)"
  by (simp add: bounded_def safe_offset)

lemma file_write_bounded:
  assumes "env_ok env" "bounded env mode T s"
  shows "gwp T (file_write env a buf) (\<lambda>n t. n \<le> length buf \<and> f_size s \<le> f_size t \<and> bounded env mode T t) (\<lambda>_ t. t = s) s"
proof -
  have "safe env mode T s" using assms(2) by (simp add: bounded_def)
  from file_write_result [OF assms(1) this] show ?thesis
    by (rule gwp_conseq) (use assms(2) in \<open>auto simp: write_result_def bounded_def\<close>)
qed

text \<open>Nothing is said about whether the loop ends.\<close>

lemma fill_zeros_bounded:
  assumes "env_ok env" "bounded env mode T s"
  shows "gwp False (fill_zeros env n) (\<lambda>_ t. f_size s \<le> f_size t \<and> bounded env mode T t)
    (\<lambda>_ t. f_size s \<le> f_size t \<and> bounded env mode T t) s"
proof (rule gwp_allI [where I = "\<lambda>s'. s' = s"])
  let ?post = "\<lambda>y. case y of (Ok a, t) \<Rightarrow> f_size s \<le> f_size t \<and> bounded env mode T t
     | (Err e, t) \<Rightarrow> f_size s \<le> f_size t \<and> bounded env mode T t | (Panic, t) \<Rightarrow> False"
  fix s' y assume y: "fill_zeros env n s' = Some y"
  have "env = env \<longrightarrow> f_size s \<le> f_size s' \<longrightarrow> bounded env mode T s' \<longrightarrow> ?post y"
  proof (rule fill_zeros.raw_induct [where P = "\<lambda>env' m s' y. env' = env \<longrightarrow> f_size s \<le> f_size s' \<longrightarrow>
      bounded env mode T s' \<longrightarrow> ?post y", OF _ y], intro impI)
    fix again env' m s' y
    assume ih: "\<And>env' m s' y. again env' m s' = Some y \<Longrightarrow> env' = env \<longrightarrow> f_size s \<le> f_size s' \<longrightarrow>
          bounded env mode T s' \<longrightarrow> ?post y"
      and run: "(if 0 < m then p_then (file_write env' (env_zeros env') (replicate (min m 4096) 0)) (\<lambda>w. again env' (m - w)) s'
            else returns (ret ()) s') = Some y"
      and env: "env' = env" and s': "f_size s \<le> f_size s'" "bounded env mode T s'"
    show "?post y"
    proof (cases "0 < m")
      case True
      have rec: "gwp False (again env (m - w)) (\<lambda>_ t. f_size s \<le> f_size t \<and> bounded env mode T t)
          (\<lambda>_ t. f_size s \<le> f_size t \<and> bounded env mode T t) t"
        if "w \<le> min m 4096 \<and> f_size s' \<le> f_size t \<and> bounded env mode T t" for w t
      proof (rule gwp_allI [where I = "\<lambda>t'. t' = t", OF _ refl], intro impI)
        fix u z assume "again env (m - w) u = Some z" and u: "u = t"
        then show "?post z" using ih that s'(1) le_trans by blast
      qed
      have "gwp False (file_write env (env_zeros env) (replicate (min m 4096) 0))
          (\<lambda>w. gwp False (again env (m - w)) (\<lambda>_ t. f_size s \<le> f_size t \<and> bounded env mode T t)
            (\<lambda>_ t. f_size s \<le> f_size t \<and> bounded env mode T t))
          (\<lambda>_ t. f_size s \<le> f_size t \<and> bounded env mode T t) s'"
        by (rule gwp_conseq [OF gwp_iff [THEN iffD1, THEN conjunct1, OF file_write_bounded [OF assms(1) s'(2)]]])
          (use rec s' in \<open>auto simp: bounded_def\<close>)
      from gwp_Some [OF this [folded gwp_then]] show ?thesis using run True env by simp
    next
      case False
      then show ?thesis using run s' by (auto simp: returns_def ret_def bounded_def)
    qed
  qed
  then show "s' = s \<longrightarrow> ?post y" using assms(2) by blast
qed simp

lemma gwp_weaken: "gwp D m P Q s \<Longrightarrow> (T \<Longrightarrow> D) \<Longrightarrow> gwp T m P Q s"
  by (auto simp: gwp_def split: option.splits)

lemma file_seek_bounded:
  assumes "bounded env mode D s"
  shows "twp (file_seek pos) (\<lambda>off t. bounded env mode D t \<and> f_offset t = off \<and> f_size t = f_size s) (\<lambda>_ t. t = s) s"
  using assms unfolding bounded_def by (intro twp_conseq [OF file_seek_safe]) auto

lemma file_write_at_bounded:
  assumes "env_ok env" "bounded env mode D s" "T \<Longrightarrow> D \<and> off \<le> f_size s"
  shows "gwp T (file_write_at env a buf off) (\<lambda>n. bounded env mode D) (\<lambda>_. bounded env mode D) s"
proof -
  let ?P = "bounded env mode D"
  have s: "f_offset s \<le> f_size s" "?P s" using assms(2) by (auto simp: bounded_def safe_def file_ok_def)
  have restore: "bounded env mode D (t\<lparr>f_offset := f_offset s\<rparr>)" if "bounded env mode D t" "f_size s \<le> f_size t" for t
    using that s by (intro bounded_offset) auto
  have fill: "gwp T (if off > f_size s then p_seq (returns (file_seek (End 0)))
        (p_on_err (\<lambda>_. set_offset (f_offset s)) (fill_zeros env (off - f_size s))) else returns (ret ()))
      (\<lambda>_ t. ?P t \<and> f_size s \<le> f_size t) (\<lambda>_. ?P) s"
  proof (cases "off > f_size s")
    case True
    have t: "gwp T (p_on_err (\<lambda>_. set_offset (f_offset s)) (fill_zeros env (off - f_size s))) (\<lambda>_ t. ?P t \<and> f_size s \<le> f_size t) (\<lambda>_. ?P) t"
      if "bounded env mode D t \<and> f_size t = f_size s" for t
      unfolding gwp_on_err using True assms(3) that restore
      by (intro gwp_conseq [OF gwp_weaken [OF fill_zeros_bounded [OF assms(1)]]])
         (auto simp: twp set_offset_def intro: restore)
    have "bounded env mode D s" using assms(2) by (simp add: bounded_def)
    then show ?thesis using True s t unfolding if_P [OF True] gwp_seq gwp_returns
      by (intro twp_conseq [OF file_seek_bounded]) auto
  qed (use s in \<open>simp add: gwp twp\<close>)
  have wr: "gwp T (p_then (p_attempt (file_write env a buf)) (\<lambda>result.
       p_seq (returns (set_offset (f_offset s))) (returns (case result of Inl e \<Rightarrow> bail e | Inr n \<Rightarrow> ret n))))
      (\<lambda>_. bounded env mode D) (\<lambda>_. bounded env mode D) t" if "?P t" "f_size s \<le> f_size t" for t
    unfolding gwp_then gwp_attempt using assms(3) that
    by (intro gwp_conseq [OF gwp_weaken [OF file_write_bounded [OF assms(1) that(1)]]])
       (auto simp: gwp twp set_offset_def intro!: restore)
  have seek: "twp (on_err (\<lambda>_. set_offset (f_offset s)) (file_seek (Start off))) (\<lambda>_ t. ?P t \<and> f_size s \<le> f_size t) (\<lambda>_. ?P) t"
    if "?P t \<and> f_size s \<le> f_size t" for t
    unfolding twp_on_err using that by (intro twp_conseq [OF file_seek_bounded]) (auto simp: twp set_offset_def intro: restore)
  have rest: "gwp T (p_seq (returns (on_err (\<lambda>_. set_offset (f_offset s)) (file_seek (Start off))))
      (p_then (p_attempt (file_write env a buf)) (\<lambda>result.
       p_seq (returns (set_offset (f_offset s))) (returns (case result of Inl e \<Rightarrow> bail e | Inr n \<Rightarrow> ret n)))))
      (\<lambda>_. bounded env mode D) (\<lambda>_. bounded env mode D) t" if "?P t \<and> f_size s \<le> f_size t" for t
    unfolding gwp_seq [of _ "returns (on_err _ _)"] gwp_returns
    by (rule twp_conseq [OF seek [OF that]]) (use wr in auto)
  show ?thesis
    unfolding file_write_at_def gwp_then [of _ "returns (gets _)"] gwp_returns twp_gets prod.case gwp_seq [of _ "if _ then _ else _"]
    by (rule gwp_conseq [OF fill]) (use rest in auto)
qed

lemma file_set_len_bounded:
  assumes "env_ok env" "bounded env mode D s" "n < USIZE_LIMIT"
  shows "gwp False (file_set_len env n) (\<lambda>_ t. bounded env mode False t \<and> f_size t = n) (\<lambda>_. bounded env mode False) s"
proof -
  have s: "f_offset s \<le> f_size s" using assms(2) by (simp add: bounded_def safe_def file_ok_def)
  let ?Q = "\<lambda>_. bounded env mode False"
  have start: "bounded env mode False s" using assms(2) by (simp add: bounded_def safe_def)
  have fill: "gwp False (fill_zeros env k) (\<lambda>_ t. f_size s \<le> f_size t \<and> bounded env mode False t)
      (\<lambda>_ t. f_size s \<le> f_size t \<and> bounded env mode False t) t"
    if "bounded env mode False t \<and> f_size t = f_size s" for k t
    using that by (intro gwp_conseq [OF fill_zeros_bounded [OF assms(1)]]) auto
  have restore: "bounded env mode False (t\<lparr>f_offset := f_offset s\<rparr>)" if "bounded env mode False t" "f_size s \<le> f_size t" for t
    using that s by (intro bounded_offset) auto
  have fin: "bounded env mode False (t\<lparr>f_offset := min (f_offset s) n, f_end_of_file := False,
       f_metadata := upd_encrypted (\<lambda>e. e\<lparr>me_size := n\<rparr>) (f_metadata t)\<rparr>)" if "bounded env mode False t" for t
    using that assms(3) by (simp add: bounded_def safe_def file_ok_def)
  show ?thesis
  proof (cases "n > f_size s")
    case True
    have "gwp False (p_seq (returns (file_seek (End 0))) (p_on_err (\<lambda>_. set_offset (f_offset s)) (fill_zeros env (n - f_size s))))
        (\<lambda>_. bounded env mode False) ?Q s"
      unfolding gwp_seq gwp_returns gwp_on_err using True start assms(2)
      by (intro twp_conseq [OF file_seek_bounded [OF start]] gwp_conseq [OF fill])
         (auto simp: twp set_offset_def intro!: restore)
    then show ?thesis using True fin
      unfolding file_set_len_def gwp_then [of _ "returns (gets _)"] gwp_returns twp_gets prod.case if_P [OF True] gwp_seq [of _ "p_seq _ _"]
      by (elim gwp_conseq) (auto simp: twp)
  next
    case False
    have "gwp False (p_seq (returns (file_seek (Start n)))
             (p_then (p_attempt (fill_zeros env (f_size s - n))) (\<lambda>_. returns (ret ()))))
        (\<lambda>_. bounded env mode False) ?Q s"
      unfolding gwp_seq gwp_returns gwp_then gwp_attempt using start assms(2)
      by (intro twp_conseq [OF file_seek_bounded [OF start]] gwp_conseq [OF fill])
         (auto simp: twp gwp)
    then show ?thesis using fin
      unfolding file_set_len_def gwp_then [of _ "returns (gets _)"] gwp_returns twp_gets prod.case if_not_P [OF False] gwp_seq [of _ "p_seq _ _"]
      by (elim gwp_conseq) (auto simp: twp)
  qed
qed

section \<open>Flushing, clearing, renaming and closing\<close>

lemma bounded_got: "bounded env mode T s \<Longrightarrow> got env mode s t \<Longrightarrow> bounded env mode T t"
  using safe_got [of env mode T s t] by (simp add: bounded_def) (simp add: got_def keeps_def position_def)

lemma bounded_file_ok: "bounded env mode T s \<Longrightarrow> file_ok env mode s"
  by (simp add: bounded_def safe_def)

lemma internal_flush_bounded:
  assumes "env_ok env" "bounded env mode T s"
  shows "pwp (internal_flush env flush) (\<lambda>_ t. bounded env mode T t \<and> (T \<longrightarrow> \<not> dirty t)) (\<lambda>_. bounded env mode T) s"
proof (rule pwp_conseq [OF internal_flush_inv [OF assms(1) bounded_file_ok [OF assms(2)]]])
  have "T \<Longrightarrow> dirty_ok s" using assms(2) by (simp add: bounded_def safe_def)
  then show "bounded env mode T t \<and> (T \<longrightarrow> \<not> dirty t)" if "flush_inv env mode False s t \<and> (dirty_ok s \<longrightarrow> \<not> dirty t)" for t
    using that got_flush [of env mode False s t] by (auto simp: dirty_ok_def intro: bounded_got [OF assms(2)])
  show "bounded env mode T t" if "flush_inv env mode False s t \<and> (dirty_ok s \<longrightarrow> dirty_ok t)" for t
    using that got_flush [of env mode False s t] bounded_got [OF assms(2)] by blast
qed

lemma file_flush_bounded:
  assumes "env_ok env" "bounded env mode T s"
  shows "pwp (file_flush env) (\<lambda>_ t. bounded env mode T t \<and> (T \<longrightarrow> \<not> dirty t)) (\<lambda>_. bounded env mode T) s"
  using assms(2) unfolding file_flush_def pwp_then pwp_seq pwp_returns twp_gets twp_ensure pwp_on_err
  by (auto simp: twp set_file_status_def intro!: pwp_conseq [OF internal_flush_bounded [OF assms]])

lemma write_to_disk_bounded:
  assumes "bounded env mode T s"
  shows "twp (write_to_disk env flush) (\<lambda>_ t. bounded env mode T t \<and> (T \<longrightarrow> \<not> dirty t)) (\<lambda>_. bounded env mode T) s"
proof (rule twp_conseq [OF write_to_disk_inv [OF flush_inv_refl [OF bounded_file_ok [OF assms]]]])
  have "T \<Longrightarrow> dirty_ok s" using assms by (simp add: bounded_def safe_def)
  then show "bounded env mode T t \<and> (T \<longrightarrow> \<not> dirty t)" if "flush_inv env mode False s t \<and> (dirty_ok s \<longrightarrow> \<not> dirty t)" for t
    using that got_flush [of env mode False s t] by (auto simp: dirty_ok_def intro: bounded_got [OF assms])
  show "bounded env mode T t" if "flush_inv env mode False s t \<and> (dirty_ok s \<longrightarrow> dirty_ok t)" for t
    using that got_flush [of env mode False s t] bounded_got [OF assms] by blast
qed

lemma bounded_clean: "bounded env mode T s \<Longrightarrow> (T \<longrightarrow> \<not> dirty s) \<Longrightarrow> bounded env mode T (s\<lparr>f_need_writing := v\<rparr>)"
  by (simp add: bounded_def safe_def dirty_ok_def)

lemma file_clear_error_bounded:
  assumes "env_ok env" "bounded env mode T s"
  shows "pwp (file_clear_error env) (\<lambda>_ t. bounded env mode T t \<and> f_status t = FS_Ok) (\<lambda>_. bounded env mode T) s"
proof -
  have "twp (write_to_disk env True) (\<lambda>_ t. bounded env mode T (t\<lparr>f_need_writing := False\<rparr>)) (\<lambda>_. bounded env mode T) s"
    by (rule twp_conseq [OF write_to_disk_bounded [OF assms(2)]]) (auto intro: bounded_clean)
  moreover have "pwp (internal_flush env True) (\<lambda>_. bounded env mode T) (\<lambda>_. bounded env mode T) s"
    by (rule pwp_conseq [OF internal_flush_bounded [OF assms]]) auto
  ultimately show ?thesis using assms(2)
    by (auto simp: file_clear_error_def pwp twp set_last_error_def set_file_status_def elim!: twp_conseq pwp_conseq)
qed

lemma drain_cache_unfold:
  "drain_cache s = p_then (returns (on_cache cache_pop_back)) (\<lambda>popped. case popped of
       None \<Rightarrow> returns (ret ())
     | Some r \<Rightarrow> p_then (returns (node_at r)) (\<lambda>node.
         if fn_need_writing node then returns (bail (SgxError Sgx_BadStatus)) else drain_cache)) s"
proof -
  have "(\<lambda>popped s. case popped of None \<Rightarrow> returns (ret ()) s
     | Some r \<Rightarrow> p_then (returns (node_at r)) (\<lambda>node.
         if fn_need_writing node then returns (bail (SgxError Sgx_BadStatus)) else (\<lambda>s. drain_cache s)) s)
    = (\<lambda>popped. case popped of None \<Rightarrow> returns (ret ())
     | Some r \<Rightarrow> p_then (returns (node_at r)) (\<lambda>node.
         if fn_need_writing node then returns (bail (SgxError Sgx_BadStatus)) else drain_cache))"
    by (auto simp: fun_eq_iff split: option.split)
  then show ?thesis
    by (subst drain_cache.simps) (rule arg_cong [where f = "\<lambda>k. p_then (returns (on_cache cache_pop_back)) k s"])
qed

lemma pwp_at: "m s = m' s \<Longrightarrow> pwp m P Q s = pwp m' P Q s"
  by (simp add: pwp_def)

lemma pwp_drain_cache:
  "pwp drain_cache P Q s = pwp (p_then (returns (on_cache cache_pop_back)) (\<lambda>popped. case popped of
       None \<Rightarrow> returns (ret ())
     | Some r \<Rightarrow> p_then (returns (node_at r)) (\<lambda>node.
         if fn_need_writing node then returns (bail (SgxError Sgx_BadStatus)) else drain_cache))) P Q s"
  by (rule pwp_at [OF drain_cache_unfold])

lemma drain_cache_shrinks:
  assumes "file_ok env mode s"
  shows "pwp drain_cache (\<lambda>_ t. shrunk env mode s t \<and> entries (f_cache t) = []) (\<lambda>_. shrunk env mode s) s"
  using assms
proof (induction "entries (f_cache s)" arbitrary: s rule: rev_induct)
  case Nil
  have "lru_ok (f_cache s)" using Nil.prems by (simp add: file_ok_def cache_ok_def)
  from cache_empty_entries(1) [OF this] Nil show ?case
    by (subst pwp_drain_cache) (simp add: pwp twp shrunk_refl)
next
  case (snoc x xs)
  obtain k r where x: "x = (k, r)" by fastforce
  have old: "cache_ok (f_cache s) (shapes s) (f_root_mht s)" using snoc.prems by (simp add: file_ok_def)
  then have lru: "lru_ok (f_cache s)" by (simp add: cache_ok_def)
  have xs: "entries (f_cache s) = xs @ [(k, r)]" using snoc.hyps x by simp
  have r: "r < length (ns_nodes s)" by (rule cache_ok_pair(1) [OF old, of k]) (simp add: xs)
  obtain c where c: "cache_pop_back (f_cache s) = Some (Some r, c)" "lru_ok c" "entries c = xs"
    using cache_pop_back_entries [OF lru xs] by blast
  have s: "shrunk env mode s (s\<lparr>f_cache := c\<rparr>)" by (rule shrunk_cache [OF snoc.prems c(2)]) (auto simp: c(3) xs)
  have "file_ok env mode (s\<lparr>f_cache := c\<rparr>)" using s by (simp add: shrunk_def got_def)
  then have "pwp drain_cache (\<lambda>_ t. shrunk env mode s t \<and> entries (f_cache t) = []) (\<lambda>_. shrunk env mode s) (s\<lparr>f_cache := c\<rparr>)"
    by (intro pwp_conseq [OF snoc.hyps(1)]) (use shrunk_trans [OF s] in \<open>simp_all add: c(3)\<close>)
  then show ?case using r s c(1) by (subst pwp_drain_cache) (simp add: pwp twp)
qed

lemma file_clear_cache_bounded:
  assumes "env_ok env" "bounded env mode T s"
  shows "pwp (file_clear_cache env) (\<lambda>_ t. bounded env mode T t \<and> entries (f_cache t) = []) (\<lambda>_. bounded env mode T) s"
proof -
  have first: "pwp (if f_status s = FS_Ok then internal_flush env True else file_clear_error env) (\<lambda>_. bounded env mode T) (\<lambda>_. bounded env mode T) s"
    using pwp_conseq [OF internal_flush_bounded [OF assms]] pwp_conseq [OF file_clear_error_bounded [OF assms]] by simp
  have "pwp drain_cache (\<lambda>_ t. bounded env mode T t \<and> entries (f_cache t) = []) (\<lambda>_. bounded env mode T) t" if "bounded env mode T t" for t
    by (rule pwp_conseq [OF drain_cache_shrinks [OF bounded_file_ok [OF that]]])
       (use bounded_got [OF that] in \<open>auto simp: shrunk_def\<close>)
  then have rest: "pwp (p_then (returns (gets f_status)) (\<lambda>status. p_seq (returns (ensure (status = FS_Ok) (SgxError Sgx_BadStatus))) drain_cache))
      (\<lambda>_ t. bounded env mode T t \<and> entries (f_cache t) = []) (\<lambda>_. bounded env mode T) t" if "bounded env mode T t" for t
    using that by (simp add: pwp twp)
  show ?thesis
    unfolding file_clear_cache_def
    by (subst pwp_then, unfold pwp_returns twp_gets, subst pwp_seq) (rule pwp_conseq [OF first], use rest in auto)
qed

lemma file_rename_bounded:
  assumes "bounded env mode T s"
  shows "twp (file_rename old_name new_name) (\<lambda>_. bounded env mode T) (\<lambda>_ t. t = s) s"
proof -
  let ?s = "s\<lparr>f_metadata := upd_encrypted (\<lambda>e. e\<lparr>me_file_name := fit FILENAME_MAX_LEN (str_bytes new_name)\<rparr>) (f_metadata s)\<rparr>"
  have "meta_ok (f_metadata ?s)" if "meta_ok (f_metadata s)"
    using that by (simp add: meta_ok_def fit_def) (simp add: upd_encrypted_def update_flag_def)
  then have "file_ok env mode ?s" using bounded_file_ok [OF assms] by (simp add: file_ok_def)
  moreover have "dirty_ok ?s = dirty_ok s" by (simp add: dirty_ok_def dirty_def hot_def cached_def)
  ultimately have "safe env mode T ?s" using assms by (simp add: bounded_def safe_def)
  then have "bounded env mode T (?s\<lparr>f_need_writing := True\<rparr>)" using assms safe_need_writing [of env mode T ?s] by (simp add: bounded_def)
  then show ?thesis by (simp add: file_rename_def twp meta_file_name_def Let_def upd_metadata_def)
qed

lemma file_get_metadata_mac_bounded:
  assumes "env_ok env" "bounded env mode T s"
  shows "pwp (file_get_metadata_mac env) (\<lambda>_. bounded env mode T) (\<lambda>_. bounded env mode T) s"
  unfolding file_get_metadata_mac_def pwp_seq
  by (rule pwp_conseq [OF file_flush_bounded [OF assms]]) (auto simp: pwp twp)

lemma meta_restore_key_total:
  assumes "env_ok env" "mp_encrypt_flags (mi_plain m) = flags_of_mode mode"
  shows "twp (meta_restore_key env m gen) (\<lambda>_ t. t = s) (\<lambda>_ t. t = s) s"
proof -
  have r: "twp (restore_key env gen KT_Metadata i p c v) (\<lambda>_ t. t = s) (\<lambda>_ t. t = s) s" for i p c v
    by (cases gen) (auto simp: restore_key_def metadata_restore_key_def kdf_restore_key_def cmac_def twp get_key_total [OF assms(1)]
        split: MetadataKey.splits option.splits prod.splits res.splits if_splits)
  then show ?thesis using assms(2) by (cases mode) (simp_all add: meta_restore_key_def flags_of_mode_def Let_def)
qed

lemma twp_if_ensure:
  assumes "P () s" "Q e s"
  shows "twp (if c then ensure b e else ret ()) P Q s"
  using assms by (simp add: twp)

lemma file_close_bounded:
  assumes "env_ok env" "bounded env mode T s"
  shows "pwp (file_close env cm) (\<lambda>key t. bounded env mode T t \<and> f_status t = Closed \<and> (key = None \<longleftrightarrow> cm \<noteq> CM_Export)) (\<lambda>_. bounded env mode T) s"
proof -
  let ?B = "bounded env mode T"
  have imp: "?B (s\<lparr>f_need_writing := True\<rparr>)" using assms(2) safe_need_writing [of env mode T s] by (simp add: bounded_def)
  let ?P = "\<lambda>key t. ?B t \<and> f_status t = Closed \<and> (key = None \<longleftrightarrow> cm \<noteq> CM_Export)"
  let ?fin = "returns (and_then (gets (\<lambda>s. s)) (\<lambda>s.
       seq (if f_status s = FS_Ok \<and> fs_is_success (f_last_error s) then remove_recovery_file env else ret ())
      (seq (set_file_status Closed)
       (if cm = CM_Export
        then and_then (gets (\<lambda>s. (f_metadata s, f_key_gen s))) (\<lambda>(m, gen).
          and_then (meta_restore_key env m gen) (\<lambda>key. ret (Some key)))
        else ret None))))"
  have close: "twp (seq (set_file_status Closed)
       (if cm = CM_Export
        then and_then (gets (\<lambda>s. (f_metadata s, f_key_gen s))) (\<lambda>(m, gen).
          and_then (meta_restore_key env m gen) (\<lambda>key. ret (Some key)))
        else ret None)) ?P (\<lambda>_. ?B) t" if "?B t" for t
    using that bounded_file_ok [OF that]
    by (auto simp: twp set_file_status_def file_ok_def mode_ok_def intro!: twp_conseq [OF meta_restore_key_total [OF assms(1)]])
  have recovery: "twp (remove_recovery_file env) (\<lambda>_. ?B) (\<lambda>_. ?B) t" if "?B t" for t
    using that by (auto simp: remove_recovery_file_def twp host_paths_total intro!: twp_on_host)
  have fin: "pwp ?fin ?P (\<lambda>_. ?B) t" if "?B t" for t
    using that close twp_conseq [OF recovery [OF that]] unfolding pwp_returns twp_and_then twp_gets twp_seq [of "if _ then _ else _"]
    by (auto simp: twp_ret)
  have flush: "pwp (p_seq (if f_status s \<noteq> FS_Ok then file_clear_error env else internal_flush env True) ?fin) ?P (\<lambda>_. ?B) t" if "?B t" for t
    using fin pwp_conseq [OF internal_flush_bounded [OF assms(1) that]] pwp_conseq [OF file_clear_error_bounded [OF assms(1) that]]
    unfolding pwp_seq by auto
  have "twp (if cm = CM_Import then modify (\<lambda>s. s\<lparr>f_need_writing := True\<rparr>) else ret ()) (\<lambda>_. ?B) (\<lambda>_. ?B) s"
    using imp assms(2) by (simp add: twp)
  then have rest: "pwp (p_seq (returns (if cm = CM_Import then modify (\<lambda>s. s\<lparr>f_need_writing := True\<rparr>) else ret ()))
      (p_seq (if f_status s \<noteq> FS_Ok then file_clear_error env else internal_flush env True) ?fin)) ?P (\<lambda>_. ?B) s"
    by (subst pwp_seq, unfold pwp_returns [of "if _ then _ else _"]) (erule twp_conseq, use flush in auto)
  show ?thesis
    unfolding file_close_def
    by (subst pwp_then, unfold pwp_returns twp_gets prod.case, subst pwp_seq, unfold pwp_returns [of "if _ \<in> _ then _ else _"])
       (rule twp_if_ensure, rule rest, rule assms(2))
qed

end
