(* ===== verification/Pfs_Handle.thy ===== *)
theory Pfs_Handle
  imports Pfs_Write
begin

text \<open>
  Opening a protected file gives a well formed one whatever is on the host, and no sequence of calls on the handle, with
  any changes of the host in between, makes a call panic.
\<close>

section \<open>Opening\<close>

lemma fs_key_gen_new_total:
  assumes "env_ok env"
  shows "twp (fs_key_gen_new env mode) (\<lambda>g _. gen_for env mode g) (\<lambda>_ _. True) w"
proof -
  have "twp (master_key_new env) (\<lambda>_ _. True) (\<lambda>_ _. True) w"
    unfolding master_key_new_def twp_and_then by (rule twp_conseq [OF kdf_derive_key_total [OF assms]]) (auto simp: twp)
  then have "twp (fs_key_gen_new env mode) (\<lambda>_ _. True) (\<lambda>_ _. True) w"
    by (cases mode) (auto simp: fs_key_gen_new_def twp elim!: twp_conseq)
  then show ?thesis using fs_key_gen_new_for [of env mode w] by (auto simp: twp_def split: prod.splits res.splits)
qed

text \<open>A root node that can be the root of a file.\<close>

definition root_ok :: "FileNode \<Rightarrow> bool" where
  "root_ok n \<longleftrightarrow> shape n = (NT_Mht, 0, ROOT_MHT_PHY_NUM, None) \<and> content_ok n"

lemma new_root_ok: "root_ok (file_node_new_root flags)"
  using node_of_type_ok [of NT_Mht] by (simp add: root_ok_def shape_def content_ok_def file_node_new_root_def file_node_new_def)

text \<open>What opening has read or made.\<close>

definition opened_ok :: "OpenMode \<Rightarrow> MetadataInfo \<Rightarrow> FileNode \<Rightarrow> bool" where
  "opened_ok mode m root \<longleftrightarrow> meta_ok m \<and> mp_encrypt_flags (mi_plain m) = flags_of_mode mode
     \<and> (case mode_key_policy mode of Some p \<Rightarrow> mp_key_policy (mi_plain m) = p | None \<Rightarrow> True)
     \<and> me_size (mi_encrypted_plain m) < USIZE_LIMIT \<and> root_ok root"

lemma new_file_total:
  assumes "length name \<le> FILENAME_MAX_LEN"
  shows "twp (new_file name mode) (\<lambda>m t. t = s \<and> opened_ok mode m (file_node_new_root flags) \<and> me_size (mi_encrypted_plain m) = 0) (\<lambda>_ _. True) s"
proof -
  have "length (splice 0 (str_bytes name) (replicate FILENAME_MAX_LEN 0)) = FILENAME_MAX_LEN"
    using assms by (intro length_splice [THEN trans]) simp_all
  moreover have "flags_of_mode mode \<noteq> InvalidFlags b" for b by (cases mode) (simp_all add: flags_of_mode_def)
  ultimately show ?thesis using assms new_root_ok [of flags]
    by (auto simp: new_file_def twp Let_def opened_ok_def meta_ok_def metadata_ok_def plain_ok_def update_flag_def set_encrypt_flags_def
        set_key_policy_def upd_plain_def metadata_info_new_def metadata_with_def plain_new_def plain_default_def encrypted_default_def
        SGX_FILE_ID_def USIZE_LIMIT_def upd_encrypted_def split: option.split)
qed

lemma meta_read_total:
  "twp (meta_read_from_disk env f m) (\<lambda>m' _. metadata_ok (mi_metadata m') \<and> mi_encrypted_plain m' = mi_encrypted_plain m) (\<lambda>_ _. True) w"
  unfolding meta_read_from_disk_def twp_and_then
  by (rule twp_conseq [OF host_ops_total(1)]) (auto simp: twp metadata_bytes_of_bytes)

lemma meta_decrypt_total:
  assumes "env_ok env" "metadata_ok (mi_metadata m)" "encrypted_ok (mi_encrypted_plain m)"
  shows "twp (meta_decrypt env m key) (\<lambda>m' t. t = s \<and> mi_metadata m' = mi_metadata m \<and> encrypted_ok (mi_encrypted_plain m')) (\<lambda>_ _. True) s"
proof -
  have "length (encrypted_bytes (mi_encrypted_plain m)) = length (md_ciphertext (mi_metadata m))" "length (md_ciphertext (mi_metadata m)) = METADATA_ENCRYPTED"
    using assms length_encrypted_bytes by (simp_all add: metadata_ok_def)
  then show ?thesis
    using open_bytes_total [OF assms(1), of "encrypted_bytes (mi_encrypted_plain m)" "md_ciphertext (mi_metadata m)" "mp_encrypt_flags (mi_plain m)" key "mp_gmac (mi_plain m)"]
    by (auto simp: meta_decrypt_def twp encrypted_bytes_of_bytes split: res.splits)
qed

lemma encrypted_default_ok: "encrypted_ok encrypted_default"
  by (simp add: encrypted_ok_def encrypted_default_def)

lemma read_root_total:
  assumes "env_ok env" "root_ok root"
  shows "twp (and_then (node_read_from_disk env f root) (\<lambda>root. and_then (node_decrypt env root key mac) (\<lambda>root. ret (root\<lparr>fn_new_node := False\<rparr>))))
    (\<lambda>root _. root_ok root) (\<lambda>_ _. True) w"
proof -
  have dec: "twp (node_decrypt env (root\<lparr>fn_ciphertext := bs\<rparr>) key mac) (\<lambda>root _. root_ok (root\<lparr>fn_new_node := False\<rparr>)) (\<lambda>_ _. True) w"
    if "length bs = NODE_SIZE" for bs w
    by (rule node_decrypt_total [OF assms(1)])
       (use assms(2) that in \<open>auto simp: root_ok_def content_ok_def shape_def node_with_bytes_ok\<close>)
  have "fn_physical_number root \<noteq> 0" using assms(2) by (simp add: root_ok_def shape_def ROOT_MHT_PHY_NUM_def)
  then show ?thesis unfolding node_read_from_disk_def
    by (auto simp: twp intro!: twp_conseq [OF host_ops_total(1)] twp_conseq [OF dec])
qed

lemma meta_file_name_total: "twp (meta_file_name m) (\<lambda>_ t. t = w) (\<lambda>_ _. True) w"
  by (simp add: meta_file_name_def twp Let_def)

lemma open_file_total:
  assumes "env_ok env"
  shows "twp (open_file env f name gen mode) (\<lambda>(m, root) _. opened_ok mode m root) (\<lambda>_ _. True) w"
proof -
  let ?key = "\<lambda>m. case mode_import_key mode of
        Some key \<Rightarrow> (case mode_key_policy mode of Some kp \<Rightarrow> ret (key, set_key_policy kp m) | None \<Rightarrow> panic)
      | None \<Rightarrow> and_then (meta_restore_key env m gen) (\<lambda>key. ret (key, m))"
  let ?ok = "\<lambda>m. metadata_ok (mi_metadata m) \<and> \<not> update_flag m \<and> mp_encrypt_flags (mi_plain m) = flags_of_mode mode
      \<and> (case mode_key_policy mode of Some p \<Rightarrow> mp_key_policy (mi_plain m) = p | None \<Rightarrow> True) \<and> encrypted_ok (mi_encrypted_plain m)"
  have key: "twp (?key m) (\<lambda>(key, m) _. ?ok m) (\<lambda>_ _. True) w"
    if "metadata_ok (mi_metadata m)" "\<not> update_flag m" "mp_encrypt_flags (mi_plain m) = flags_of_mode mode" "encrypted_ok (mi_encrypted_plain m)"
      "mode_is_auto_key mode \<Longrightarrow> mode_key_policy mode = Some (mp_key_policy (mi_plain m))" for m w
  proof -
    have "twp (and_then (meta_restore_key env m gen) (\<lambda>key. ret (key, m))) (\<lambda>(_, m') _. m' = m) (\<lambda>_ _. True) w"
      unfolding twp_and_then by (rule twp_conseq [OF meta_restore_key_total [OF assms that(3)]]) (auto simp: twp)
    then show ?thesis using that
      by (cases mode) (auto simp: mode_import_key_def mode_key_policy_def mode_is_auto_key_def twp_ret set_key_policy_def upd_plain_def
          metadata_ok_def plain_ok_def update_flag_def elim!: twp_conseq)
  qed
  have rest: "twp (and_then (meta_decrypt env m key) (\<lambda>m.
     and_then (meta_file_name m) (\<lambda>name'.
     seq (ensure (name' = str_bytes name) (SgxError Sgx_NameMismatch))
     (let root = file_node_new_root (flags_of_mode mode); e = mi_encrypted_plain m in
      and_then (if me_size e > MD_USER_DATA_SIZE then
                  and_then (node_read_from_disk env f root) (\<lambda>root.
                  and_then (node_decrypt env root (me_mht_key e) (me_mht_gmac e)) (\<lambda>root.
                    ret (root\<lparr>fn_new_node := False\<rparr>)))
                else ret root) (\<lambda>root.
        ret (m, root)))))) (\<lambda>(m, root) _. opened_ok mode m root) (\<lambda>_ _. True) w" if m: "?ok m" for m key w
  proof -
    have root: "twp (and_then (if me_size (mi_encrypted_plain m') > MD_USER_DATA_SIZE then
                  and_then (node_read_from_disk env f root) (\<lambda>root.
                  and_then (node_decrypt env root (me_mht_key (mi_encrypted_plain m')) (me_mht_gmac (mi_encrypted_plain m'))) (\<lambda>root.
                    ret (root\<lparr>fn_new_node := False\<rparr>)))
                else ret root) (\<lambda>root. ret (m', root))) (\<lambda>(m, root) _. opened_ok mode m root) (\<lambda>_ _. True) w"
      if "root_ok root" "mi_metadata m' = mi_metadata m" "encrypted_ok (mi_encrypted_plain m')" for m' root w
    proof -
      have "opened_ok mode m' root'" if "root_ok root'" for root'
        using that \<open>mi_metadata m' = mi_metadata m\<close> \<open>encrypted_ok (mi_encrypted_plain m')\<close> m
        by (simp add: opened_ok_def meta_ok_def encrypted_ok_def update_flag_def USIZE_LIMIT_def split: option.splits)
      then show ?thesis using that(1) twp_conseq [OF read_root_total [OF assms that(1)]]
        by (subst twp_and_then) (simp add: twp_ret)
    qed
    have "twp (and_then (meta_file_name m') (\<lambda>name'.
     seq (ensure (name' = str_bytes name) (SgxError Sgx_NameMismatch))
     (let root = file_node_new_root (flags_of_mode mode); e = mi_encrypted_plain m' in
      and_then (if me_size e > MD_USER_DATA_SIZE then
                  and_then (node_read_from_disk env f root) (\<lambda>root.
                  and_then (node_decrypt env root (me_mht_key e) (me_mht_gmac e)) (\<lambda>root.
                    ret (root\<lparr>fn_new_node := False\<rparr>)))
                else ret root) (\<lambda>root. ret (m', root))))) (\<lambda>(m, root) _. opened_ok mode m root) (\<lambda>_ _. True) w"
      if "mi_metadata m' = mi_metadata m" "encrypted_ok (mi_encrypted_plain m')" for m' w
      using root [OF new_root_ok that]
      by (subst twp_and_then, intro twp_conseq [OF meta_file_name_total]) (simp_all only: Let_def twp_seq twp_ensure split: if_split, simp)
    then show ?thesis
      by (subst twp_and_then, intro twp_conseq [OF meta_decrypt_total [OF assms]]) (use m in auto)
  qed
  have checked: "twp (and_then (?key m) (\<lambda>(key, m). and_then (meta_decrypt env m key) (\<lambda>m.
     and_then (meta_file_name m) (\<lambda>name'.
     seq (ensure (name' = str_bytes name) (SgxError Sgx_NameMismatch))
     (let root = file_node_new_root (flags_of_mode mode); e = mi_encrypted_plain m in
      and_then (if me_size e > MD_USER_DATA_SIZE then
                  and_then (node_read_from_disk env f root) (\<lambda>root.
                  and_then (node_decrypt env root (me_mht_key e) (me_mht_gmac e)) (\<lambda>root.
                    ret (root\<lparr>fn_new_node := False\<rparr>)))
                else ret root) (\<lambda>root.
        ret (m, root))))))) (\<lambda>(m, root) _. opened_ok mode m root) (\<lambda>_ _. True) w"
    if "metadata_ok (mi_metadata m)" "\<not> update_flag m" "mp_encrypt_flags (mi_plain m) = flags_of_mode mode" "encrypted_ok (mi_encrypted_plain m)"
      "mode_is_auto_key mode \<Longrightarrow> mode_key_policy mode = Some (mp_key_policy (mi_plain m))" for m w
    by (subst twp_and_then, rule twp_conseq [OF key [OF that]]) (use rest in auto)
  show ?thesis
    unfolding open_file_def Let_def [of "mi_plain _"] Let_def [of "flags_of_mode mode"]
  proof (subst twp_and_then, rule twp_conseq [OF meta_read_total], goal_cases)
    case (1 m w)
    then have m: "metadata_ok (mi_metadata m)" "encrypted_ok (mi_encrypted_plain m)"
      by (simp_all add: metadata_info_default_def encrypted_default_ok)
    show ?case
      by (simp only: twp_seq twp_ensure twp_if twp_ret split: if_split)
         (intro conjI impI TrueI; rule checked; use m in simp)
  qed simp
qed

lemma closing_total:
  assumes "twp m P (\<lambda>_ _. True) w"
  shows "twp (closing_on_err env f m) P (\<lambda>_ _. True) w"
  unfolding closing_on_err_def twp_on_err
  by (rule twp_conseq [OF assms]) (auto simp: twp intro!: twp_conseq [OF host_ops_total(4)])

lemma recover_total:
  "twp (recover_and_reopen_file env f p q opts) (\<lambda>_ _. True) (\<lambda>_ _. True) w"
  unfolding recover_and_reopen_file_def
  by (auto simp: twp intro!: twp_conseq [OF host_ops_total(4)] twp_conseq [OF host_paths_total(5)] twp_conseq [OF host_paths_total(1)])

lemma open_existing_total:
  assumes "env_ok env"
  shows "twp (open_existing env f p name q opts gen mode) (\<lambda>(_, m, root) _. opened_ok mode m root) (\<lambda>_ _. True) w"
proof -
  have first: "twp (closing_on_err env f (seq (ensure (\<not> oo_write opts) (OsError EACCES))
       (and_then (attempt (open_file env f name gen mode)) (\<lambda>r. case r of
          Inr mr \<Rightarrow> ret (Some mr)
        | Inl e \<Rightarrow> if equal_to_sgx_error e Sgx_RecoveryNeeded then ret None else bail e))))
      (\<lambda>r _. case r of Some (m, root) \<Rightarrow> opened_ok mode m root | None \<Rightarrow> True) (\<lambda>_ _. True) w"
    by (rule closing_total) (auto simp: twp intro!: twp_conseq [OF open_file_total [OF assms]])
  have again: "twp (closing_on_err env f' (open_file env f' name gen mode)) (\<lambda>(m, root) _. opened_ok mode m root) (\<lambda>_ _. True) w" for f' w
    by (rule closing_total [OF open_file_total [OF assms]])
  show ?thesis
    unfolding open_existing_def
    by (subst twp_and_then, rule twp_conseq [OF first])
       (auto simp: twp split: option.splits intro!: twp_conseq [OF recover_total] twp_conseq [OF again])
qed

lemma opened_bounded:
  assumes "opened_ok mode m root" "gen_for env mode gen" "off \<le> me_size (mi_encrypted_plain m)"
  shows "bounded env mode True \<lparr>ns_nodes = [root], ns_world = w, f_host_file = f, f_metadata = m, f_root_mht = 0, f_key_gen = gen,
          f_opts = opts, f_need_writing = nw, f_end_of_file = eof, f_max_cache_page = c,
          f_offset = off, f_last_error = e, f_status = st, f_recovery_path = q, f_cache = cache_new c\<rparr>"
proof -
  have "shapes_ok [shape root] 0" using assms(1)
    by (simp add: opened_ok_def root_ok_def shapes_ok_def shape_ok_def mht_physical_def ROOT_MHT_PHY_NUM_def)
  moreover have "cache_ok (cache_new c) [shape root] 0" using cache_new_ok [of c, where 'v = node_ref] by (simp add: cache_ok_def)
  moreover have "mode_ok env mode gen m" using assms(1,2) by (simp add: opened_ok_def mode_ok_def)
  moreover have "me_size (mi_encrypted_plain m) < USIZE_LIMIT" using assms(1) by (auto simp: opened_ok_def)
  ultimately show ?thesis using assms(1,3) cache_new_ok [of c, where 'v = node_ref]
    by (simp add: bounded_def safe_def file_ok_def dirty_ok_def dirty_def cached_def opened_ok_def root_ok_def)
qed

definition fresh :: "'w fs_env \<Rightarrow> OpenMode \<Rightarrow> OpenOptions \<Rightarrow> 'w FileInner \<Rightarrow> bool" where
  "fresh env mode opts s \<longleftrightarrow> bounded env mode True s \<and> f_status s = FS_Ok \<and> f_opts s = opts
     \<and> entries (f_cache s) = [] \<and> DEFAULT_CACHE_SIZE \<le> f_max_cache_page s * SE_PAGE_SIZE"

lemma file_open_total:
  assumes "env_ok env"
  shows "twp (file_open env path opts mode cache_size) (\<lambda>s _. fresh env mode opts s) (\<lambda>_ _. True) w"
proof -
  have exist: "twp (check_file_exist env opts mode path) (\<lambda>_ _. True) (\<lambda>_ _. True) w" for w
    unfolding check_file_exist_def
    by (auto simp: twp intro!: twp_conseq [OF host_paths_total(3)] twp_conseq [OF host_paths_total(4)])
  have param: "twp (check_open_param path name opts mode) (\<lambda>_ t. t = w \<and> length name \<le> FILENAME_MAX_LEN) (\<lambda>_ _. True) w" for name w
    by (auto simp: check_open_param_def opts_check_def mode_check_def twp split: option.splits bool.splits)
  have size: "twp (check_cache_size cache_size) (\<lambda>c t. t = w \<and> DEFAULT_CACHE_SIZE \<le> c * SE_PAGE_SIZE) (\<lambda>_ _. True) w" for w
    by (auto simp: check_cache_size_def twp Let_def is_page_aligned_iff SE_PAGE_SIZE_def split: option.splits)
  have start: "twp (if hf_size f > 0 then
                 and_then (open_existing env f path name q opts gen mode) (\<lambda>(f, m, root).
                   ret (f, m, root, False, if oo_append opts \<and> \<not> oo_update opts then me_size (mi_encrypted_plain m) else 0))
               else and_then (new_file name mode) (\<lambda>m. ret (f, m, file_node_new_root (flags_of_mode mode), True, 0)))
      (\<lambda>(f, m, root, nw, off) _. opened_ok mode m root \<and> off \<le> me_size (mi_encrypted_plain m)) (\<lambda>_ _. True) w"
    if "length name \<le> FILENAME_MAX_LEN" for f name q gen w
    by (auto simp: twp intro!: twp_conseq [OF open_existing_total [OF assms]] twp_conseq [OF new_file_total [OF that]])
  have build: "twp (and_then (if hf_size f > 0 then
                 and_then (open_existing env f path name q opts gen mode) (\<lambda>(f, m, root).
                   ret (f, m, root, False, if oo_append opts \<and> \<not> oo_update opts then me_size (mi_encrypted_plain m) else 0))
               else and_then (new_file name mode) (\<lambda>m. ret (f, m, file_node_new_root (flags_of_mode mode), True, 0)))
      (\<lambda>(f, m, root, need_writing, offset).
     and_then (gets (\<lambda>w. w)) (\<lambda>w.
     ret \<lparr>ns_nodes = [root], ns_world = w, f_host_file = f, f_metadata = m, f_root_mht = 0, f_key_gen = gen,
          f_opts = opts, f_need_writing = need_writing, f_end_of_file = False, f_max_cache_page = c,
          f_offset = offset, f_last_error = SgxError Sgx_Success, f_status = FS_Ok, f_recovery_path = q,
          f_cache = cache_new c\<rparr>))) (\<lambda>s _. fresh env mode opts s) (\<lambda>_ _. True) w"
    if "length name \<le> FILENAME_MAX_LEN" "gen_for env mode gen" "DEFAULT_CACHE_SIZE \<le> c * SE_PAGE_SIZE" for f name q gen c w
    by (subst twp_and_then, rule twp_conseq [OF start [OF that(1)]])
       (use that opened_bounded cache_new_ok [of c, where 'v = node_ref] in \<open>auto simp: twp_and_then twp_gets twp_ret fresh_def\<close>)
  show ?thesis
    unfolding file_open_def Let_def twp_and_then [of "check_cache_size _"] twp_and_then [of "ok_or _ _"] twp_ok_or
      twp_seq twp_and_then [of "fs_key_gen_new _ _"] twp_and_then [of "host_file_open _ _ _"]
    by (rule twp_conseq [OF size], split option.split)
       (auto intro!: twp_conseq [OF param] twp_conseq [OF fs_key_gen_new_total [OF assms]] twp_conseq [OF exist] twp_conseq [OF host_paths_total(1)] build)
qed

section \<open>Calls on a handle\<close>

datatype pf_call =
    Op_Read usize usize
  | Op_ReadAt usize usize nat
  | Op_Write usize "byte list"
  | Op_WriteAt usize "byte list" nat
  | Op_Tell
  | Op_Seek SeekFrom
  | Op_SetLen nat
  | Op_Flush
  | Op_ClearCache
  | Op_ClearError
  | Op_MetadataMac
  | Op_Rename string string
  | Op_Close

primrec pf_exec :: "'w fs_env \<Rightarrow> pf_call \<Rightarrow> ('w ProtectedFile, FsError, unit) prog" where
  "pf_exec env (Op_Read buf len) = p_then (pf_read env buf len) (\<lambda>_. returns (ret ()))"
| "pf_exec env (Op_ReadAt buf len off) = p_then (pf_read_at env buf len off) (\<lambda>_. returns (ret ()))"
| "pf_exec env (Op_Write buf bytes) = p_then (pf_write env buf bytes) (\<lambda>_. returns (ret ()))"
| "pf_exec env (Op_WriteAt buf bytes off) = p_then (pf_write_at env buf bytes off) (\<lambda>_. returns (ret ()))"
| "pf_exec env Op_Tell = p_then pf_tell (\<lambda>_. returns (ret ()))"
| "pf_exec env (Op_Seek pos) = p_then (pf_seek pos) (\<lambda>_. returns (ret ()))"
| "pf_exec env (Op_SetLen n) = pf_set_len env n"
| "pf_exec env Op_Flush = pf_flush env"
| "pf_exec env Op_ClearCache = pf_clear_cache env"
| "pf_exec env Op_ClearError = pf_clear_error env"
| "pf_exec env Op_MetadataMac = p_then (pf_get_metadata_mac env) (\<lambda>_. returns (ret ()))"
| "pf_exec env (Op_Rename old_name new_name) = pf_rename old_name new_name"
| "pf_exec env Op_Close = pf_close env"

text \<open>A length is a \<open>u64\<close>.\<close>

definition call_ok :: "pf_call \<Rightarrow> bool" where
  "call_ok c = (case c of Op_SetLen n \<Rightarrow> n < USIZE_LIMIT | _ \<Rightarrow> True)"

text \<open>The calls that are known to return: all but those that fill a file with zeros.\<close>

primrec ends :: "nat \<Rightarrow> pf_call \<Rightarrow> bool" where
  "ends sz (Op_Read buf len) \<longleftrightarrow> True"
| "ends sz (Op_ReadAt buf len off) \<longleftrightarrow> True"
| "ends sz (Op_Write buf bytes) \<longleftrightarrow> True"
| "ends sz (Op_WriteAt buf bytes off) \<longleftrightarrow> off \<le> sz"
| "ends sz Op_Tell \<longleftrightarrow> True"
| "ends sz (Op_Seek pos) \<longleftrightarrow> True"
| "ends sz (Op_SetLen n) \<longleftrightarrow> False"
| "ends sz Op_Flush \<longleftrightarrow> True"
| "ends sz Op_ClearCache \<longleftrightarrow> True"
| "ends sz Op_ClearError \<longleftrightarrow> True"
| "ends sz Op_MetadataMac \<longleftrightarrow> True"
| "ends sz (Op_Rename old_name new_name) \<longleftrightarrow> True"
| "ends sz Op_Close \<longleftrightarrow> True"

definition sets_len :: "pf_call \<Rightarrow> bool" where
  "sets_len c = (case c of Op_SetLen _ \<Rightarrow> True | _ \<Rightarrow> False)"

definition handle_ok :: "'w fs_env \<Rightarrow> OpenMode \<Rightarrow> bool \<Rightarrow> 'w ProtectedFile \<Rightarrow> bool" where
  "handle_ok env mode D h \<longleftrightarrow> \<not> pf_poisoned h \<and> bounded env mode D (pf_file h)"

lemma gwp_locked:
  assumes "\<not> pf_poisoned h" "gwp T m (\<lambda>a s. P a (h\<lparr>pf_file := s\<rparr>)) (\<lambda>e s. Q e (h\<lparr>pf_file := s\<rparr>)) (pf_file h)"
  shows "gwp T (locked m) P Q h"
  using assms by (auto simp: gwp_def locked_def split: option.splits prod.splits res.splits)

lemma locked_handle:
  assumes "handle_ok env mode D h" "gwp T m (\<lambda>_. bounded env mode D') (\<lambda>_. bounded env mode D') (pf_file h)"
  shows "gwp T (locked (with_error m)) (\<lambda>_. handle_ok env mode D') (\<lambda>_. handle_ok env mode D') h"
proof (rule gwp_locked)
  show "gwp T (with_error m) (\<lambda>_ s. handle_ok env mode D' (h\<lparr>pf_file := s\<rparr>)) (\<lambda>_ s. handle_ok env mode D' (h\<lparr>pf_file := s\<rparr>)) (pf_file h)"
    unfolding with_error_def gwp_on_err using assms(1)
    by (intro gwp_conseq [OF assms(2)]) (auto simp: twp set_last_error_def handle_ok_def)
qed (use assms(1) in \<open>simp add: handle_ok_def\<close>)

lemma gwp_drop: "gwp T m (\<lambda>_. H) (\<lambda>_. H) h \<Longrightarrow> gwp T (p_then m (\<lambda>_. returns (ret ()))) (\<lambda>_. H) (\<lambda>_. H) h"
  unfolding gwp_then by (erule gwp_conseq) (simp_all add: gwp twp)

lemma read_bounded:
  assumes "env_ok env" "bounded env mode D s"
  shows "gwp D (file_read env buf len) (\<lambda>_. bounded env mode D) (\<lambda>_. bounded env mode D) s"
    "gwp D (file_read_at env buf len off) (\<lambda>_. bounded env mode D) (\<lambda>_. bounded env mode D) s"
proof -
  have s: "safe env mode D s" "f_size s < USIZE_LIMIT" using assms(2) by (auto simp: bounded_def)
  show "gwp D (file_read env buf len) (\<lambda>_. bounded env mode D) (\<lambda>_. bounded env mode D) s"
    by (rule gwp_conseq [OF file_read_safe [OF assms(1) s]]) (use assms(2) in \<open>auto simp: bounded_def\<close>)
  show "gwp D (file_read_at env buf len off) (\<lambda>_. bounded env mode D) (\<lambda>_. bounded env mode D) s"
    by (rule gwp_conseq [OF file_read_at_safe [OF assms(1) s]]) (use assms(2) in \<open>auto simp: bounded_def\<close>)
qed

lemma pwp_gwp_same: "pwp m P Q s \<Longrightarrow> (\<And>a t. P a t \<Longrightarrow> H t) \<Longrightarrow> (\<And>e t. Q e t \<Longrightarrow> H t) \<Longrightarrow> gwp T m (\<lambda>_. H) (\<lambda>_. H) s"
  by (rule pwp_gwp)

lemma pf_exec_handle:
  assumes "env_ok env" "handle_ok env mode D h" "call_ok c"
  shows "gwp (D \<and> ends (f_size (pf_file h)) c) (pf_exec env c) (\<lambda>_. handle_ok env mode (D \<and> \<not> sets_len c))
    (\<lambda>_. handle_ok env mode (D \<and> \<not> sets_len c)) h"
proof -
  have s: "bounded env mode D (pf_file h)" using assms(2) by (simp add: handle_ok_def)
  note locked = locked_handle [OF assms(2)]
  show ?thesis
  proof (cases c)
    case (Op_Read buf len)
    then show ?thesis using assms(3) by (auto simp: sets_len_def pf_read_def intro!: gwp_drop locked read_bounded [OF assms(1) s])
  next
    case (Op_ReadAt buf len off)
    then show ?thesis using assms(3) by (auto simp: sets_len_def pf_read_at_def intro!: gwp_drop locked read_bounded [OF assms(1) s])
  next
    case (Op_Write buf bytes)
    then show ?thesis
      by (auto simp: sets_len_def pf_write_def intro!: gwp_drop locked gwp_conseq [OF file_write_bounded [OF assms(1) s]] s)
  next
    case (Op_WriteAt buf bytes off)
    then show ?thesis
      by (auto simp: sets_len_def pf_write_at_def intro!: gwp_drop locked file_write_at_bounded [OF assms(1) s])
  next
    case Op_Tell
    then show ?thesis using s by (auto simp: sets_len_def pf_tell_def file_tell_def gwp_returns twp intro!: gwp_drop locked)
  next
    case (Op_Seek pos)
    then show ?thesis using s
      by (auto simp: sets_len_def pf_seek_def gwp_returns intro!: gwp_drop locked twp_conseq [OF file_seek_bounded [OF s]])
  next
    case (Op_SetLen n)
    then show ?thesis using assms(3)
      by (auto simp: sets_len_def call_ok_def pf_set_len_def intro!: locked gwp_conseq [OF file_set_len_bounded [OF assms(1) s]])
  next
    case Op_Flush
    then show ?thesis by (auto simp: sets_len_def pf_flush_def intro!: locked pwp_gwp_same [OF file_flush_bounded [OF assms(1) s]])
  next
    case Op_ClearCache
    then show ?thesis by (auto simp: sets_len_def pf_clear_cache_def intro!: locked pwp_gwp_same [OF file_clear_cache_bounded [OF assms(1) s]])
  next
    case Op_ClearError
    then show ?thesis by (auto simp: sets_len_def pf_clear_error_def intro!: locked pwp_gwp_same [OF file_clear_error_bounded [OF assms(1) s]])
  next
    case Op_MetadataMac
    then show ?thesis
      by (auto simp: sets_len_def pf_get_metadata_mac_def intro!: gwp_drop locked pwp_gwp_same [OF file_get_metadata_mac_bounded [OF assms(1) s]])
  next
    case (Op_Rename x y)
    then show ?thesis using s
      by (auto simp: sets_len_def pf_rename_def gwp_returns intro!: locked twp_conseq [OF file_rename_bounded [OF s]])
  next
    case Op_Close
    have "gwp T (p_then (file_close env CM_Normal) (\<lambda>_. returns (ret ()))) (\<lambda>_ t. handle_ok env mode D (h\<lparr>pf_file := t\<rparr>)) (\<lambda>_ t. handle_ok env mode D (h\<lparr>pf_file := t\<rparr>)) (pf_file h)" for T
      using assms(2) by (intro gwp_drop pwp_gwp_same [OF file_close_bounded [OF assms(1) s]]) (auto simp: handle_ok_def)
    then show ?thesis using assms(2) Op_Close by (auto simp: sets_len_def pf_close_def handle_ok_def intro!: gwp_locked)
  qed
qed

text \<open>What can happen to a handle: it is opened, it is called, and the host does as it likes.\<close>

inductive pf_reachable :: "'w fs_env \<Rightarrow> OpenMode \<Rightarrow> bool \<Rightarrow> 'w ProtectedFile \<Rightarrow> bool" for env mode D where
  opened: "pf_open env path opts mode cache_size w = (Ok h, w') \<Longrightarrow> pf_reachable env mode D h"
| called: "pf_reachable env mode D h \<Longrightarrow> call_ok c \<Longrightarrow> (D \<Longrightarrow> \<not> sets_len c)
    \<Longrightarrow> pf_exec env c h = Some (r, h') \<Longrightarrow> pf_reachable env mode D h'"
| host: "pf_reachable env mode D h \<Longrightarrow> pf_reachable env mode D (h\<lparr>pf_file := (pf_file h)\<lparr>ns_world := w\<rparr>\<rparr>)"

lemma reachable_ok:
  assumes "pf_reachable env mode D h" "env_ok env"
  shows "handle_ok env mode D h"
  using assms(1)
proof induction
  case (opened path opts cache_size w h w')
  have "twp (pf_open env path opts mode cache_size) (\<lambda>h _. handle_ok env mode True h) (\<lambda>_ _. True) w"
    unfolding pf_open_def twp_and_then by (rule twp_conseq [OF file_open_total [OF assms(2)]]) (auto simp: twp handle_ok_def fresh_def)
  then show ?case using opened by (simp add: twp_def handle_ok_def bounded_def safe_def)
next
  case (called h c r h')
  note ex = pf_exec_handle [OF assms(2) called.IH called.hyps(2)]
  show ?case using gwp_Some [OF ex called.hyps(4)] called.hyps(3) by (cases D; cases r) (auto simp: handle_ok_def bounded_def safe_def)
next
  case (host h w)
  then show ?case by (simp add: handle_ok_def)
qed

end
