(* ===== verification/Pfs_Contents.thy ===== *)
theory Pfs_Contents
  imports Pfs_Handle
begin

text \<open>
  The contents of a protected file: what is known of it in the enclave is what a read returns, and a read gives back what
  a write has put.
\<close>

section \<open>Reading what is cached\<close>

lemma shrink_cache_idle: "cache_len (f_cache s) \<le> f_max_cache_page s \<Longrightarrow> shrink_cache env s = Some (Ok (), s)"
  by (simp add: shrink_cache_turn returns_def ret_def)

lemma get_data_node_cached:
  assumes "file_ok env mode s" "MD_USER_DATA_SIZE \<le> f_offset s" "f_offset s < f_size s"
    and r: "cache_find (data_physical (data_logic (f_offset s))) (f_cache s) = Some r"
    and "cache_len (f_cache s) \<le> f_max_cache_page s"
  shows "pwp (get_data_node env) (\<lambda>r' t. r' = r \<and> reordered s t) (\<lambda>_ _. False) s"
proof -
  have "pwp (p_seq (shrink_cache env) (returns (ret r))) (\<lambda>r' t. r' = r \<and> reordered s t) (\<lambda>_ _. False) t" if "reordered s t" for t
  proof -
    have "cache_len (f_cache t) \<le> f_max_cache_page t" using that assms(5) by (auto simp: reordered_def)
    from shrink_cache_idle [OF this] show ?thesis using that by (simp add: pwp_def prog_defs ret_def)
  qed
  then have "pwp (p_seq (bump_mht_node r) (p_seq (shrink_cache env) (returns (ret r)))) (\<lambda>r' t. r' = r \<and> reordered s t) (\<lambda>_ _. False) s"
    unfolding pwp_seq [of "bump_mht_node r"]
    by (intro pwp_conseq [OF bump_mht_node_reorders [OF assms(1) cached_data [OF assms(1) r]]]) auto
  then show ?thesis using assms(2,3)
    by (simp add: get_data_node_def pwp_then [of "returns _"] pwp_seq [of "returns _"] pwp_returns twp read_data_node_def
        numbers_of_offset(2) r)
qed

lemma cache_offset: "s\<lparr>f_cache := c, f_offset := off\<rparr> = s\<lparr>f_offset := off, f_cache := c\<rparr>"
  by (rule FileInner.equality) simp_all

lemma reordered_offset:
  assumes "reordered s t"
  shows "reordered (s\<lparr>f_offset := off\<rparr>) (t\<lparr>f_offset := off\<rparr>)"
proof -
  obtain c where "t = s\<lparr>f_cache := c\<rparr>" "lru_ok c" "set (entries c) = set (entries (f_cache s))" "cache_len c = cache_len (f_cache s)"
    "\<forall>k. cache_find k c = cache_find k (f_cache s)" using assms by (auto simp: reordered_def)
  then show ?thesis unfolding reordered_def by (intro exI [of _ c]) (simp add: cache_offset)
qed

lemma reordered_trans: "reordered s t \<Longrightarrow> reordered t u \<Longrightarrow> reordered s u"
  by (auto simp: reordered_def)

lemma reordered_byte: "reordered s t \<Longrightarrow> byte_at t = byte_at s"
  by (auto simp: reordered_def byte_at_def byte_in_def fun_eq_iff)

lemma byte_at_offset [simp]: "byte_at (s\<lparr>f_offset := off\<rparr>) = byte_at s"
  by (simp add: byte_at_def byte_in_def fun_eq_iff)

text \<open>The bytes are known from a position on.\<close>

definition known :: "'w FileInner \<Rightarrow> usize \<Rightarrow> nat \<Rightarrow> bool" where
  "known s off n \<longleftrightarrow> list_all (\<lambda>i. byte_at s (off + i) \<noteq> None) [0..<n]"

definition known_bytes :: "'w FileInner \<Rightarrow> usize \<Rightarrow> nat \<Rightarrow> byte list" where
  "known_bytes s off n = map (\<lambda>i. the (byte_at s (off + i))) [0..<n]"

lemma known_bytes_add: "known_bytes s off (m + n) = known_bytes s off m @ known_bytes s (off + m) n"
proof -
  have "map (\<lambda>i. the (byte_at s (off + i))) [m..<m + n] = map (\<lambda>i. the (byte_at s (off + m + i))) [0..<n]"
    by (rule nth_equalityI) (simp_all add: add.assoc)
  then show ?thesis by (simp add: known_bytes_def upt_add_eq_append [OF le0])
qed

lemma node_known_bytes:
  assumes "MD_USER_DATA_SIZE \<le> off" "in_node off + len \<le> NODE_SIZE" "file_ok env mode s"
    and r: "cache_find (data_physical (data_logic off)) (f_cache s) = Some r"
  shows "take len (drop (in_node off) (node_bytes (fn_plaintext (ns_nodes s ! r)))) = known_bytes s off len"
proof -
  obtain bs where bs: "fn_plaintext (ns_nodes s ! r) = Data bs" "length bs = NODE_SIZE"
    using data_bytes [OF assms(3) data_at_ref [OF cached_data [OF assms(3) r]]] by blast
  show ?thesis
  proof (rule nth_equalityI)
    fix i assume "i < length (take len (drop (in_node off) (node_bytes (fn_plaintext (ns_nodes s ! r)))))"
    then have i: "i < len" by simp
    note same = same_node [OF assms(1,2) i]
    show "take len (drop (in_node off) (node_bytes (fn_plaintext (ns_nodes s ! r)))) ! i = known_bytes s off len ! i"
      using i assms(1,2) bs by (simp add: known_bytes_def byte_at_def same r byte_in_def node_bytes_def)
  qed (use bs assms(2) in \<open>simp add: node_bytes_def known_bytes_def\<close>)
qed

lemma read_loop_known:
  assumes "file_ok env mode s" "MD_USER_DATA_SIZE \<le> f_offset s" "f_offset s + n \<le> f_size s"
    and "cache_len (f_cache s) \<le> f_max_cache_page s" "known s (f_offset s) n" "f_size s < USIZE_LIMIT"
  shows "pwp (read_loop env n) (\<lambda>bs t. bs = known_bytes s (f_offset s) n \<and> reordered (s\<lparr>f_offset := f_offset s + n\<rparr>) t) (\<lambda>_ _. False) s"
  using assms
proof (induction n arbitrary: s rule: less_induct)
  case (less n)
  show ?case
  proof (cases "n = 0")
    case True
    then show ?thesis using reordered_refl [OF less.prems(1)] by (subst read_loop.simps) (simp add: pwp twp known_bytes_def)
  next
    case False
    let ?off = "f_offset s"
    have first: "byte_at s ?off \<noteq> None" using less.prems(5) False by (auto simp: known_def list_all_iff dest!: bspec [of _ _ 0])
    then obtain r where r: "cache_find (data_physical (data_logic ?off)) (f_cache s) = Some r"
      using less.prems(2) by (auto simp: byte_at_def)
    define len where "len = min n (NODE_SIZE - in_node ?off)"
    have len: "in_node ?off + len \<le> NODE_SIZE" "0 < len" "len \<le> n" using node_place(2) [OF less.prems(2)] False by (auto simp: len_def)
    have lt: "?off < f_size s" using less.prems(3) False by simp
    have turn: "pwp (p_then (returns (gets f_offset)) (\<lambda>offset.
          p_then (returns (node_at r)) (\<lambda>node.
          let offset_in_node = (offset - MD_USER_DATA_SIZE) mod NODE_SIZE;
              len = min n (NODE_SIZE - offset_in_node) in
          p_seq (returns (set_offset (wrapping_add offset len)))
         (p_then (read_loop env (n - len)) (\<lambda>rest.
          returns (ret (take len (drop offset_in_node (node_bytes (fn_plaintext node))) @ rest)))))))
        (\<lambda>bs t. bs = known_bytes s ?off n \<and> reordered (s\<lparr>f_offset := ?off + n\<rparr>) t) (\<lambda>_ _. False) t"
      if t: "reordered s t" for t
    proof -
      let ?u = "t\<lparr>f_offset := ?off + len\<rparr>"
      have pos: "f_offset t = ?off" "f_size t = f_size s" "ns_nodes t = ns_nodes s" using t by (auto simp: reordered_def)
      have ok: "file_ok env mode t" using reordered_got [OF less.prems(1) t] by (simp add: got_def)
      then have "file_ok env mode ?u" using less.prems(3) len(3) pos by (intro file_ok_position) auto
      moreover have "known ?u (?off + len) (n - len)"
        using less.prems(5) len by (auto simp: known_def list_all_iff reordered_byte [OF t] add.assoc)
      moreover have "cache_len (f_cache ?u) \<le> f_max_cache_page ?u" using t less.prems(4) by (auto simp: reordered_def)
      ultimately have "pwp (read_loop env (n - len)) (\<lambda>bs v. bs = known_bytes ?u (?off + len) (n - len)
          \<and> reordered (?u\<lparr>f_offset := ?off + len + (n - len)\<rparr>) v) (\<lambda>_ _. False) ?u"
        using less.IH [of "n - len" ?u] len less.prems(2,3,6) pos by simp
      moreover have "known_bytes ?u = known_bytes s" by (simp add: known_bytes_def fun_eq_iff reordered_byte [OF t])
      moreover have "known_bytes s ?off len @ known_bytes s (?off + len) (n - len) = known_bytes s ?off n"
        using known_bytes_add [of s ?off len "n - len"] len by simp
      moreover have "r < length (ns_nodes s)" using cached_node(1) [OF less.prems(1) r] .
      moreover have "wrapping_add ?off len = ?off + len" using less.prems(3,6) len(3) by (intro wrapping_add_small) simp
      ultimately show ?thesis
        using node_known_bytes [OF less.prems(2) len(1) less.prems(1) r] len reordered_trans [OF reordered_offset [OF t, of "?off + n"]]
        by (simp add: pwp twp set_offset_def Let_def pos flip: in_node_def len_def) (erule pwp_conseq; simp add: pwp twp)
    qed
    show ?thesis
      unfolding read_loop.simps [of env n] if_not_P [OF False] pwp_then [of "p_attempt _"] pwp_attempt
      by (rule pwp_conseq [OF get_data_node_cached [OF less.prems(1,2) lt r less.prems(4)]]) (use turn in auto)
  qed
qed

lemma meta_known_bytes:
  assumes "file_ok env mode s" "off + k \<le> MD_USER_DATA_SIZE"
  shows "take k (drop off (me_data (mi_encrypted_plain (f_metadata s)))) = known_bytes s off k"
proof -
  have "length (me_data (mi_encrypted_plain (f_metadata s))) = MD_USER_DATA_SIZE" using assms(1) by (simp add: file_ok_def meta_ok_def)
  then show ?thesis using assms(2) by (intro nth_equalityI) (auto simp: known_bytes_def byte_at_def)
qed

definition readable :: "'w fs_env \<Rightarrow> usize \<Rightarrow> usize \<Rightarrow> 'w FileInner \<Rightarrow> bool" where
  "readable env buf len s \<longleftrightarrow> is_within_enclave (env_platform env) buf len \<and> f_status s = FS_Ok
     \<and> (oo_read (f_opts s) \<or> oo_update (f_opts s)) \<and> \<not> f_end_of_file s \<and> f_size s < USIZE_LIMIT
     \<and> cache_len (f_cache s) \<le> f_max_cache_page s"

lemma file_read_known:
  assumes "file_ok env mode s" "readable env buf len s" "0 < len" "f_offset s < f_size s"
    and "n = min len (f_size s - f_offset s)" "known s (f_offset s) n"
  shows "pwp (file_read env buf len) (\<lambda>bs t. bs = known_bytes s (f_offset s) n) (\<lambda>_ _. False) s"
proof -
  define k where "k = (if f_offset s < MD_USER_DATA_SIZE then min n (MD_USER_DATA_SIZE - f_offset s) else 0)"
  have nle: "n \<le> f_size s - f_offset s" by (simp add: assms(5))
  have k: "k \<le> n" "f_offset s + n \<le> f_size s" "k < n \<Longrightarrow> MD_USER_DATA_SIZE \<le> f_offset s + k" "k = 0 \<or> f_offset s + k \<le> MD_USER_DATA_SIZE"
    using assms(4) nle by (auto simp: k_def min_def)
  have sub: "wrapping_sub (f_size s) (f_offset s) = f_size s - f_offset s"
    using assms(2,4) by (simp add: wrapping_sub_small readable_def)
  let ?s = "s\<lparr>f_offset := f_offset s + k\<rparr>"
  have "twp (read_metadata_part n) (\<lambda>bs t. bs = known_bytes s (f_offset s) k \<and> t = ?s) (\<lambda>(_ :: FsError) _. False) s"
  proof (cases "f_offset s < MD_USER_DATA_SIZE")
    case True
    then have "f_offset s + k \<le> MD_USER_DATA_SIZE" by (simp add: k_def)
    from meta_known_bytes [OF assms(1) this] True show ?thesis
      by (simp add: read_metadata_part_def twp set_offset_def Let_def k_def in_metadata)
  qed (simp add: read_metadata_part_def twp k_def known_bytes_def)
  moreover have "pwp (read_loop env (n - k)) (\<lambda>bs t. bs = known_bytes s (f_offset s + k) (n - k) \<and> f_offset t = f_offset s + n) (\<lambda>_ _. False) ?s"
  proof (cases "k = n")
    case True
    then show ?thesis by (subst read_loop.simps) (simp add: pwp twp known_bytes_def)
  next
    case False
    have "file_ok env mode ?s" using assms(1) k by (intro file_ok_position) auto
    moreover have "known ?s (f_offset s + k) (n - k)" using assms(6) by (auto simp: known_def list_all_iff add.assoc)
    ultimately have "pwp (read_loop env (n - k)) (\<lambda>bs t. bs = known_bytes ?s (f_offset ?s) (n - k)
        \<and> reordered (?s\<lparr>f_offset := f_offset ?s + (n - k)\<rparr>) t) (\<lambda>_ _. False) ?s"
      using False k assms(2) by (intro read_loop_known) (auto simp: readable_def)
    then show ?thesis by (rule pwp_conseq) (use k in \<open>auto simp: known_bytes_def reordered_def\<close>)
  qed
  moreover have "length (known_bytes s (f_offset s) k) = k" by (simp add: known_bytes_def)
  moreover have "known_bytes s (f_offset s) k @ known_bytes s (f_offset s + k) (n - k) = known_bytes s (f_offset s) n"
    using known_bytes_add [of s "f_offset s" k "n - k"] k by simp
  moreover have "length (known_bytes s (f_offset s) n) = n" by (simp add: known_bytes_def)
  moreover have "n \<noteq> len \<Longrightarrow> f_offset s + n = f_size s" using assms(4,5) by (simp add: min_def split: if_splits)
  ultimately show ?thesis using assms(2,3,4)
    by (auto simp: file_read_def pwp_then pwp_returns pwp_seq twp readable_def sub Let_def simp flip: assms(5)
        elim!: twp_conseq pwp_conseq)
qed

lemma written_known:
  assumes "written s off bs t" "known t off (length bs)"
  shows "known_bytes t off (length bs) = bs"
  using assms by (intro nth_equalityI) (auto simp: known_bytes_def written_def known_def list_all_iff dest!: spec bspec)

text \<open>
  C6: what was written is read back: a successful write of a part of a buffer, followed by seeking to where it began and reading
  that many bytes, gives these bytes, as long as the nodes written are still in the cache and the position did not wrap around at 2^64.
\<close>

theorem write_read_back:
  assumes "env_ok env" "file_ok env mode s" "file_write env a buf s = Some (Ok n, t)" "0 < n" "start_of s + n < USIZE_LIMIT"
    and "readable env b n (t\<lparr>f_end_of_file := False\<rparr>)" "known t (start_of s) n"
  shows "\<exists>u. p_seq (returns (file_seek (Start (start_of s)))) (file_read env b n) t = Some (Ok (take n buf), u)"
proof -
  have "safe env mode False s" using assms(2) by (simp add: safe_def)
  from gwp_Some [OF file_write_result [OF assms(1) this] assms(3)]
  have t: "file_ok env mode t" "n \<le> length buf" "f_size t = max (f_size s) (start_of s + n)" "written s (start_of s) (take n buf) t"
    using assms(5) by (auto simp: write_result_def safe_def)
  let ?t = "t\<lparr>f_offset := start_of s, f_end_of_file := False\<rparr>"
  have "file_ok env mode ?t" using t(1,3) by (simp add: file_ok_position)
  moreover have "readable env b n ?t" using assms(6) by (simp add: readable_def)
  moreover have "byte_at ?t = byte_at t" by (simp add: byte_at_def byte_in_def fun_eq_iff)
  then have "known ?t (start_of s) n" "known_bytes ?t (start_of s) n = take n buf"
    using assms(7) written_known [OF t(4)] t(2) by (simp_all add: known_def known_bytes_def min_absorb2)
  ultimately have "pwp (file_read env b n) (\<lambda>bs u. bs = take n buf) (\<lambda>_ _. False) ?t"
    using file_read_known [of env mode ?t b n n] assms(4) t(3) by simp
  moreover have "returns (file_seek (Start (start_of s))) t = Some (Ok (start_of s), ?t)"
    using assms(6) t(3) by (simp add: file_seek_def rust_defs returns_def seek_target_def readable_def)
  ultimately show ?thesis by (auto simp: pwp_def p_seq_def p_then_def split: option.splits prod.splits res.splits)
qed

end
