(* ===== verification/Pfs_Props.thy ===== *)
theory Pfs_Props
  imports Pfs_Contents
begin

text \<open>
  The properties of the protected file system, over the lemmas of its theories, and a small environment they are tried on.
\<close>

section \<open>An environment\<close>

definition demo_host :: "log_event list host_calls" where
  "demo_host =
     \<lparr>u_sgxfs_open_ocall = (\<lambda>name readonly w. ((Sgx_Success, 1, 0, 0), w)),
      u_sgxfs_read_ocall = (\<lambda>f number sz w. ((Sgx_Success, 0, 0, replicate sz 0), w)),
      u_sgxfs_write_ocall = (\<lambda>f number bs w. ((Sgx_Success, 0, 0), w)),
      u_sgxfs_flush_ocall = (\<lambda>f w. ((Sgx_Success, 0, 0), w)),
      u_sgxfs_close_ocall = (\<lambda>f w. ((Sgx_Success, 0, 0), w)),
      u_sgxfs_exists_ocall = (\<lambda>name w. ((Sgx_Success, 0, 0, 0), w)),
      u_sgxfs_remove_ocall = (\<lambda>name w. ((Sgx_Success, 0, 0), w)),
      u_sgxfs_open_recovery_ocall = (\<lambda>name w. ((Sgx_Success, 1, 0), w)),
      u_sgxfs_write_recovery_ocall = (\<lambda>f bs w. ((Sgx_Success, 0, 0), w)),
      u_sgxfs_close_recovery_ocall = (\<lambda>f w. ((Sgx_Success, 0, 0), w)),
      u_sgxfs_recovery_ocall = (\<lambda>source recovery w. ((Sgx_Success, 0, 0), w))\<rparr>"

definition demo_env :: "log_event list fs_env" where
  "demo_env =
     \<lparr>env_platform = demo_platform True, env_crypto = demo_crypto, env_host = demo_host, env_rdrand = True,
      env_fill_bytes = (\<lambda>n w. (replicate n 7, w)), env_get_key = (\<lambda>request. Ok (replicate 16 9)),
      env_isv_svn = 3, env_cpu_svn = replicate 16 1, env_zeros = 0x16000\<rparr>"

definition demo_path :: Path where
  "demo_path = \<lparr>path_str = Some ''d/f'', path_name = Some ''f'', path_dir = ''d/''\<rparr>"

definition demo_opts :: OpenOptions where
  "demo_opts = opts_new\<lparr>oo_write := True, oo_update := True\<rparr>"

definition demo_metadata :: MetadataInfo where
  "demo_metadata = upd_encrypted (\<lambda>e. e\<lparr>me_file_name := splice 0 (str_bytes ''f'') (me_file_name e)\<rparr>)
     (set_encrypt_flags EF_IntegrityOnly metadata_info_new)"

definition demo_file :: "log_event list FileInner" where
  "demo_file = \<lparr>ns_nodes = [file_node_new_root EF_IntegrityOnly], ns_world = [], f_host_file = \<lparr>hf_file = 1, hf_size = 0\<rparr>,
     f_metadata = demo_metadata, f_root_mht = 0, f_key_gen = KG_IntegrityOnly, f_opts = demo_opts, f_need_writing = True,
     f_end_of_file = False, f_max_cache_page = 48, f_offset = 0, f_last_error = SgxError Sgx_Success, f_status = FS_Ok,
     f_recovery_path = with_file_name demo_path ''f_recovery'', f_cache = cache_new 48\<rparr>"

definition demo_handle :: "log_event list ProtectedFile" where
  "demo_handle = \<lparr>pf_file = demo_file, pf_poisoned = False\<rparr>"

lemma demo_fields:
  "f_offset demo_file = 0" "f_status demo_file = FS_Ok" "f_opts demo_file = demo_opts" "f_cache demo_file = cache_new 48"
  "f_max_cache_page demo_file = 48" "f_end_of_file demo_file = False" "ns_nodes demo_file = [file_node_new_root EF_IntegrityOnly]"
  "f_root_mht demo_file = 0" "oo_write demo_opts" "oo_update demo_opts" "\<not> oo_append demo_opts" "\<not> oo_read demo_opts"
  "env_platform demo_env = demo_platform True" "env_crypto demo_env = demo_crypto" "env_host demo_env = demo_host"
  "env_zeros demo_env = 0x16000" "f_host_file demo_file = \<lparr>hf_file = 1, hf_size = 0\<rparr>" "pf_file demo_handle = demo_file"
  "f_need_writing demo_file"
  by (simp_all add: demo_file_def demo_opts_def opts_new_def demo_env_def demo_handle_def)

lemma demo_env_ok: "env_ok demo_env"
  by (simp add: env_ok_def crypto_ok_def demo_env_def demo_crypto_def demo_mac_def)

lemma demo_open: "file_open demo_env demo_path demo_opts IntegrityOnly None [] = (Ok demo_file, [])"
  by (simp add: file_open_def check_cache_size_def DEFAULT_CACHE_SIZE_def check_open_param_def opts_check_def mode_check_def
      fs_key_gen_new_def check_file_exist_def try_exists_def host_file_open_def new_file_def rust_defs call_def cstr_def Let_def
      demo_path_def demo_opts_def opts_new_def demo_env_def demo_host_def demo_file_def demo_metadata_def mode_key_policy_def
      mode_import_key_def sgx_is_success_def is_page_aligned_iff SE_PAGE_SIZE_def FILENAME_MAX_LEN_def FULLNAME_MAX_LEN_def
      flags_of_mode_def I64_MAX_def opts_readonly_def)

lemma demo_reachable: "pf_reachable demo_env IntegrityOnly D demo_handle"
  by (rule pf_reachable.opened [of _ demo_path demo_opts _ None "[]" _ "[]"])
     (simp add: pf_open_def and_then_def demo_open ret_def demo_handle_def)

lemma demo_file_ok: "file_ok demo_env IntegrityOnly demo_file" "dirty_ok demo_file" "f_size demo_file = 0"
proof -
  have "twp (file_open demo_env demo_path demo_opts IntegrityOnly None) (\<lambda>s _. fresh demo_env IntegrityOnly demo_opts s) (\<lambda>_ _. True) []"
    by (rule file_open_total [OF demo_env_ok])
  then show "file_ok demo_env IntegrityOnly demo_file" "dirty_ok demo_file"
    by (simp_all add: twp_def demo_open fresh_def bounded_def safe_def)
  show "f_size demo_file = 0"
    by (simp add: demo_file_def demo_metadata_def metadata_info_new_def encrypted_default_def set_encrypt_flags_def upd_plain_def
        upd_encrypted_def)
qed

section \<open>Handles\<close>

text \<open>
  C2: the invariant of a handle: whatever calls were made on it, however they ended, and whatever the host answered and
  did in between, its lock is not poisoned, the tree, the cache, the metadata and the position of its file fit together, and the
  position is not behind the end.
\<close>

theorem reachable_well_formed:
  assumes "env_ok env" "pf_reachable env mode D h"
  shows "\<not> pf_poisoned h \<and> file_ok env mode (pf_file h) \<and> f_offset (pf_file h) \<le> f_size (pf_file h) \<and> f_size (pf_file h) < USIZE_LIMIT"
  using reachable_ok [OF assms(2,1)] by (auto simp: handle_ok_def bounded_def safe_def file_ok_def USIZE_LIMIT_def)

theorem reachable_well_formed_witness:
  "\<not> pf_poisoned demo_handle \<and> file_ok demo_env IntegrityOnly (pf_file demo_handle)"
  using reachable_well_formed [OF demo_env_ok demo_reachable] by simp

text \<open>
  C1: no call panics: on a handle with any history, whatever the host answers, a call either returns a value or an
  error. No assertion, slice or arithmetic of the library fails.
\<close>

theorem calls_never_panic:
  assumes "env_ok env" "pf_reachable env mode D h" "call_ok c" "pf_exec env c h = Some (r, h')"
  shows "r \<noteq> Panic"
  using gwp_Some [OF pf_exec_handle [OF assms(1) reachable_ok [OF assms(2,1)] assms(3)] assms(4)]
  by (cases r) auto

lemma reachable_returns:
  assumes "env_ok env" "pf_reachable env mode True h" "call_ok c" "ends (f_size (pf_file h)) c"
  shows "pf_exec env c h \<noteq> None"
  using pf_exec_handle [OF assms(1) reachable_ok [OF assms(2,1)] assms(3)] assms(4)
  by (auto simp: gwp_def split: option.splits)

theorem calls_never_panic_witness:
  "\<exists>r h'. pf_exec demo_env (Op_Write 0x16000 [1, 2, 3]) demo_handle = Some (r, h') \<and> r \<noteq> Panic"
proof -
  have sz: "call_ok (Op_Write 0x16000 [1, 2, 3])" by (simp add: call_ok_def)
  obtain r h' where "pf_exec demo_env (Op_Write 0x16000 [1, 2, 3]) demo_handle = Some (r, h')"
    using reachable_returns [OF demo_env_ok demo_reachable sz] by auto
  with calls_never_panic [OF demo_env_ok demo_reachable sz] show ?thesis by blast
qed

text \<open>
  C3: calls return: on a handle whose length was never set, every call returns, for whatever the host answers, but for a write behind
  the end of the file. The loops that evict nodes, walk up the tree, write and read all end.
\<close>

theorem calls_return:
  assumes "env_ok env" "pf_reachable env mode True h" "call_ok c" "ends (f_size (pf_file h)) c"
  shows "\<exists>r h'. pf_exec env c h = Some (r, h') \<and> pf_reachable env mode True h'"
proof -
  have "\<not> sets_len c" using assms(4) by (cases c) (simp_all add: sets_len_def)
  then show ?thesis using reachable_returns [OF assms] pf_reachable.called [OF assms(2,3)] by fastforce
qed

theorem calls_return_witness:
  "\<exists>r h'. pf_exec demo_env (Op_Read 0x16000 10) demo_handle = Some (r, h') \<and> pf_reachable demo_env IntegrityOnly True h'"
  using calls_return [OF demo_env_ok demo_reachable, of "Op_Read 0x16000 10"]
  by (simp add: call_ok_def)

text \<open>
  C9: opening gives a file: whatever is on the host, opening returns an error or a file that is well formed, with an
  empty cache of at least 48 nodes, the options of the caller and no error.
\<close>

theorem file_open_well_formed:
  assumes "env_ok env" "file_open env path opts mode cache_size w = (r, w')"
  shows "r \<noteq> Panic \<and> (\<forall>s. r = Ok s \<longrightarrow> file_ok env mode s \<and> f_size s < USIZE_LIMIT \<and> f_status s = FS_Ok \<and> f_opts s = opts
    \<and> cached s = [] \<and> 48 \<le> f_max_cache_page s)"
proof -
  have "DEFAULT_CACHE_SIZE \<le> n * SE_PAGE_SIZE \<Longrightarrow> 48 \<le> n" for n by (simp add: DEFAULT_CACHE_SIZE_def SE_PAGE_SIZE_def)
  then show ?thesis using file_open_total [OF assms(1), of path opts mode cache_size w] assms(2)
    by (cases r) (auto simp: twp_def fresh_def bounded_def safe_def cached_def USIZE_LIMIT_def)
qed

theorem file_open_well_formed_witness:
  "file_open demo_env demo_path demo_opts IntegrityOnly None [] = (Ok demo_file, []) \<and> file_ok demo_env IntegrityOnly demo_file
   \<and> 48 \<le> f_max_cache_page demo_file"
  using file_open_well_formed [OF demo_env_ok demo_open] demo_open by simp

section \<open>Importing and exporting keys\<close>

lemma close_file_total:
  assumes "env_ok env" "bounded env mode True f"
  shows "pwp (close_file env f cm) (\<lambda>key _. key = None \<longleftrightarrow> cm \<noteq> CM_Export) (\<lambda>_ _. True) w"
proof -
  have "bounded env mode True (f\<lparr>ns_world := w\<rparr>)" using assms(2) by simp
  from file_close_bounded [OF assms(1) this, of cm]
  have "pwp (run_file f (file_close env cm)) (\<lambda>key _. key = None \<longleftrightarrow> cm \<noteq> CM_Export) (\<lambda>_ _. True) w"
    by (auto simp: pwp_def run_file_def split: option.splits prod.splits res.splits)
  then show ?thesis
    unfolding close_file_def pwp_then pwp_attempt
    by (rule pwp_conseq) (auto simp: pwp twp intro!: twp_conseq [OF host_ops_total(4)])
qed

text \<open>
  C20: exporting and importing the key of a file return, with a value or an error: the key that \<open>export_key\<close> unwraps is there.
\<close>

theorem key_transfer_returns:
  assumes "env_ok env"
  shows "(\<exists>r w'. export_key env path w = Some (r, w') \<and> r \<noteq> Panic) \<and> (\<exists>r w'. import_key env path key policy w = Some (r, w') \<and> r \<noteq> Panic)"
proof -
  have fresh: "fresh env mode opts f \<Longrightarrow> bounded env mode True f" for mode opts f by (simp add: fresh_def)
  have "pwp (p_then (close_file env f CM_Export) (\<lambda>key. case key of Some k \<Rightarrow> returns (ret k) | None \<Rightarrow> returns panic)) (\<lambda>_ _. True) (\<lambda>_ _. True) w"
    if "fresh env mode opts f" for mode opts f w
    unfolding pwp_then by (rule pwp_conseq [OF close_file_total [OF assms fresh [OF that]]]) (auto simp: pwp twp)
  then have "pwp (export_key env path) (\<lambda>_ _. True) (\<lambda>_ _. True) w"
    unfolding export_key_def
    by (subst pwp_then, unfold pwp_returns [of "file_open _ _ _ _ _"]) (rule twp_conseq [OF file_open_total [OF assms]], auto)
  moreover have "pwp (p_then (close_file env f CM_Import) (\<lambda>_. returns (ret ()))) (\<lambda>_ _. True) (\<lambda>_ _. True) w"
    if "fresh env mode opts f" for mode opts f w
    unfolding pwp_then by (rule pwp_conseq [OF close_file_total [OF assms fresh [OF that]]]) (auto simp: pwp twp)
  then have "pwp (import_key env path key policy) (\<lambda>_ _. True) (\<lambda>_ _. True) w"
    unfolding import_key_def
    by (subst pwp_then, unfold pwp_returns [of "file_open _ _ _ _ _"]) (rule twp_conseq [OF file_open_total [OF assms]], auto)
  ultimately show ?thesis by (auto elim!: pwpE)
qed

theorem key_transfer_returns_witness:
  "(\<exists>r w'. export_key demo_env demo_path [] = Some (r, w') \<and> r \<noteq> Panic)"
  using key_transfer_returns [OF demo_env_ok] by blast

section \<open>Reading and writing\<close>

text \<open>
  C4: a write puts its bytes where they belong: it starts at the position, or at the end of a file opened for appending, writes a prefix of
  the buffer, moves behind it and lets the file grow to there, as long as the position stays below 2^64, where it wraps around. What is known of the file afterwards is the bytes written, and
  for every other byte that is still where it was what it was before.
\<close>

theorem file_write_contents:
  assumes "env_ok env" "file_ok env mode s" "file_write env a buf s = Some (Ok n, t)" "buf \<noteq> []" "start_of s + n < USIZE_LIMIT"
  shows "n \<le> length buf \<and> f_offset t = start_of s + n \<and> f_size t = max (f_size s) (start_of s + n)
    \<and> written s (start_of s) (take n buf) t \<and> file_ok env mode t"
proof -
  have "safe env mode False s" using assms(2) by (simp add: safe_def)
  from gwp_Some [OF file_write_result [OF assms(1) this] assms(3)] show ?thesis
    using assms(4,5) by (simp add: write_result_def safe_def)
qed

lemma write_loop_Nil: "write_loop env [] s = Some (Ok 0, s)"
  by (subst write_loop.simps) (simp add: returns_def ret_def)

lemma demo_within: "is_within_enclave (demo_platform True) 0x16000 3"
  by (simp add: is_within_enclave_def demo_platform_def demo_global_def elrange_base_def elrange_size_def range_end_def checked_add_def
      wrapping_add_def USIZE_LIMIT_def)

lemma demo_write: "file_write demo_env 0x16000 [1, 2, 3] demo_file = Some (Ok 3, put_meta [1, 2, 3] demo_file)"
proof -
  have "meta_room demo_file [1, 2, 3] = 3" by (simp add: meta_room_def demo_fields layout_consts)
  moreover have "write_metadata_part [1, 2, 3] demo_file = (Ok (meta_room demo_file [1, 2, 3]) :: (FsError, nat) res, put_meta [1, 2, 3] demo_file)"
    using twp_write_metadata_part [of "[1, 2, 3]" "\<lambda>n t. n = meta_room demo_file [1, 2, 3] \<and> t = put_meta [1, 2, 3] demo_file" "\<lambda>(_ :: FsError) _. False" demo_file]
    by (auto simp: twp_def split: prod.splits res.splits)
  ultimately show ?thesis
    using demo_within
    by (simp add: file_write_def prog_defs rust_defs write_loop_Nil) (simp add: demo_fields flip: numeral_3_eq_3)
qed

lemma demo_put:
  "f_offset (put_meta [1, 2, 3] demo_file) = 3" "f_size (put_meta [1, 2, 3] demo_file) = 3"
  "f_cache (put_meta [1, 2, 3] demo_file) = cache_new 48" "start_of demo_file = 0"
  "readable demo_env 0x16000 3 ((put_meta [1, 2, 3] demo_file)\<lparr>f_end_of_file := False\<rparr>)"
  "known (put_meta [1, 2, 3] demo_file) 0 3" "known_bytes (put_meta [1, 2, 3] demo_file) 0 3 = [1, 2, 3]"
proof -
  have room: "meta_room demo_file [1, 2, 3] = 3" by (simp add: meta_room_def demo_fields layout_consts)
  show "f_offset (put_meta [1, 2, 3] demo_file) = 3" "f_size (put_meta [1, 2, 3] demo_file) = 3"
    "f_cache (put_meta [1, 2, 3] demo_file) = cache_new 48" "start_of demo_file = 0"
    using demo_file_ok(3) by (simp_all add: put_meta_fields room demo_fields start_of_def)
  show "readable demo_env 0x16000 3 ((put_meta [1, 2, 3] demo_file)\<lparr>f_end_of_file := False\<rparr>)"
    using demo_within cache_new_ok [of 48, where 'v = node_ref] cache_len_entries [of "cache_new 48 :: node_ref LruCache"] demo_file_ok(3)
    by (simp add: readable_def put_meta_def room demo_fields layout_consts USIZE_LIMIT_def)
  show "known (put_meta [1, 2, 3] demo_file) 0 3" "known_bytes (put_meta [1, 2, 3] demo_file) 0 3 = [1, 2, 3]"
    using put_meta_byte [OF demo_file_ok(1), of "[1, 2, 3]"]
    by (simp_all add: known_def known_bytes_def room upt_rec demo_fields)
qed

theorem file_write_contents_witness:
  "file_write demo_env 0x16000 [1, 2, 3] demo_file = Some (Ok 3, put_meta [1, 2, 3] demo_file)
   \<and> written demo_file 0 [1, 2, 3] (put_meta [1, 2, 3] demo_file)"
  using file_write_contents [OF demo_env_ok demo_file_ok(1) demo_write] demo_write by (simp add: demo_put USIZE_LIMIT_def)

theorem write_read_back_witness:
  "\<exists>u. p_seq (returns (file_seek (Start 0))) (file_read demo_env 0x16000 3) (put_meta [1, 2, 3] demo_file) = Some (Ok [1, 2, 3], u)"
  using write_read_back [OF demo_env_ok demo_file_ok(1) demo_write _ _ demo_put(5)] demo_put by (simp add: USIZE_LIMIT_def)

text \<open>
  C5: a read returns the contents: on a file in a good state that allows reading, with the bytes of the range in the metadata or in cached nodes, it returns
  exactly the bytes of the file from the position on, as many as asked for or left.
\<close>

theorem file_read_contents:
  assumes "file_ok env mode s" "readable env buf len s" "0 < len" "f_offset s < f_size s"
    and "known s (f_offset s) (min len (f_size s - f_offset s))"
  shows "\<exists>t. file_read env buf len s = Some (Ok (known_bytes s (f_offset s) (min len (f_size s - f_offset s))), t)"
  using file_read_known [OF assms(1-4) refl assms(5)] by (auto elim!: pwpE)

theorem file_read_contents_witness:
  "\<exists>t. file_read demo_env 0x16000 3 ((put_meta [1, 2, 3] demo_file)\<lparr>f_end_of_file := False, f_offset := 0\<rparr>) = Some (Ok [1, 2, 3], t)"
proof -
  let ?s = "(put_meta [1, 2, 3] demo_file)\<lparr>f_end_of_file := False, f_offset := 0\<rparr>"
  have "safe demo_env IntegrityOnly False (put_meta [1, 2, 3] demo_file)"
    by (rule put_meta_safe) (simp add: safe_def demo_file_ok)
  then have "file_ok demo_env IntegrityOnly ?s" by (simp add: safe_def file_ok_position)
  moreover have "readable demo_env 0x16000 3 ?s" using demo_put(5) by (simp add: readable_def)
  moreover have "byte_at ?s = byte_at (put_meta [1, 2, 3] demo_file)" by (simp add: byte_at_def byte_in_def fun_eq_iff)
  then have "known ?s 0 3" "known_bytes ?s 0 3 = [1, 2, 3]" using demo_put(6,7) by (simp_all add: known_def known_bytes_def)
  ultimately show ?thesis using file_read_contents [of demo_env IntegrityOnly ?s "0x16000" 3] by (simp add: demo_put)
qed

text \<open>The position a seek asks for.\<close>

definition seek_position :: "nat \<Rightarrow> nat \<Rightarrow> SeekFrom \<Rightarrow> int" where
  "seek_position sz cur pos = (case pos of Start off \<Rightarrow> int off | End off \<Rightarrow> int sz + off | Current off \<Rightarrow> int cur + off)"

text \<open>
  C21: seeking goes where it is asked to, inside the file: to the position counted from the start, the end or the current position
  if that is not before the start nor behind the end, and otherwise it is an error that changes nothing. No sum wraps around.
\<close>

theorem file_seek_exact:
  assumes "f_status s = FS_Ok" "f_offset s \<le> f_size s" "f_size s < USIZE_LIMIT" "p = seek_position (f_size s) (f_offset s) pos"
  shows "file_seek pos s = (if 0 \<le> p \<and> p \<le> int (f_size s) then (Ok (nat p), s\<lparr>f_offset := nat p, f_end_of_file := False\<rparr>)
    else (Err (OsError EINVAL), s))"
proof -
  have "seek_target (f_size s) (f_offset s) pos = (if 0 \<le> p \<and> p \<le> int (f_size s) then Some (nat p) else None)"
  proof (cases pos)
    case (Start off)
    then show ?thesis by (simp add: assms(4) seek_target_def seek_position_def)
  next
    case (End off)
    then show ?thesis by (auto simp: assms(4) seek_target_def seek_position_def checked_sub_def nat_diff_distrib le_nat_iff)
  next
    case (Current off)
    then show ?thesis using assms(2,3)
      by (auto simp: assms(4) seek_target_def seek_position_def checked_sub_def checked_add_def nat_add_distrib split: option.splits)
  qed
  then show ?thesis using assms(1) by (simp add: file_seek_def rust_defs)
qed

theorem file_seek_exact_witness:
  "file_seek (Current (- 1)) demo_file = (Err (OsError EINVAL), demo_file)
   \<and> file_seek (End 0) demo_file = (Ok 0, demo_file\<lparr>f_offset := 0, f_end_of_file := False\<rparr>)"
  using file_seek_exact [of demo_file _ "Current (- 1)"] file_seek_exact [of demo_file _ "End 0"]
  by (simp add: demo_fields demo_file_ok seek_position_def USIZE_LIMIT_def)

section \<open>Flushing\<close>

text \<open>
  C7: a flush returns, whatever the host answers, with success or an error and no panic. It changes neither the contents nor the position nor the cache and
  leaves the file well formed. If the nodes that wait to be written were announced before it (\<open>dirty_ok\<close>: when a cached node waits, the file and its root are
  marked for writing and the file is longer than the 3072 bytes in the metadata), then they are announced after it, and after a success no node in the
  cache waits. A file that \<open>set_len\<close> has cut to at most 3072 bytes need not be announced.
\<close>

theorem flush_returns:
  assumes "env_ok env" "file_ok env mode s"
  shows "\<exists>r t. internal_flush env flush s = Some (r, t) \<and> r \<noteq> Panic \<and> file_ok env mode t \<and> frame t = frame s
    \<and> (dirty_ok s \<longrightarrow> dirty_ok t \<and> (r = Ok () \<longrightarrow> \<not> dirty t))"
  using internal_flush_inv [OF assms, of flush]
  by (elim pwpE) (auto simp: flush_inv_def dirty_ok_def)

theorem flush_returns_witness:
  "\<exists>r t. internal_flush demo_env True demo_file = Some (r, t) \<and> r \<noteq> Panic \<and> file_ok demo_env IntegrityOnly t \<and> (r = Ok () \<longrightarrow> \<not> dirty t)"
  using flush_returns [OF demo_env_ok demo_file_ok(1), of True] demo_file_ok(2) by blast

lemma p_seq_Ok: "p_seq m n s = Some (Ok a, t) \<Longrightarrow> \<exists>s'. n s' = Some (Ok a, t)"
  by (auto simp: p_seq_def p_then_def split: option.splits prod.splits res.splits)

lemma shrink_body_Ok: "shrink_body env again s = Some (Ok u, t) \<Longrightarrow> \<exists>s'. again s' = Some (Ok u, t)"
  unfolding shrink_body_def p_then_def by (auto split: option.splits prod.splits res.splits dest!: p_seq_Ok)

lemma shrink_cache_fits:
  assumes "shrink_cache env s = Some (Ok u, t)"
  shows "cache_len (f_cache t) \<le> f_max_cache_page t"
proof -
  have "case (Ok u :: (FsError, unit) res, t) of (Ok _, t) \<Rightarrow> cache_len (f_cache t) \<le> f_max_cache_page t | _ \<Rightarrow> True"
  proof (rule shrink_cache.raw_induct [folded shrink_body_def, where P = "\<lambda>env s y. case y of (Ok _, t) \<Rightarrow> cache_len (f_cache t) \<le> f_max_cache_page t | _ \<Rightarrow> True", OF _ assms])
    fix again env s y
    assume ih: "\<And>env s y. again env s = Some y \<Longrightarrow> case y of (Ok _, t) \<Rightarrow> cache_len (f_cache t) \<le> f_max_cache_page t | _ \<Rightarrow> True"
      and run: "(if f_max_cache_page s < cache_len (f_cache s) then shrink_body env (again env) s else returns (ret ()) s) = Some y"
    show "case y of (Ok _, t) \<Rightarrow> cache_len (f_cache t) \<le> f_max_cache_page t | _ \<Rightarrow> True"
    proof (cases y)
      case (Pair r t)
      show ?thesis
      proof (cases r)
        case (Ok v)
        show ?thesis
        proof (cases "f_max_cache_page s < cache_len (f_cache s)")
          case True
          then obtain s' where "again env s' = Some (Ok v, t)" using run shrink_body_Ok [of env "again env" s v t] by (auto simp: Pair Ok)
          from ih [OF this] show ?thesis by (simp add: Pair Ok)
        qed (use run in \<open>auto simp: Pair returns_def ret_def\<close>)
      qed (simp_all add: Pair)
    qed
  qed
  then show ?thesis by simp
qed

text \<open>
  C8: the cache is held to its size. When the loop that evicts nodes returns, it has not panicked, has only taken nodes out of the
  cache and forgotten nothing of the file, and after a success the cache is no bigger than its limit. The loop ends when
  the nodes that wait to be written are announced (\<open>dirty_ok\<close>); without that, as after \<open>set_len\<close> to at most 3072 bytes, it need not end.
\<close>

theorem shrink_cache_bounds:
  assumes "env_ok env" "file_ok env mode s"
  shows "(dirty_ok s \<longrightarrow> shrink_cache env s \<noteq> None)
    \<and> (\<forall>r t. shrink_cache env s = Some (r, t) \<longrightarrow> r \<noteq> Panic \<and> file_ok env mode t \<and> position t = position s
        \<and> set (cached t) \<subseteq> set (cached s) \<and> (r = Ok () \<longrightarrow> cache_len (f_cache t) \<le> f_max_cache_page t))"
proof (intro conjI impI allI)
  note shrinks = shrink_cache_shrinks [OF assms(1) shrunk_refl [OF assms(2)]]
  show "shrink_cache env s \<noteq> None" if "dirty_ok s" using shrinks [of True] that by (auto simp: gwp_def split: option.splits)
  fix r t assume t: "shrink_cache env s = Some (r, t)"
  have "r \<noteq> Panic \<and> shrunk env mode s t" using gwp_Some [OF shrinks [of False] t] by (cases r) auto
  then show "r \<noteq> Panic" "file_ok env mode t" "position t = position s" "set (cached t) \<subseteq> set (cached s)"
    by (auto simp: shrunk_def got_def keeps_def cached_def)
  show "cache_len (f_cache t) \<le> f_max_cache_page t" if "r = Ok ()" using shrink_cache_fits [of env s "()" t] t that by simp
qed

theorem shrink_cache_bounds_witness:
  "\<exists>r t. shrink_cache demo_env demo_file = Some (r, t) \<and> r \<noteq> Panic \<and> (r = Ok () \<longrightarrow> cache_len (f_cache t) \<le> f_max_cache_page t)"
  using shrink_cache_bounds [OF demo_env_ok demo_file_ok(1)] demo_file_ok(2) by fastforce

end
