(* ===== verification/Pfs_Faults.thy ===== *)
theory Pfs_Faults
  imports Pfs_Props
begin

text \<open>
  Error paths of the protected file system, and the places where it does not do what it means to: the loops that fill
  a file with zeros and evict nodes, setting the length of a file that is open for reading, nodes that a recovery file leaves out, and
  a closed file that works again.
\<close>

section \<open>Bad states\<close>

text \<open>
  C22: a file in a bad state serves nothing: telling the position, seeking, asking for the size, flushing, and reading and writing some
  bytes from a buffer in the enclave all fail with \<open>BadStatus\<close> and change nothing.
\<close>

theorem bad_status_refused:
  assumes "f_status s \<noteq> FS_Ok"
  shows "file_tell s = (Err (SgxError Sgx_BadStatus), s) \<and> file_size s = (Err (SgxError Sgx_BadStatus), s)
    \<and> file_seek pos s = (Err (SgxError Sgx_BadStatus), s) \<and> file_flush env s = Some (Err (SgxError Sgx_BadStatus), s)
    \<and> (0 < len \<and> is_within_enclave (env_platform env) buf len \<longrightarrow> file_read env buf len s = Some (Err (SgxError Sgx_BadStatus), s))
    \<and> (bytes \<noteq> [] \<and> is_within_enclave (env_platform env) buf (length bytes)
        \<longrightarrow> file_write env buf bytes s = Some (Err (SgxError Sgx_BadStatus), s))"
  using assms
  by (simp add: file_tell_def file_size_def file_seek_def file_flush_def file_read_def file_write_def rust_defs prog_defs)

theorem bad_status_refused_witness:
  "file_write demo_env 0x16000 [1, 2, 3] (demo_file\<lparr>f_status := FlushError\<rparr>)
   = Some (Err (SgxError Sgx_BadStatus), demo_file\<lparr>f_status := FlushError\<rparr>)"
  using bad_status_refused [of "demo_file\<lparr>f_status := FlushError\<rparr>" "Start 0" demo_env 0 "0x16000" "[1, 2, 3]"] demo_within
  by (simp add: demo_fields flip: numeral_3_eq_3)

lemma locked_poisoned:
  assumes "pf_poisoned h"
  shows "locked m h = Some (Err (SgxError Sgx_Unexpected),
    h\<lparr>pf_file := (pf_file h)\<lparr>f_last_error := SgxError Sgx_Unexpected, f_status := MemoryCorrupted\<rparr>\<rparr>)"
  using assms by (simp add: locked_def)

text \<open>
  After a panic nothing is served: on a handle with a poisoned lock every call fails with \<open>Unexpected\<close> without looking at the file,
  and marks it as corrupted.
\<close>

lemma poisoned_handle_refused:
  assumes "pf_poisoned h"
  shows "pf_exec env c h = Some (Err (SgxError Sgx_Unexpected),
    h\<lparr>pf_file := (pf_file h)\<lparr>f_last_error := SgxError Sgx_Unexpected, f_status := MemoryCorrupted\<rparr>\<rparr>)"
  by (cases c) (simp_all add: locked_poisoned [OF assms] pf_read_def pf_read_at_def pf_write_def pf_write_at_def pf_tell_def pf_seek_def
      pf_set_len_def pf_flush_def pf_clear_cache_def pf_clear_error_def pf_get_metadata_mac_def pf_rename_def pf_close_def p_then_def)



section \<open>Setting the length\<close>

lemma file_write_readonly:
  assumes "f_status s = FS_Ok" "\<not> oo_write (f_opts s)" "\<not> oo_append (f_opts s)" "\<not> oo_update (f_opts s)" "bytes \<noteq> []"
  shows "\<exists>e. file_write env buf bytes s = Some (Err e, s)"
  using assms by (auto simp: file_write_def prog_defs rust_defs)

text \<open>
  C26: a file that is open for reading only can be made shorter: the write that fails is ignored, \<open>set_len\<close> returns success and the
  size in memory is the new one, so the rest of the file can no longer be read; nothing marks the file for writing.
\<close>

theorem set_len_shrinks_readonly:
  assumes "f_status s = FS_Ok" "\<not> oo_write (f_opts s)" "\<not> oo_append (f_opts s)" "\<not> oo_update (f_opts s)" "n < f_size s"
  shows "\<exists>t. file_set_len env n s = Some (Ok (), t) \<and> f_size t = n \<and> f_need_writing t = f_need_writing s"
proof -
  let ?s = "s\<lparr>f_offset := n, f_end_of_file := False\<rparr>"
  have "\<exists>e. file_write env (env_zeros env) (replicate (min (f_size s - n) 0x1000) 0) ?s = Some (Err e, ?s)"
    using assms by (intro file_write_readonly) auto
  then have "\<exists>e. fill_zeros env (f_size s - n) ?s = Some (Err e, ?s)"
    using assms(5) by (subst fill_zeros.simps) (auto simp: p_then_def)
  then show ?thesis using assms
    by (auto simp: file_set_len_def file_seek_def seek_target_def prog_defs rust_defs upd_encrypted_def)
qed

theorem set_len_shrinks_readonly_witness:
  "\<exists>t. file_set_len demo_env 1 ((put_meta [1, 2, 3] demo_file)\<lparr>f_opts := opts_new\<lparr>oo_read := True\<rparr>\<rparr>) = Some (Ok (), t) \<and> f_size t = 1"
proof -
  let ?s = "(put_meta [1, 2, 3] demo_file)\<lparr>f_opts := opts_new\<lparr>oo_read := True\<rparr>\<rparr>"
  have "f_status ?s = FS_Ok" by (simp add: put_meta_def demo_fields advance_def)
  then show ?thesis using set_len_shrinks_readonly [of ?s 1 demo_env] by (simp add: demo_put opts_new_def) blast
qed

section \<open>Filling with zeros\<close>

text \<open>
  A file whose end is on the border of a node that is still in the cache: what shrinking to that border
  leaves behind.
\<close>

definition stale_end :: "'w FileInner \<Rightarrow> bool" where
  "stale_end s \<longleftrightarrow> f_status s = FS_Ok \<and> (oo_write (f_opts s) \<or> oo_append (f_opts s) \<or> oo_update (f_opts s))
     \<and> MD_USER_DATA_SIZE \<le> f_offset s \<and> f_offset s < MD_USER_DATA_SIZE + 96 * NODE_SIZE \<and> appends s
     \<and> cache_find (data_physical (data_logic (f_offset s))) (f_cache s) \<noteq> None \<and> cache_len (f_cache s) \<le> f_max_cache_page s"

lemma stale_get_data_node:
  assumes "stale_end s"
  shows "\<exists>n. get_data_node env s = Some (Err (SgxError Sgx_Unexpected), s\<lparr>ns_nodes := ns_nodes s @ [n]\<rparr>)"
proof -
  have md: "MD_USER_DATA_SIZE \<le> f_offset s" "data_logic (f_offset s) < 96" "appends s"
      "lc_map (f_cache s) (data_physical (data_logic (f_offset s))) \<noteq> None" "cache_len (f_cache s) \<le> f_max_cache_page s"
    using assms by (auto simp: stale_end_def data_logic_def cache_find_def layout_consts)
  have mht: "get_mht_node env s = (Ok (f_root_mht s), s)"
    using md(1,2) numbers_of_offset(1) [OF md(1)] by (simp add: get_mht_node_def rust_defs attached_96)
  obtain n where "append_data_node env s = (Err (SgxError Sgx_Unexpected), s\<lparr>ns_nodes := ns_nodes s @ [n]\<rparr>)"
    using md(4) numbers_of_offset(2) [OF md(1)]
    by (auto simp: append_data_node_def and_then_def mht gets_def append_node_def build_ref_def seq_def modify_def ret_def push_cache_def
        on_cache_def cache_push_def file_node_new_def ensure_def bail_def)
  moreover have "shrink_cache env (s\<lparr>ns_nodes := ns_nodes s @ [n]\<rparr>) = Some (Ok (), s\<lparr>ns_nodes := ns_nodes s @ [n]\<rparr>)"
    using md(5) by (intro shrink_cache_idle) simp
  ultimately show ?thesis using md(1,3)
    by (auto simp: get_data_node_def prog_defs rust_defs appends_def)
qed

lemma stale_write:
  assumes "stale_end s" "bytes \<noteq> []" "is_within_enclave (env_platform env) buf (length bytes)"
  shows "\<exists>t. file_write env buf bytes s = Some (Ok 0, t) \<and> stale_end t"
proof -
  obtain n where n: "get_data_node env s = Some (Err (SgxError Sgx_Unexpected), s\<lparr>ns_nodes := ns_nodes s @ [n]\<rparr>)"
    using stale_get_data_node [OF assms(1)] by blast
  let ?t = "s\<lparr>ns_nodes := ns_nodes s @ [n], f_last_error := SgxError Sgx_Unexpected\<rparr>"
  have "write_loop env bytes s = Some (Ok 0, ?t)"
    using assms(2) n by (subst write_loop.simps) (simp add: prog_defs rust_defs set_last_error_def)
  moreover have "write_metadata_part bytes s = (Ok 0 :: (FsError, nat) res, s)"
    using assms(1) by (simp add: write_metadata_part_def rust_defs stale_end_def)
  moreover have "s\<lparr>f_offset := f_size s\<rparr> = s" using assms(1) by (simp add: stale_end_def appends_def)
  ultimately have "file_write env buf bytes s = Some (Ok 0, ?t)"
    using assms by (auto simp: file_write_def prog_defs rust_defs stale_end_def set_offset_def)
  moreover have "stale_end ?t" using assms(1) by (auto simp: stale_end_def appends_def)
  ultimately show ?thesis by blast
qed

lemma fill_zeros_hangs:
  assumes "stale_end s" "0 < n" "is_within_enclave (env_platform env) (env_zeros env) (min n 4096)"
  shows "fill_zeros env n s = None"
proof (rule ccontr)
  assume "fill_zeros env n s \<noteq> None"
  then obtain y where y: "fill_zeros env n s = Some y" by blast
  have "\<not> (stale_end s \<and> env = env \<and> n = n)"
  proof (rule fill_zeros.raw_induct [where P = "\<lambda>env' m s y. \<not> (stale_end s \<and> env' = env \<and> m = n)", OF _ y], rule notI, elim conjE)
    fix again env' m s y
    assume ih: "\<And>env' m s y. again env' m s = Some y \<Longrightarrow> \<not> (stale_end s \<and> env' = env \<and> m = n)"
      and run: "(if 0 < m then p_then (file_write env' (env_zeros env') (replicate (min m 4096) 0)) (\<lambda>w. again env' (m - w)) s
            else returns (ret ()) s) = Some y"
      and s: "stale_end s" "env' = env" "m = n"
    have bytes: "replicate (min n 4096) 0 \<noteq> ([] :: byte list)" using assms(2) by simp
    obtain t where "file_write env (env_zeros env) (replicate (min n 4096) 0) s = Some (Ok 0, t)" "stale_end t"
      using stale_write [OF s(1) bytes] assms(3) by auto
    then show False using run s(2,3) assms(2) ih [of env n t y] by (simp add: p_then_def)
  qed
  then show False using assms(1) by blast
qed

lemma overwrite_dirty_node:
  assumes "file_ok env mode s" "f_offset s = MD_USER_DATA_SIZE" "f_size s = MD_USER_DATA_SIZE + NODE_SIZE"
    and r: "cache_find (data_physical 0) (f_cache s) = Some r" "fn_need_writing (ns_nodes s ! r)"
    and "cache_len (f_cache s) \<le> f_max_cache_page s" "length bytes = NODE_SIZE"
  shows "\<exists>c ns. write_loop env bytes s = Some (Ok NODE_SIZE, s\<lparr>f_cache := c, ns_nodes := ns, f_offset := MD_USER_DATA_SIZE + NODE_SIZE\<rparr>)
    \<and> (\<forall>k. cache_find k c = cache_find k (f_cache s)) \<and> cache_len c = cache_len (f_cache s)"
proof -
  have off: "data_logic (f_offset s) = 0" "in_node (f_offset s) = 0" by (simp_all add: data_logic_def in_node_def assms(2))
  have "cache_find (data_physical (data_logic (f_offset s))) (f_cache s) = Some r" using r(1) by (simp add: off)
  from get_data_node_cached [OF assms(1) _ _ this assms(6)] assms(2,3)
  obtain t where get: "get_data_node env s = Some (Ok r, t)" "reordered s t"
    by (auto simp: layout_consts elim!: pwpE)
  obtain c where c: "t = s\<lparr>f_cache := c\<rparr>" "\<forall>k. cache_find k c = cache_find k (f_cache s)" "cache_len c = cache_len (f_cache s)"
    using get(2) by (auto simp: reordered_def)
  have len: "r < length (ns_nodes s)" using cached_node(1) [OF assms(1) r(1)] .
  let ?ns = "(ns_nodes s)[r := (ns_nodes s ! r)\<lparr>fn_plaintext := node_with_bytes (fn_plaintext (ns_nodes s ! r))
      (splice 0 bytes (node_bytes (fn_plaintext (ns_nodes s ! r))))\<rparr>]"
  have "bytes \<noteq> []" "wrapping_add MD_USER_DATA_SIZE NODE_SIZE = MD_USER_DATA_SIZE + NODE_SIZE"
    using assms(7) by (auto simp: layout_consts wrapping_add_def USIZE_LIMIT_def)
  then have "write_loop env bytes s = Some (Ok NODE_SIZE, s\<lparr>f_cache := c, ns_nodes := ?ns, f_offset := MD_USER_DATA_SIZE + NODE_SIZE\<rparr>)"
    using get(1) c(1) len r(2) assms(2,3,7)
    by (subst write_loop.simps)
       (auto simp: prog_defs rust_defs Let_def update_node_def set_offset_def grow_to_offset_def mark_dirty_def node_at_def write_loop_Nil)
  then show ?thesis using c by blast
qed

text \<open>
  C23: setting the length can hang. Suppose \<open>set_len\<close> has set a file that is open for writing to a border between nodes, 3072 + 4096 k bytes for
  some k below 96, and the data node behind that border is still in the cache, which is within its limit: then a \<open>set_len\<close> to any bigger size
  never returns. Appending the node fails because its number is cached, the write reports that it wrote nothing, and the loop asks for the
  same bytes for ever. For one file of 7168 bytes with its only data node in the cache, cutting it to 3072 bytes is shown to lead there.
\<close>

theorem set_len_hangs:
  assumes "file_set_len env (MD_USER_DATA_SIZE + k * NODE_SIZE) s = Some (Ok (), t)" "k < 96"
    and "f_status t = FS_Ok" "oo_write (f_opts t) \<or> oo_append (f_opts t) \<or> oo_update (f_opts t)"
    and "cache_find (data_physical k) (f_cache t) \<noteq> None" "cache_len (f_cache t) \<le> f_max_cache_page t"
    and "\<forall>l \<le> 4096. is_within_enclave (env_platform env) (env_zeros env) l" "MD_USER_DATA_SIZE + k * NODE_SIZE < n"
  shows "file_set_len env n t = None"
proof -
  let ?m = "MD_USER_DATA_SIZE + k * NODE_SIZE"
  have size: "f_size t = ?m"
    using assms(1) by (auto simp: file_set_len_def p_seq_def p_then_def returns_def modify_def gets_def upd_encrypted_def
        split: option.splits prod.splits res.splits)
  let ?t = "t\<lparr>f_offset := ?m, f_end_of_file := False\<rparr>"
  have "stale_end ?t" using size assms(2-6)
    by (auto simp: stale_end_def appends_def data_logic_def NODE_SIZE_def)
  from fill_zeros_hangs [OF this, of "n - ?m" env] have "fill_zeros env (n - ?m) ?t = None"
    using assms(7,8) by simp
  then show ?thesis using size assms(3,8)
    by (simp add: file_set_len_def file_seek_def seek_target_def checked_sub_def prog_defs rust_defs)
qed

lemma cut_leaves_node:
  assumes "file_ok env mode s" "f_status s = FS_Ok" "oo_write (f_opts s) \<or> oo_update (f_opts s)" "\<not> oo_append (f_opts s)"
    and "MD_USER_DATA_SIZE \<le> f_offset s" "f_size s = MD_USER_DATA_SIZE + NODE_SIZE"
    and "cache_find (data_physical 0) (f_cache s) = Some r" "fn_need_writing (ns_nodes s ! r)" "cache_len (f_cache s) \<le> f_max_cache_page s"
    and "\<forall>k \<le> 4096. is_within_enclave (env_platform env) (env_zeros env) k"
  shows "\<exists>t. file_set_len env MD_USER_DATA_SIZE s = Some (Ok (), t) \<and> f_status t = FS_Ok \<and> f_opts t = f_opts s
    \<and> cache_find (data_physical 0) (f_cache t) \<noteq> None \<and> cache_len (f_cache t) \<le> f_max_cache_page t"
proof -
  let ?s = "s\<lparr>f_offset := MD_USER_DATA_SIZE, f_end_of_file := False\<rparr>"
  have N: "NODE_SIZE = 4096" by (simp add: NODE_SIZE_def)
  have "file_ok env mode ?s" using assms(1,6) by (simp add: file_ok_position)
  then obtain c ns where w: "write_loop env (replicate NODE_SIZE 0) ?s
      = Some (Ok NODE_SIZE, ?s\<lparr>f_cache := c, ns_nodes := ns, f_offset := MD_USER_DATA_SIZE + NODE_SIZE\<rparr>)"
      and c: "\<forall>k. cache_find k c = cache_find k (f_cache s)" "cache_len c = cache_len (f_cache s)"
    using overwrite_dirty_node [of env mode ?s r "replicate NODE_SIZE 0"] assms(6-9) by auto
  let ?u = "?s\<lparr>f_cache := c, ns_nodes := ns, f_offset := MD_USER_DATA_SIZE + NODE_SIZE\<rparr>"
  have "write_metadata_part (replicate NODE_SIZE 0) ?s = (Ok 0 :: (FsError, nat) res, ?s)"
    by (simp add: write_metadata_part_def rust_defs)
  then have "file_write env (env_zeros env) (replicate NODE_SIZE 0) ?s = Some (Ok NODE_SIZE, ?u)"
    using assms(2,3,4,10) w N by (auto simp: file_write_def prog_defs rust_defs)
  then have "fill_zeros env NODE_SIZE ?s = Some (Ok (), ?u)"
    by (subst fill_zeros.simps) (simp add: N p_then_def, subst fill_zeros.simps, simp add: returns_def ret_def)
  then show ?thesis using assms(2,5,6,7,9) c
    by (auto simp: file_set_len_def file_seek_def seek_target_def prog_defs rust_defs upd_encrypted_def min_absorb2)
qed

text \<open>A file of 7168 bytes with its one data node in the cache, waiting to be written.\<close>

definition demo_cache :: "node_ref LruCache" where
  "demo_cache = snd (the (cache_push 2 1 (cache_new 48)))"

definition demo_data_node :: FileNode where
  "demo_data_node = (file_node_new NT_Data 0 2 EF_IntegrityOnly)\<lparr>fn_parent := Some 0, fn_need_writing := True\<rparr>"

definition demo_full_file :: "log_event list FileInner" where
  "demo_full_file = demo_file\<lparr>ns_nodes := [(file_node_new_root EF_IntegrityOnly)\<lparr>fn_need_writing := True\<rparr>, demo_data_node], f_cache := demo_cache,
     f_metadata := upd_encrypted (\<lambda>e. e\<lparr>me_size := MD_USER_DATA_SIZE + NODE_SIZE\<rparr>) demo_metadata, f_offset := MD_USER_DATA_SIZE + NODE_SIZE\<rparr>"

lemma demo_cache_ok: "lru_ok demo_cache" "entries demo_cache = [(2, 1)]" "cache_find 2 demo_cache = Some 1" "cache_len demo_cache = 1"
proof -
  have "lru_ok (cache_new 48 :: node_ref LruCache)" "entries (cache_new 48 :: node_ref LruCache) = []" using cache_new_ok [of 48] by auto
  from cache_push_entries [OF this(1), of 2 1] this(2)
  show ok: "lru_ok demo_cache" "entries demo_cache = [(2, 1)]" by (auto simp: demo_cache_def)
  then show "cache_find 2 demo_cache = Some 1" "cache_len demo_cache = 1"
    using lru.lookup_Some [of demo_cache 2 1] cache_len_entries [OF ok(1)] by auto
qed

lemma demo_full_file_ok: "file_ok demo_env IntegrityOnly demo_full_file"
proof -
  have root: "root_ok ((file_node_new_root EF_IntegrityOnly)\<lparr>fn_need_writing := True\<rparr>)"
    using new_root_ok [of EF_IntegrityOnly] by (auto simp: root_ok_def shape_def content_ok_def)
  have "meta_ok demo_metadata" "mode_ok demo_env IntegrityOnly (f_key_gen demo_file) demo_metadata"
    using demo_file_ok(1) by (simp_all add: file_ok_def demo_file_def)
  moreover have "shape demo_data_node = (NT_Data, 0, 2, Some 0)" "content_ok demo_data_node"
    using node_of_type_ok [of NT_Data] by (simp_all add: demo_data_node_def shape_def file_node_new_def content_ok_def)
  moreover have "shapes_ok [(NT_Mht, 0, ROOT_MHT_PHY_NUM, None), (NT_Data, 0, 2, Some 0)] 0"
    by (auto simp: shapes_ok_def shape_ok_def less_Suc_eq ROOT_MHT_PHY_NUM_def mht_physical_def data_physical_def)
  moreover have "cache_ok demo_cache [(NT_Mht, 0, ROOT_MHT_PHY_NUM, None), (NT_Data, 0, 2, Some 0)] 0"
    by (simp add: cache_ok_def demo_cache_ok)
  ultimately show ?thesis using root
    by (simp add: file_ok_def demo_full_file_def root_ok_def demo_fields)
qed

lemma demo_zeros: "k \<le> 4096 \<Longrightarrow> is_within_enclave (demo_platform True) 0x16000 k"
  by (auto simp: is_within_enclave_def demo_platform_def demo_global_def elrange_base_def elrange_size_def range_end_def checked_add_def
      wrapping_add_def USIZE_LIMIT_def)

theorem set_len_hangs_witness:
  "\<exists>t. file_set_len demo_env MD_USER_DATA_SIZE demo_full_file = Some (Ok (), t) \<and> file_set_len demo_env 8000 t = None"
proof -
  have "cache_find (data_physical 0) (f_cache demo_full_file) = Some 1"
    using demo_cache_ok(3) by (simp add: demo_full_file_def data_physical_def numeral_2_eq_2)
  from cut_leaves_node [OF demo_full_file_ok _ _ _ _ _ this]
  obtain t where t: "file_set_len demo_env MD_USER_DATA_SIZE demo_full_file = Some (Ok (), t)" "f_status t = FS_Ok" "f_opts t = f_opts demo_full_file"
      "cache_find (data_physical 0) (f_cache t) \<noteq> None" "cache_len (f_cache t) \<le> f_max_cache_page t"
    by (auto simp: demo_full_file_def demo_fields demo_data_node_def demo_cache_ok demo_zeros layout_consts)
  have "file_set_len demo_env 8000 t = None"
    using set_len_hangs [of demo_env 0 demo_full_file t 8000] t by (simp add: demo_full_file_def demo_fields demo_zeros layout_consts)
  then show ?thesis using t(1) by blast
qed

section \<open>Waiting nodes of a short file\<close>

definition waits_last :: "'w FileInner \<Rightarrow> bool" where
  "waits_last s \<longleftrightarrow> f_max_cache_page s < cache_len (f_cache s)
     \<and> (\<exists>r. cache_back (f_cache s) = Some (Some r) \<and> r < length (ns_nodes s) \<and> fn_need_writing (ns_nodes s ! r))"

lemma short_flush:
  assumes "f_size s \<le> MD_USER_DATA_SIZE" "internal_flush env b s = Some (Ok (), t)"
  shows "\<not> f_need_writing t \<and> ns_nodes t = ns_nodes s \<and> f_cache t = f_cache s \<and> f_max_cache_page t = f_max_cache_page s"
proof (cases "f_need_writing s")
  case True
  have meta: "ns_nodes t = ns_nodes s \<and> f_cache t = f_cache s \<and> f_max_cache_page t = f_max_cache_page s \<and> f_size t = f_size s"
    if "update_metadata env s = (Ok (), t)" for s t
    using that by (auto simp: update_metadata_def rust_defs on_key_gen_def upd_metadata_def of_res_def meta_derive_key_def meta_encrypt_def upd_plain_def
        Let_def split: prod.splits res.splits EncryptFlags.splits)
  have disk: "ns_nodes t = ns_nodes s \<and> f_cache t = f_cache s \<and> f_max_cache_page t = f_max_cache_page s"
    if "write_to_disk env b s = (Ok (), t)" "f_size s \<le> MD_USER_DATA_SIZE" for s t
    using that by (auto simp: write_to_disk_def is_need_write_node_def node_at_def write_metadata_def host_flush_def on_host_def rust_defs
       split: prod.splits res.splits if_splits)
  show ?thesis using assms True
    by (auto simp: internal_flush_def is_need_write_node_def node_at_def prog_defs on_err_def rust_defs dest!: meta disk
        split: prod.splits res.splits if_splits)
next
  case False
  then show ?thesis using assms(2) by (auto simp: internal_flush_def prog_defs rust_defs)
qed

lemma shrink_body_waits:
  assumes "waits_last s"
  shows "shrink_body env again s
    = p_seq (p_on_err (\<lambda>_. and_then (gets f_status) (\<lambda>status. if status = FS_Ok then set_file_status FlushError else ret ()))
        (internal_flush env False)) again s"
proof -
  obtain r where "cache_back (f_cache s) = Some (Some r)" "r < length (ns_nodes s)" "fn_need_writing (ns_nodes s ! r)"
    using assms by (auto simp: waits_last_def)
  then show ?thesis
    by (simp add: shrink_body_def p_then_def [of "returns _"] returns_def and_then_def gets_def on_cache_def ok_or_def node_at_def ret_def)
qed

lemma shrink_cache_spins:
  assumes "waits_last s" "\<not> f_need_writing s"
  shows "shrink_cache env s = None"
proof (rule ccontr)
  assume "shrink_cache env s \<noteq> None"
  then obtain y where y: "shrink_cache env s = Some y" by blast
  have "\<not> (waits_last s \<and> \<not> f_need_writing s)"
  proof (rule shrink_cache.raw_induct [folded shrink_body_def, where P = "\<lambda>env s y. \<not> (waits_last s \<and> \<not> f_need_writing s)", OF _ y], rule notI, elim conjE)
    fix again env and s :: "'a FileInner" and y
    assume ih: "\<And>env s y. again env s = Some y \<Longrightarrow> \<not> (waits_last s \<and> \<not> f_need_writing s)"
      and run: "(if f_max_cache_page s < cache_len (f_cache s) then shrink_body env (again env) s else returns (ret ()) s) = Some y"
      and s: "waits_last s" "\<not> f_need_writing s"
    have "internal_flush env False s = Some (Ok (), s)" using s(2) by (simp add: internal_flush_def prog_defs rust_defs)
    then have "again env s = Some y"
      using run s(1) shrink_body_waits [OF s(1), of env "again env"] by (simp add: waits_last_def prog_defs rust_defs)
    from ih [OF this] s show False by blast
  qed
  then show False using assms by blast
qed

text \<open>
  C24: evicting can hang. Suppose the cache is over its limit, its last node waits to be written, and the file has at most 3072 bytes,
  as after \<open>set_len\<close>. The eviction never succeeds then: it does not return when the flush it tries succeeds, because a flush of so short a file
  writes no node, and otherwise it fails with the error of the flush.
\<close>

theorem shrink_cache_hangs:
  assumes "f_size s \<le> MD_USER_DATA_SIZE" "f_max_cache_page s < cache_len (f_cache s)"
    and "cache_back (f_cache s) = Some (Some r)" "r < length (ns_nodes s)" "fn_need_writing (ns_nodes s ! r)"
  shows "case internal_flush env False s of
      Some (Ok _, _) \<Rightarrow> shrink_cache env s = None
    | Some (Err e, _) \<Rightarrow> \<exists>t. shrink_cache env s = Some (Err e, t)
    | _ \<Rightarrow> True"
proof -
  have w: "waits_last s" using assms(2-5) by (auto simp: waits_last_def)
  have run: "shrink_cache env s = p_seq (p_on_err (\<lambda>_. and_then (gets f_status) (\<lambda>status. if status = FS_Ok then set_file_status FlushError else ret ()))
        (internal_flush env False)) (shrink_cache env) s"
    using shrink_cache_turn [of env s] shrink_body_waits [OF w] assms(2) by simp
  have "shrink_cache env t = None" if "internal_flush env False s = Some (Ok (), t)" for t
    using short_flush [OF assms(1) that] w by (intro shrink_cache_spins) (simp_all add: waits_last_def)
  then show ?thesis
    by (auto simp: run prog_defs set_file_status_def rust_defs split: option.splits prod.splits res.splits)
qed

theorem shrink_cache_hangs_witness:
  "shrink_cache demo_env (demo_full_file\<lparr>f_metadata := upd_encrypted (\<lambda>e. e\<lparr>me_size := 100\<rparr>) demo_metadata, f_max_cache_page := 0, f_need_writing := False\<rparr>) = None"
proof -
  let ?s = "demo_full_file\<lparr>f_metadata := upd_encrypted (\<lambda>e. e\<lparr>me_size := 100\<rparr>) demo_metadata, f_max_cache_page := 0, f_need_writing := False\<rparr>"
  have "cache_back demo_cache = Some (Some 1)" using cache_back_entries [OF demo_cache_ok(1), of "[]" 2 1] demo_cache_ok(2) by simp
  moreover have "internal_flush demo_env False ?s = Some (Ok (), ?s)" by (simp add: internal_flush_def prog_defs rust_defs)
  ultimately show ?thesis
    using shrink_cache_hangs [of ?s 1 demo_env] demo_cache_ok(4) by (simp add: demo_full_file_def demo_data_node_def upd_encrypted_def layout_consts)
qed

section \<open>Recovery files\<close>

lemma load_node_is_new:
  assumes "load_node env n s = (Ok r, t)" "fn_new_node n"
  shows "r < length (ns_nodes t) \<and> fn_new_node (ns_nodes t ! r)"
  using assms
  by (auto simp: load_node_def rust_defs on_host_def on_ns_world_def node_read_from_disk_def node_decrypt_def build_ref_def push_cache_def
      on_cache_def of_res_def split: prod.splits res.splits option.splits if_splits)

lemma read_data_node_is_new:
  assumes "read_data_node env s = (Ok r, t)" "MD_USER_DATA_SIZE \<le> f_offset s" "cache_find (data_physical (data_logic (f_offset s))) (f_cache s) = None"
  shows "r < length (ns_nodes t) \<and> fn_new_node (ns_nodes t ! r)"
proof -
  let ?n = "\<lambda>flags p. (file_node_new NT_Data (data_logic (f_offset s)) (data_physical (data_logic (f_offset s))) flags)\<lparr>fn_parent := Some p\<rparr>"
  have "\<exists>p flags u. load_node env (?n flags p) u = (Ok r, t)"
    using assms(1,3) numbers_of_offset(2) [OF assms(2)]
    by (auto simp: read_data_node_def and_then_Ok_iff gets_def)
  then show ?thesis using load_node_is_new by (force simp: file_node_new_def)
qed

text \<open>
  C25: recovery files leave out the nodes they are for: a data node that was read from the disk counts as new, so when it is changed and waits to be written,
  the loop that saves the old nodes before a flush passes it over. If the flush is then interrupted
  the old node is lost.
\<close>

theorem recovery_leaves_out_read_nodes:
  assumes "read_data_node env s = (Ok r, t)" "MD_USER_DATA_SIZE \<le> f_offset s" "cache_find (data_physical (data_logic (f_offset s))) (f_cache s) = None"
    and "u = t\<lparr>ns_nodes := (ns_nodes t)[r := (ns_nodes t ! r)\<lparr>fn_plaintext := x, fn_need_writing := True\<rparr>]\<rparr>"
  shows "fn_need_writing (ns_nodes u ! r) \<and> recovery_node env file r u = (Ok (), u)"
  using read_data_node_is_new [OF assms(1-3)] by (simp add: assms(4) recovery_node_def node_at_def rust_defs)

lemma demo_verify: "length plain = NODE_SIZE \<Longrightarrow> open_bytes demo_env EF_IntegrityOnly (replicate 16 0) (replicate 16 0) (replicate NODE_SIZE 0) plain = Ok (replicate NODE_SIZE 0)"
proof -
  have "demo_mac (replicate 16 0) [] (replicate NODE_SIZE 0) = replicate 16 0"
    by (simp add: demo_mac_def sum_list_replicate numeral_eq_Suc)
  moreover have "replicate NODE_SIZE 0 \<noteq> ([] :: byte list)" by (simp add: NODE_SIZE_def)
  moreover assume "length plain = NODE_SIZE"
  ultimately show ?thesis
    by (simp add: open_bytes_def gcm_new_def gcm_verify_mac_def demo_fields demo_crypto_def sgx_is_success_def I32_MAX_def NODE_SIZE_def)
qed

lemma demo_read_node:
  "\<exists>r t. read_data_node demo_env (demo_full_file\<lparr>f_cache := cache_new 48, f_offset := MD_USER_DATA_SIZE\<rparr>) = (Ok r, t)"
proof -
  let ?s = "demo_full_file\<lparr>f_cache := cache_new 48, f_offset := MD_USER_DATA_SIZE\<rparr>"
  have num: "get_data_node_numbers MD_USER_DATA_SIZE = (0, 2)" "get_mht_node_numbers MD_USER_DATA_SIZE = (0, 1)"
    using numbers_of_offset [of MD_USER_DATA_SIZE] by (simp_all add: data_logic_def data_physical_def mht_physical_def)
  have gcm: "mht_data mht_default ! 0 = \<lparr>gd_key = replicate 16 0, gd_mac = replicate 16 0\<rparr>" "0 < length (mht_data mht_default)"
    by (simp_all add: mht_default_def gcm_default_def layout_consts)
  have flags: "f_flags ?s = EF_IntegrityOnly"
    by (simp add: demo_full_file_def demo_metadata_def upd_encrypted_def set_encrypt_flags_def upd_plain_def)
  let ?n = "(file_node_new NT_Data 0 2 EF_IntegrityOnly)\<lparr>fn_parent := Some 0\<rparr>"
  have nodes: "ns_nodes ?s ! 0 = (file_node_new NT_Mht 0 1 EF_IntegrityOnly)\<lparr>fn_need_writing := True\<rparr>" "0 < length (ns_nodes ?s)"
    by (simp_all add: demo_full_file_def file_node_new_root_def ROOT_MHT_PHY_NUM_def)
  have dec: "open_bytes demo_env EF_IntegrityOnly (replicate 16 0) (replicate 16 0) (replicate NODE_SIZE 0) (node_bytes (Data (replicate NODE_SIZE 0)))
      = Ok (replicate NODE_SIZE 0)" by (rule demo_verify) (simp add: node_bytes_def)
  have find: "cache_find 2 (cache_new 48 :: node_ref LruCache) = None" by (simp add: cache_find_def cache_new_def)
  obtain c where push: "cache_push 2 (length (ns_nodes demo_full_file)) (cache_new 48) = Some (True, c)"
    using cache_push_entries [of "cache_new 48 :: node_ref LruCache" 2 "length (ns_nodes demo_full_file)"] cache_new_ok [of 48, where 'v = node_ref] by auto
  have "twp (load_node demo_env ?n) (\<lambda>_ _. True) (\<lambda>_ _. False) ?s"
    using nodes gcm dec push
    by (simp add: load_node_def twp on_host_def node_read_from_disk_def host_file_read_def demo_host_def demo_fields sgx_is_success_def fit_def
        file_node_new_def node_get_gcm_def gcm_index_def is_root_mht_def gcm_slot_def node_get_gcm_data_def ROOT_MHT_PHY_NUM_def
        node_decrypt_def twp_of_res twp_build_ref push_cache_def Let_def)
  then have "twp (read_data_node demo_env) (\<lambda>_ _. True) (\<lambda>_ _. False) ?s"
    using flags find by (simp add: read_data_node_def get_mht_node_def twp num demo_full_file_def demo_fields)
  then show ?thesis by (auto elim!: twpE)
qed

theorem recovery_leaves_out_read_nodes_witness:
  "\<exists>r t u. read_data_node demo_env (demo_full_file\<lparr>f_cache := cache_new 48, f_offset := MD_USER_DATA_SIZE\<rparr>) = (Ok r, t)
   \<and> u = t\<lparr>ns_nodes := (ns_nodes t)[r := (ns_nodes t ! r)\<lparr>fn_plaintext := Data [], fn_need_writing := True\<rparr>]\<rparr>
   \<and> fn_need_writing (ns_nodes u ! r) \<and> recovery_node demo_env 1 r u = (Ok (), u)"
proof -
  obtain r t where t: "read_data_node demo_env (demo_full_file\<lparr>f_cache := cache_new 48, f_offset := MD_USER_DATA_SIZE\<rparr>) = (Ok r, t)"
    using demo_read_node by blast
  have "cache_find k (cache_new 48 :: node_ref LruCache) = None" for k by (simp add: cache_find_def cache_new_def)
  with recovery_leaves_out_read_nodes [OF t _ _ refl, of "Data []" 1] t show ?thesis by simp
qed

end
