(* ===== verification/Pfs_Trials.thy ===== *)
theory Pfs_Trials
  imports Pfs_Faults
begin

text \<open>The layout and the encryption of nodes and metadata, tried on the environment of \<open>Pfs_Props\<close>.\<close>

theorem node_numbers_layout_witness:
  "get_node_numbers 3072 = (0, 0, 1, 2) \<and> get_node_numbers 7168 = (0, 1, 1, 3) \<and> (2 :: nat) \<noteq> 3"
proof -
  have n: "get_node_numbers 3072 = (0, 0, 1, 2)" "get_node_numbers 7168 = (0, 1, 1, 3)"
    using get_node_numbers_eq [of 3072] get_node_numbers_eq [of 7168] by (simp_all add: layout_consts Let_def mht_physical_def data_physical_def)
  then show ?thesis using node_numbers_layout [OF _ _ _ _ n] by (simp add: layout_consts USIZE_LIMIT_def)
qed

section \<open>Encryption\<close>

definition demo_nodes :: "log_event list nstore" where
  "demo_nodes = \<lparr>ns_nodes = [file_node_new_root EF_AutoKey, (file_node_new NT_Data 0 2 EF_AutoKey)\<lparr>fn_parent := Some 0\<rparr>], ns_world = []\<rparr>"

lemma demo_seal:
  assumes "length cipher = length plain" "length plain < I32_MAX"
  shows "seal_bytes demo_env EF_AutoKey key plain cipher = (Ok (demo_mac key plain []), plain)"
  using assms by (simp add: seal_bytes_def gcm_new_def gcm_encrypt_def demo_fields demo_crypto_def sgx_is_success_def I32_MAX_def)

theorem node_encrypt_decrypt_witness:
  "\<exists>mac s' fresh. node_encrypt demo_env 1 (replicate 16 5) demo_nodes = (Ok mac, s')
   \<and> node_get_gcm fresh s' = (Ok (Some \<lparr>gd_key = replicate 16 5, gd_mac = mac\<rparr>), s')
   \<and> fst (node_decrypt demo_env fresh (replicate 16 5) mac s') = Ok (fresh\<lparr>fn_plaintext := Data (replicate NODE_SIZE 0)\<rparr>)"
proof -
  let ?key = "replicate 16 5 :: byte list" and ?n = "(file_node_new NT_Data 0 2 EF_AutoKey)\<lparr>fn_parent := Some 0\<rparr>"
  have nodes: "ns_nodes demo_nodes ! 1 = ?n" "ns_nodes demo_nodes ! 0 = file_node_new_root EF_AutoKey" "length (ns_nodes demo_nodes) = 2"
    by (simp_all add: demo_nodes_def)
  have root: "node_ok NT_Mht (fn_plaintext (file_node_new_root EF_AutoKey))"
    using new_root_ok [of EF_AutoKey] by (auto simp: root_ok_def content_ok_def shape_def)
  have data: "node_ok NT_Data (Data (replicate NODE_SIZE 0))" by (simp add: node_ok_def)
  have "twp (node_encrypt demo_env 1 ?key) (\<lambda>_ _. True) (\<lambda>_ _. False) demo_nodes"
    by (subst twp_node_encrypt) (use root in \<open>auto simp: nodes file_node_new_def demo_seal node_bytes_def NODE_SIZE_def I32_MAX_def simp del: One_nat_def\<close>)
  then obtain mac s' where enc: "node_encrypt demo_env 1 ?key demo_nodes = (Ok mac, s')" by (auto elim!: twpE)
  have "gcm_correct (env_crypto demo_env)" by (simp add: demo_fields demo_crypto_correct)
  let ?f = "?n\<lparr>fn_ciphertext := fn_ciphertext (ns_nodes s' ! 1)\<rparr>"
  have fresh: "?f = (file_node_new (fn_node_type ?n) (fn_logic_number ?n) (fn_physical_number ?n) (fn_encrypt_flags ?n))
      \<lparr>fn_parent := Some 0, fn_ciphertext := fn_ciphertext (ns_nodes s' ! 1)\<rparr>" by (simp add: file_node_new_def)
  have n: "fn_plaintext ?n = Data (replicate NODE_SIZE 0)" "fn_node_type ?n = NT_Data" "fn_physical_number ?n = 2" "fn_parent ?n = Some 0"
    by (simp_all add: file_node_new_def)
  have "node_get_gcm ?f s' = (Ok (Some \<lparr>gd_key = ?key, gd_mac = mac\<rparr>), s') \<and> fst (node_decrypt demo_env ?f ?key mac s') = Ok (?f\<lparr>fn_plaintext := fn_plaintext ?n\<rparr>)"
    by (rule node_encrypt_decrypt [OF \<open>gcm_correct _\<close> enc _ nodes(1) [symmetric] _ _ _ n(4) _ _ _ fresh])
       (simp_all only: nodes n, simp_all add: data root is_root_mht_def n ROOT_MHT_PHY_NUM_def)
  then show ?thesis using enc unfolding n by blast
qed

definition demo_auto_metadata :: MetadataInfo where
  "demo_auto_metadata = set_key_policy KEY_POLICY_MRSIGNER (set_encrypt_flags EF_AutoKey metadata_info_new)"

definition demo_auto_key :: FsKeyGen where
  "demo_auto_key = EncryptWithIntegrity (MK_AutoKey 3 (replicate 16 1) (Some KEY_POLICY_MRSIGNER)) \<lparr>mk_key = [], mk_key_id = [], mk_count = 0\<rparr>"

theorem metadata_reopen_witness:
  "\<exists>key m1 t m2 on_disk. meta_derive_key demo_env demo_auto_metadata (demo_auto_key, []) = (Ok (key, m1), t) \<and> meta_encrypt demo_env m1 key = (Ok (), m2)
   \<and> mi_metadata on_disk = metadata_of_bytes (metadata_bytes (mi_metadata m2))
   \<and> meta_restore_key demo_env on_disk (KG_Export (MK_AutoKey 3 (replicate 16 1) None)) () = (Ok key, ())
   \<and> meta_decrypt demo_env on_disk key () = (Ok (on_disk\<lparr>mi_encrypted_plain := encrypted_default\<rparr>), ())"
proof -
  let ?m = demo_auto_metadata and ?mode = "AutoKey KEY_POLICY_MRSIGNER"
  have m: "metadata_ok (mi_metadata ?m)" "mi_encrypted_plain ?m = encrypted_default" "mp_encrypt_flags (mi_plain ?m) = EF_AutoKey"
      "mp_key_policy (mi_plain ?m) = KEY_POLICY_MRSIGNER" "\<not> update_flag ?m"
    by (auto simp: demo_auto_metadata_def metadata_info_new_def set_key_policy_def set_encrypt_flags_def upd_plain_def metadata_ok_def
        metadata_with_def plain_ok_def plain_new_def plain_default_def SGX_FILE_ID_def update_flag_def)
  have env: "env_rdrand demo_env" "length (env_cpu_svn demo_env) = 16" "env_isv_svn demo_env < 256 ^ 2" "env_isv_svn demo_env = 3"
      "env_cpu_svn demo_env = replicate 16 1" by (simp_all add: demo_env_def)
  have gen: "gen_for demo_env ?mode demo_auto_key" "gen_for demo_env ExportKey (KG_Export (MK_AutoKey 3 (replicate 16 1) None))"
    by (simp_all add: demo_auto_key_def env)
  have "\<exists>key m1 t. meta_derive_key demo_env ?m (demo_auto_key, []) = (Ok (key, m1), t)"
    using m(3) by (simp add: meta_derive_key_def derive_key_def demo_auto_key_def on_rng_def rust_defs metadata_derive_key_def env(1)
        get_key_def call_def) (simp add: demo_env_def rust_defs)
  then obtain key m1 t where d: "meta_derive_key demo_env ?m (demo_auto_key, []) = (Ok (key, m1), t)" by blast
  note m1 = meta_derive_key_ok [OF d gen(1) _ m(1) env(2,3)]
  have "length (encrypted_bytes encrypted_default) = METADATA_ENCRYPTED" by (rule length_encrypted_bytes [OF encrypted_default_ok])
  then have "\<exists>m2. meta_encrypt demo_env m1 key = (Ok (), m2)"
    using m1 m by (simp add: meta_encrypt_def flags_of_mode_def demo_seal metadata_ok_def metadata_sizes I32_MAX_def Let_def)
  then obtain m2 where e: "meta_encrypt demo_env m1 key = (Ok (), m2)" by blast
  have "gcm_correct (env_crypto demo_env)" by (simp add: demo_fields demo_crypto_correct)
  let ?disk = "metadata_info_default\<lparr>mi_metadata := metadata_of_bytes (metadata_bytes (mi_metadata m2))\<rparr>"
  from metadata_reopen [OF \<open>gcm_correct _\<close> env(2,3) gen _ m(1) _ _ _ d e refl, of "()"]
  have "meta_restore_key demo_env ?disk (KG_Export (MK_AutoKey 3 (replicate 16 1) None)) () = (Ok key, ())
      \<and> meta_decrypt demo_env ?disk key () = (Ok (?disk\<lparr>mi_encrypted_plain := encrypted_default\<rparr>), ())"
    using m encrypted_default_ok by (simp add: flags_of_mode_def mode_key_policy_def)
  then show ?thesis using d e by (intro exI [of _ key] exI [of _ m1] exI [of _ t] exI [of _ m2] exI [of _ ?disk]) simp
qed

end
