(* ===== verification/Tse.thy ===== *)
theory Tse
  imports Pfs_Keys
begin

text \<open>
  Reports and keys of the enclave: the structures of \<open>sgx_types/src/types/mod.rs\<close>, the instructions \<open>EREPORT\<close>,
  \<open>EGETKEY\<close> and \<open>EVERIFYREPORT2\<close> as \<open>sgx_trts/src/se\<close> wraps them, random bytes (\<open>sgx_trts/src/rand.rs\<close>), and the traits and the C
  interface of \<open>sgx_tse\<close>. The instructions, the memory allocator and the addresses of local variables
  are the parameter \<open>tse_env\<close>; the state holds the report cached by \<open>get_self\<close> and the memory that C pointers refer to.
\<close>

section \<open>Structures\<close>

record Attributes =
  at_flags :: "64 word"
  at_xfrm :: nat

record SgxKeyRequest =
  kq_key_name :: nat
  kq_key_policy :: KeyPolicy
  kq_isv_svn :: nat
  kq_reserved1 :: nat
  kq_cpu_svn :: "byte list"
  kq_attribute_mask :: Attributes
  kq_key_id :: "byte list"
  kq_misc_mask :: nat
  kq_config_svn :: nat
  kq_reserved2 :: "byte list"

record TargetInfo =
  ti_mr_enclave :: "byte list"
  ti_attributes :: Attributes
  ti_reserved1 :: "byte list"
  ti_config_svn :: nat
  ti_misc_select :: nat
  ti_reserved2 :: "byte list"
  ti_config_id :: "byte list"
  ti_reserved3 :: "byte list"

record ReportBody =
  rb_cpu_svn :: "byte list"
  rb_misc_select :: nat
  rb_reserved1 :: "byte list"
  rb_isv_ext_prod_id :: "byte list"
  rb_attributes :: Attributes
  rb_mr_enclave :: "byte list"
  rb_reserved2 :: "byte list"
  rb_mr_signer :: "byte list"
  rb_reserved3 :: "byte list"
  rb_config_id :: "byte list"
  rb_isv_prod_id :: nat
  rb_isv_svn :: nat
  rb_config_svn :: nat
  rb_reserved4 :: "byte list"
  rb_isv_family_id :: "byte list"
  rb_report_data :: "byte list"

record Report =
  rp_body :: ReportBody
  rp_key_id :: "byte list"
  rp_mac :: "byte list"

text \<open>The values of \<open>KeyName\<close> and the flags the code names.\<close>

definition KEY_NAME_REPORT :: nat where
  "KEY_NAME_REPORT = 3"

definition KEY_NAME_SEAL :: nat where
  "KEY_NAME_SEAL = 4"

definition KEY_POLICY_NOISVPRODID :: KeyPolicy where
  "KEY_POLICY_NOISVPRODID = 4"

definition KEY_POLICY_KSS :: KeyPolicy where
  "KEY_POLICY_KSS = or 0x08 (or 0x10 0x20)"

definition ATTRIBUTES_INITTED :: "64 word" where
  "ATTRIBUTES_INITTED = 1"

definition ATTRIBUTES_DEBUG :: "64 word" where
  "ATTRIBUTES_DEBUG = 2"

definition ATTRIBUTES_KSS :: "64 word" where
  "ATTRIBUTES_KSS = 0x80"

definition ATTRIBUTES_DEFAULT_MASK :: "64 word" where
  "ATTRIBUTES_DEFAULT_MASK = not (or 0x00FFFFFFFFFFFFC0 (or 0x04 (or 0x10 0x20)))"

text \<open>The default values: every byte is zero.\<close>

definition attributes_default :: Attributes where
  "attributes_default = \<lparr>at_flags = 0, at_xfrm = 0\<rparr>"

definition key_request_default :: SgxKeyRequest where
  "key_request_default =
     \<lparr>kq_key_name = 0, kq_key_policy = 0, kq_isv_svn = 0, kq_reserved1 = 0, kq_cpu_svn = replicate 16 0,
      kq_attribute_mask = attributes_default, kq_key_id = replicate 32 0, kq_misc_mask = 0, kq_config_svn = 0,
      kq_reserved2 = replicate 434 0\<rparr>"

definition target_info_default :: TargetInfo where
  "target_info_default =
     \<lparr>ti_mr_enclave = replicate 32 0, ti_attributes = attributes_default, ti_reserved1 = replicate 2 0, ti_config_svn = 0,
      ti_misc_select = 0, ti_reserved2 = replicate 8 0, ti_config_id = replicate 64 0, ti_reserved3 = replicate 384 0\<rparr>"

definition report_data_default :: "byte list" where
  "report_data_default = replicate 64 0"

definition report_default :: Report where
  "report_default =
     \<lparr>rp_body = \<lparr>rb_cpu_svn = replicate 16 0, rb_misc_select = 0, rb_reserved1 = replicate 12 0,
        rb_isv_ext_prod_id = replicate 16 0, rb_attributes = attributes_default, rb_mr_enclave = replicate 32 0,
        rb_reserved2 = replicate 32 0, rb_mr_signer = replicate 32 0, rb_reserved3 = replicate 32 0,
        rb_config_id = replicate 64 0, rb_isv_prod_id = 0, rb_isv_svn = 0, rb_config_svn = 0,
        rb_reserved4 = replicate 42 0, rb_isv_family_id = replicate 16 0, rb_report_data = report_data_default\<rparr>,
      rp_key_id = replicate 32 0, rp_mac = replicate 16 0\<rparr>"

section \<open>Layout in memory\<close>

text \<open>The structures are \<open>repr(C)\<close> without padding: their bytes are those of the fields in order.\<close>

definition attributes_bytes :: "Attributes \<Rightarrow> byte list" where
  "attributes_bytes a = le_bytes 8 (unat (at_flags a)) @ le_bytes 8 (at_xfrm a)"

definition attributes_of_bytes :: "byte list \<Rightarrow> Attributes" where
  "attributes_of_bytes bs = \<lparr>at_flags = of_nat (of_le (take 8 bs)), at_xfrm = of_le (take 8 (drop 8 bs))\<rparr>"

definition key_request_bytes :: "SgxKeyRequest \<Rightarrow> byte list" where
  "key_request_bytes k =
     le_bytes 2 (kq_key_name k) @ le_bytes 2 (unat (kq_key_policy k)) @ le_bytes 2 (kq_isv_svn k) @ le_bytes 2 (kq_reserved1 k)
       @ kq_cpu_svn k @ attributes_bytes (kq_attribute_mask k) @ kq_key_id k @ le_bytes 4 (kq_misc_mask k)
       @ le_bytes 2 (kq_config_svn k) @ kq_reserved2 k"

definition key_request_of_bytes :: "byte list \<Rightarrow> SgxKeyRequest" where
  "key_request_of_bytes bs =
     \<lparr>kq_key_name = of_le (take 2 bs), kq_key_policy = of_nat (of_le (take 2 (drop 2 bs))), kq_isv_svn = of_le (take 2 (drop 4 bs)),
      kq_reserved1 = of_le (take 2 (drop 6 bs)), kq_cpu_svn = take 16 (drop 8 bs),
      kq_attribute_mask = attributes_of_bytes (take 16 (drop 24 bs)), kq_key_id = take 32 (drop 40 bs),
      kq_misc_mask = of_le (take 4 (drop 72 bs)), kq_config_svn = of_le (take 2 (drop 76 bs)),
      kq_reserved2 = drop 78 bs\<rparr>"

definition target_info_of_bytes :: "byte list \<Rightarrow> TargetInfo" where
  "target_info_of_bytes bs =
     \<lparr>ti_mr_enclave = take 32 bs, ti_attributes = attributes_of_bytes (take 16 (drop 32 bs)), ti_reserved1 = take 2 (drop 48 bs),
      ti_config_svn = of_le (take 2 (drop 50 bs)), ti_misc_select = of_le (take 4 (drop 52 bs)), ti_reserved2 = take 8 (drop 56 bs),
      ti_config_id = take 64 (drop 64 bs), ti_reserved3 = drop 128 bs\<rparr>"

definition target_info_bytes :: "TargetInfo \<Rightarrow> byte list" where
  "target_info_bytes t =
     ti_mr_enclave t @ attributes_bytes (ti_attributes t) @ ti_reserved1 t @ le_bytes 2 (ti_config_svn t)
       @ le_bytes 4 (ti_misc_select t) @ ti_reserved2 t @ ti_config_id t @ ti_reserved3 t"

definition report_body_bytes :: "ReportBody \<Rightarrow> byte list" where
  "report_body_bytes b =
     rb_cpu_svn b @ le_bytes 4 (rb_misc_select b) @ rb_reserved1 b @ rb_isv_ext_prod_id b @ attributes_bytes (rb_attributes b)
       @ rb_mr_enclave b @ rb_reserved2 b @ rb_mr_signer b @ rb_reserved3 b @ rb_config_id b @ le_bytes 2 (rb_isv_prod_id b)
       @ le_bytes 2 (rb_isv_svn b) @ le_bytes 2 (rb_config_svn b) @ rb_reserved4 b @ rb_isv_family_id b @ rb_report_data b"

definition report_bytes :: "Report \<Rightarrow> byte list" where
  "report_bytes r = report_body_bytes (rp_body r) @ rp_key_id r @ rp_mac r"

definition report_body_of_bytes :: "byte list \<Rightarrow> ReportBody" where
  "report_body_of_bytes bs =
     \<lparr>rb_cpu_svn = take 16 bs, rb_misc_select = of_le (take 4 (drop 16 bs)), rb_reserved1 = take 12 (drop 20 bs),
      rb_isv_ext_prod_id = take 16 (drop 32 bs), rb_attributes = attributes_of_bytes (take 16 (drop 48 bs)),
      rb_mr_enclave = take 32 (drop 64 bs), rb_reserved2 = take 32 (drop 96 bs), rb_mr_signer = take 32 (drop 128 bs),
      rb_reserved3 = take 32 (drop 160 bs), rb_config_id = take 64 (drop 192 bs), rb_isv_prod_id = of_le (take 2 (drop 256 bs)),
      rb_isv_svn = of_le (take 2 (drop 258 bs)), rb_config_svn = of_le (take 2 (drop 260 bs)), rb_reserved4 = take 42 (drop 262 bs),
      rb_isv_family_id = take 16 (drop 304 bs), rb_report_data = drop 320 bs\<rparr>"

definition report_of_bytes :: "byte list \<Rightarrow> Report" where
  "report_of_bytes bs =
     \<lparr>rp_body = report_body_of_bytes (take 384 bs), rp_key_id = take 32 (drop 384 bs), rp_mac = drop 416 bs\<rparr>"

definition key_request_try_copy_from :: "byte list \<Rightarrow> SgxKeyRequest option" where
  "key_request_try_copy_from src = (if length src = 512 then Some (key_request_of_bytes src) else None)"

definition target_info_try_copy_from :: "byte list \<Rightarrow> TargetInfo option" where
  "target_info_try_copy_from src = (if length src = 512 then Some (target_info_of_bytes src) else None)"

definition report_data_try_copy_from :: "byte list \<Rightarrow> byte list option" where
  "report_data_try_copy_from src = (if length src = 64 then Some src else None)"

definition report_try_copy_from :: "byte list \<Rightarrow> Report option" where
  "report_try_copy_from src = (if length src = 432 then Some (report_of_bytes src) else None)"

section \<open>Parameters and state\<close>

text \<open>
  The instructions return an error code or a result. \<open>te_rdrand\<close> is one step of \<open>RDRAND\<close>, which may have no number
  ready. \<open>te_stack\<close> is the address of a local variable, \<open>te_alloc\<close> the memory allocator of the enclave, which may have no memory left.
\<close>

record 'w tse_env =
  te_platform :: "'w platform"
  te_crypto :: crypto_sys
  te_ereport :: "TargetInfo \<Rightarrow> byte list \<Rightarrow> nat + Report"
  te_egetkey :: "SgxKeyRequest \<Rightarrow> nat + key128"
  te_everify_report2 :: "byte list \<Rightarrow> nat"
  te_rdrand :: "'w \<Rightarrow> nat option \<times> 'w"
  te_alloc :: "nat \<Rightarrow> 'w \<Rightarrow> usize option \<times> 'w"
  te_stack :: usize
  te_self_report :: usize

record 'w tse =
  ts_world :: 'w
  ts_report :: "Report option"
  ts_mem :: "usize \<Rightarrow> byte"

definition on_tse_world :: "('w, 'e, 'a) rust \<Rightarrow> ('w tse, 'e, 'a) rust" where
  "on_tse_world = zoom ts_world (\<lambda>w s. s\<lparr>ts_world := w\<rparr>)"

abbreviation in_enclave :: "'w tse_env \<Rightarrow> usize \<Rightarrow> nat \<Rightarrow> bool" where
  "in_enclave env p n \<equiv> is_within_enclave (te_platform env) p n"

abbreviation in_host :: "'w tse_env \<Rightarrow> usize \<Rightarrow> nat \<Rightarrow> bool" where
  "in_host env p n \<equiv> is_within_host (te_platform env) p n"

text \<open>Memory read and written through a C pointer.\<close>

definition read_mem :: "usize \<Rightarrow> nat \<Rightarrow> (usize \<Rightarrow> byte) \<Rightarrow> byte list" where
  "read_mem p n m = map (\<lambda>i. m (p + i)) [0 ..< n]"

definition write_mem :: "usize \<Rightarrow> byte list \<Rightarrow> (usize \<Rightarrow> byte) \<Rightarrow> usize \<Rightarrow> byte" where
  "write_mem p bs m = (\<lambda>a. if p \<le> a \<and> a < p + length bs then bs ! (a - p) else m a)"

definition load :: "usize \<Rightarrow> nat \<Rightarrow> ('w tse, 'e, byte list) rust" where
  "load p n = gets (\<lambda>s. read_mem p n (ts_mem s))"

definition store :: "usize \<Rightarrow> byte list \<Rightarrow> ('w tse, 'e, unit) rust" where
  "store p bs = modify (\<lambda>s. s\<lparr>ts_mem := write_mem p bs (ts_mem s)\<rparr>)"

text \<open>A C function: every early return is the status, and reaching the end is success.\<close>

definition c_status :: "('s, SgxStatus, unit) rust \<Rightarrow> ('s, SgxStatus, SgxStatus) rust" where
  "c_status m = and_then (attempt m) (\<lambda>r. ret (case r of Inl e \<Rightarrow> e | Inr _ \<Rightarrow> Sgx_Success))"

section \<open>Random bytes\<close>

definition RDRAND_RETRY_TIMES :: nat where
  "RDRAND_RETRY_TIMES = 10"

fun rdrand_retry :: "'w tse_env \<Rightarrow> nat \<Rightarrow> ('w, SgxStatus, nat) rust" where
  "rdrand_retry env 0 = bail Sgx_Unexpected"
| "rdrand_retry env (Suc k) =
     and_then (call (te_rdrand env)) (\<lambda>r. case r of Some n \<Rightarrow> ret n | None \<Rightarrow> rdrand_retry env k)"

definition rdrand :: "'w tse_env \<Rightarrow> ('w, SgxStatus, nat) rust" where
  "rdrand env = rdrand_retry env RDRAND_RETRY_TIMES"

function rand_fill :: "'w tse_env \<Rightarrow> nat \<Rightarrow> ('w, SgxStatus, byte list) rust" where
  "rand_fill env left_len =
     (if left_len = 0 then ret []
      else and_then (rdrand env) (\<lambda>rand_num.
        let copy_len = min left_len 4 in
        and_then (rand_fill env (left_len - copy_len)) (\<lambda>bs.
          ret (take copy_len (le_bytes 4 rand_num) @ bs))))"
  by pat_completeness auto
termination by (relation "measure snd") auto

declare rand_fill.simps [simp del]

text \<open>\<open>rand(buf)\<close> for a buffer of \<open>len\<close> bytes at \<open>buf\<close>: the bytes it is filled with.\<close>

definition rand :: "'w tse_env \<Rightarrow> usize \<Rightarrow> nat \<Rightarrow> ('w tse, SgxStatus, byte list) rust" where
  "rand env buf len =
     seq (ensure (in_enclave env buf len \<or> in_host env buf len) Sgx_InvalidParameter)
         (on_tse_world (rand_fill env len))"

section \<open>Reports\<close>

definition of_sum :: "(nat \<Rightarrow> SgxStatus) \<Rightarrow> nat + 'a \<Rightarrow> ('s, SgxStatus, 'a) rust" where
  "of_sum f r = (case r of Inl e \<Rightarrow> bail (f e) | Inr a \<Rightarrow> ret a)"

definition report_for_self :: "'w tse_env \<Rightarrow> ('w tse, SgxStatus, Report) rust" where
  "report_for_self env = of_sum (\<lambda>_. Sgx_Unexpected) (te_ereport env target_info_default report_data_default)"

text \<open>\<open>AlignReport::for_target\<close> on copies on the stack, and \<open>Report::for_target\<close>, which checks its arguments first.\<close>

definition align_report_for_target :: "'w tse_env \<Rightarrow> TargetInfo \<Rightarrow> byte list \<Rightarrow> ('w tse, SgxStatus, Report) rust" where
  "align_report_for_target env target_info report_data =
     seq (ensure (in_enclave env (te_stack env) 512 \<and> in_enclave env (te_stack env) 128) Sgx_InvalidParameter)
         (of_sum (\<lambda>_. Sgx_Unexpected) (te_ereport env target_info report_data))"

definition report_for_target ::
    "'w tse_env \<Rightarrow> usize \<times> TargetInfo \<Rightarrow> usize \<times> byte list \<Rightarrow> ('w tse, SgxStatus, Report) rust" where
  "report_for_target env ti rd =
     seq (ensure (in_enclave env (fst ti) 512 \<and> in_enclave env (fst rd) 64) Sgx_InvalidParameter)
         (align_report_for_target env (snd ti) (snd rd))"

text \<open>The report of the enclave itself is asked for once; if that fails, the static variable is still zero.\<close>

definition get_self :: "'w tse_env \<Rightarrow> ('w tse, SgxStatus, Report) rust" where
  "get_self env =
     and_then (gets ts_report) (\<lambda>cached. case cached of
         Some report \<Rightarrow> ret report
       | None \<Rightarrow> and_then (attempt (report_for_self env)) (\<lambda>r. case r of
             Inl e \<Rightarrow> ret report_default
           | Inr report \<Rightarrow> seq (modify (\<lambda>s. s\<lparr>ts_report := Some report\<rparr>)) (ret report)))"

definition INVALID_LEAF :: nat where
  "INVALID_LEAF = 2 ^ 1"

definition INVALID_ATTRIBUTE :: nat where
  "INVALID_ATTRIBUTE = 2 ^ 1"

definition INVALID_REPORTMACSTRUCT :: nat where
  "INVALID_REPORTMACSTRUCT = 2 ^ 4 + 2 ^ 3 + 2 ^ 2"

definition INVALID_CPUSVN :: nat where
  "INVALID_CPUSVN = 2 ^ 5"

definition INVALID_ISVSVN :: nat where
  "INVALID_ISVSVN = 2 ^ 6"

definition INVALID_KEYNAME :: nat where
  "INVALID_KEYNAME = 2 ^ 8"

abbreviation Sgx_UnsupportedFeature :: SgxStatus where
  "Sgx_UnsupportedFeature \<equiv> SgxStatus 0x8"

abbreviation Sgx_InvalidCpusvn :: SgxStatus where
  "Sgx_InvalidCpusvn \<equiv> SgxStatus 0x3003"

abbreviation Sgx_InvalidIsvsvn :: SgxStatus where
  "Sgx_InvalidIsvsvn \<equiv> SgxStatus 0x3004"

abbreviation Sgx_InvalidKeyname :: SgxStatus where
  "Sgx_InvalidKeyname \<equiv> SgxStatus 0x3005"

definition egetkey_error :: "nat \<Rightarrow> SgxStatus" where
  "egetkey_error e =
     (if e = INVALID_ATTRIBUTE then Sgx_InvalidAttribute
      else if e = INVALID_CPUSVN then Sgx_InvalidCpusvn
      else if e = INVALID_ISVSVN then Sgx_InvalidIsvsvn
      else if e = INVALID_KEYNAME then Sgx_InvalidKeyname
      else Sgx_Unexpected)"

section \<open>Keys\<close>

definition egetkey :: "'w tse_env \<Rightarrow> SgxKeyRequest \<Rightarrow> ('w tse, SgxStatus, key128) rust" where
  "egetkey env kr =
     seq (ensure (in_enclave env (te_stack env) 512) Sgx_InvalidParameter)
    (seq (ensure (kq_reserved1 kr = 0) Sgx_InvalidParameter)
    (seq (ensure (kq_reserved2 kr = replicate 434 0) Sgx_InvalidParameter)
    (seq (ensure (key_policy_is_valid (kq_key_policy kr)) Sgx_InvalidParameter)
    (and_then (get_self env) (\<lambda>report.
     seq (ensure (\<not> (and (at_flags (rb_attributes (rp_body report))) ATTRIBUTES_KSS = 0
            \<and> (and (kq_key_policy kr) (or KEY_POLICY_KSS KEY_POLICY_NOISVPRODID) \<noteq> 0 \<or> kq_config_svn kr > 0)))
            Sgx_InvalidParameter)
         (of_sum egetkey_error (te_egetkey env kr)))))))"

text \<open>The request at address \<open>p\<close>.\<close>

definition get_align_key :: "'w tse_env \<Rightarrow> usize \<Rightarrow> SgxKeyRequest \<Rightarrow> ('w tse, SgxStatus, key128) rust" where
  "get_align_key env p kr = seq (ensure (in_enclave env p 512) Sgx_InvalidParameter) (egetkey env kr)"

definition report_verify :: "'w tse_env \<Rightarrow> usize \<Rightarrow> Report \<Rightarrow> ('w tse, SgxStatus, unit) rust" where
  "report_verify env p r =
     seq (ensure (in_enclave env p 432) Sgx_InvalidParameter)
    (seq (ensure (in_enclave env (te_stack env) 512) Sgx_InvalidParameter)
    (and_then (egetkey env (key_request_default\<lparr>kq_key_name := KEY_NAME_REPORT, kq_key_id := rp_key_id r\<rparr>)) (\<lambda>key.
       case cmac (te_crypto env) key (report_body_bytes (rp_body r)) of
         Ok report_mac \<Rightarrow> ensure (report_mac = rp_mac r) Sgx_MacMismatch
       | Err e \<Rightarrow> bail e
       | Panic \<Rightarrow> panic)))"

definition report2_verify :: "'w tse_env \<Rightarrow> usize \<Rightarrow> byte list \<Rightarrow> ('w tse, SgxStatus, unit) rust" where
  "report2_verify env p r =
     seq (ensure (in_enclave env p 256) Sgx_InvalidParameter)
    (seq (ensure (in_enclave env (te_stack env) 256) Sgx_InvalidParameter)
         (let e = te_everify_report2 env r in
          if e = 0 then ret ()
          else bail (if e = INVALID_REPORTMACSTRUCT then Sgx_MacMismatch
                     else if e = INVALID_CPUSVN then Sgx_InvalidCpusvn
                     else if e = INVALID_LEAF then Sgx_UnsupportedFeature
                     else Sgx_Unexpected)))"

section \<open>The target of a report\<close>

text \<open>\<open>LAv2ProtoSpec\<close>: each entry after the first names a field by its offset in the report and the logarithm of its size.\<close>

record LAv2ProtoSpec =
  la_signature :: "byte list"
  la_ver :: nat
  la_rev :: nat
  la_target_spec :: "nat list"

definition LAV2_PROTO_SPEC :: LAv2ProtoSpec where
  "LAV2_PROTO_SPEC =
     \<lparr>la_signature = [0x53, 0x47, 0x58, 0x20, 0x4C, 0x41], la_ver = 2, la_rev = 0,
      la_target_spec = [0x0600, 0x0405, 0x0304, 0x0140, 0x1041, 0x0102, 0x0C06] @ replicate 21 0\<rparr>"

definition ts_count :: "LAv2ProtoSpec \<Rightarrow> nat" where
  "ts_count la = la_target_spec la ! 0 div 256"

definition la_is_valid :: "LAv2ProtoSpec \<Rightarrow> bool" where
  "la_is_valid la \<longleftrightarrow> la_ver la = 2 \<and> la_rev la = 0 \<and> la_target_spec la ! 0 mod 256 = 0 \<and> ts_count la < 28"

text \<open>
  The loop copies into the bytes \<open>d\<close> of the target from the bytes \<open>f\<close> of the report. \<open>to\<close> is rounded up to
  the size of the field; the offset read from a \<open>u16\<close> is never negative, so the other branches
  of the loop are not reached.
\<close>

primrec make_target_loop :: "nat list \<Rightarrow> int \<Rightarrow> byte list \<Rightarrow> byte list \<Rightarrow> (SgxStatus, byte list) res" where
  "make_target_loop [] to f d = Ok d"
| "make_target_loop (spec # specs) to f d =
     (let sz = 2 ^ (spec mod 16);
          to = and (to + int sz - 1) (- int sz);
          from = spec div 16
      in if \<not> nat to + sz \<le> 512 then Err Sgx_Unexpected
         else if \<not> from + sz \<le> 432 then Err Sgx_Unexpected
         else make_target_loop specs (to + int sz) f
                (take (nat to) d @ take sz (drop from f) @ drop (nat to + sz) d))"

definition make_target_info :: "LAv2ProtoSpec \<Rightarrow> Report \<Rightarrow> (SgxStatus, TargetInfo) res" where
  "make_target_info la report =
     (if \<not> la_is_valid la then Err Sgx_InvalidParameter
      else case make_target_loop (take (ts_count la) (drop 1 (la_target_spec la))) 0 (report_bytes report) (replicate 512 0) of
        Ok d \<Rightarrow> Ok (target_info_of_bytes d)
      | Err e \<Rightarrow> Err e
      | Panic \<Rightarrow> Panic)"

definition to_target :: "Report \<Rightarrow> (SgxStatus, TargetInfo) res" where
  "to_target report = make_target_info LAV2_PROTO_SPEC report"

text \<open>The other way from a report to a target, \<open>From<Report> for AlignTargetInfo\<close>.\<close>

definition target_info_from :: "Report \<Rightarrow> TargetInfo" where
  "target_info_from r =
     target_info_default\<lparr>ti_mr_enclave := rb_mr_enclave (rp_body r), ti_attributes := rb_attributes (rp_body r),
       ti_config_svn := rb_config_svn (rp_body r), ti_misc_select := rb_misc_select (rp_body r),
       ti_config_id := rb_config_id (rp_body r)\<rparr>"

definition target_for_self :: "'w tse_env \<Rightarrow> ('w tse, SgxStatus, TargetInfo) rust" where
  "target_for_self env = and_then (get_self env) (\<lambda>r. case to_target r of Ok t \<Rightarrow> ret t | Err e \<Rightarrow> bail e | Panic \<Rightarrow> panic)"

section \<open>The C interface of sgx_tse\<close>

definition sgx_create_report :: "'w tse_env \<Rightarrow> usize \<Rightarrow> usize \<Rightarrow> usize \<Rightarrow> ('w tse, SgxStatus, SgxStatus) rust" where
  "sgx_create_report env target_info report_data report = c_status (
     seq (ensure (report \<noteq> 0) Sgx_InvalidParameter)
    (and_then
       (if target_info = 0 \<and> report_data = 0 then report_for_self env
        else
          and_then (if target_info = 0 then ret (te_stack env, target_info_default)
            else and_then (load target_info 512) (\<lambda>ti. ret (target_info, target_info_of_bytes ti))) (\<lambda>ti.
          and_then (if report_data = 0 then ret (te_stack env, report_data_default)
            else and_then (load report_data 64) (\<lambda>rd. ret (report_data, rd))) (\<lambda>rd.
            report_for_target env ti rd)))
       (\<lambda>r. store report (report_bytes r))))"

definition sgx_self_report :: "'w tse_env \<Rightarrow> ('w tse, SgxStatus, usize) rust" where
  "sgx_self_report env = seq (get_self env) (ret (te_self_report env))"

definition sgx_verify_report :: "'w tse_env \<Rightarrow> usize \<Rightarrow> ('w tse, SgxStatus, SgxStatus) rust" where
  "sgx_verify_report env report = c_status (
     seq (ensure (report \<noteq> 0) Sgx_InvalidParameter)
    (and_then (load report 432) (\<lambda>r. report_verify env report (report_of_bytes r))))"

definition sgx_self_target :: "'w tse_env \<Rightarrow> usize \<Rightarrow> ('w tse, SgxStatus, SgxStatus) rust" where
  "sgx_self_target env target_info = c_status (
     seq (ensure (target_info \<noteq> 0) Sgx_InvalidParameter)
    (and_then (target_for_self env) (\<lambda>t. store target_info (target_info_bytes t))))"

definition sgx_get_key :: "'w tse_env \<Rightarrow> usize \<Rightarrow> usize \<Rightarrow> ('w tse, SgxStatus, SgxStatus) rust" where
  "sgx_get_key env key_request key = c_status (
     seq (ensure (\<not> (key_request = 0 \<or> key = 0)) Sgx_InvalidParameter)
    (and_then (load key_request 512) (\<lambda>kr.
     and_then (get_align_key env key_request (key_request_of_bytes kr)) (\<lambda>k. store key k))))"

definition sgx_verify_report2 :: "'w tse_env \<Rightarrow> usize \<Rightarrow> ('w tse, SgxStatus, SgxStatus) rust" where
  "sgx_verify_report2 env report_mac = c_status (
     seq (ensure (report_mac \<noteq> 0) Sgx_InvalidParameter)
    (and_then (load report_mac 256) (\<lambda>r. report2_verify env report_mac r)))"

section \<open>Well-formed structures\<close>

definition attributes_ok :: "Attributes \<Rightarrow> bool" where
  "attributes_ok a \<longleftrightarrow> at_xfrm a < 256 ^ 8"

definition key_request_ok :: "SgxKeyRequest \<Rightarrow> bool" where
  "key_request_ok k \<longleftrightarrow> kq_key_name k < 256 ^ 2 \<and> kq_isv_svn k < 256 ^ 2 \<and> kq_reserved1 k < 256 ^ 2 \<and> length (kq_cpu_svn k) = 16
     \<and> attributes_ok (kq_attribute_mask k) \<and> length (kq_key_id k) = 32 \<and> kq_misc_mask k < 256 ^ 4 \<and> kq_config_svn k < 256 ^ 2
     \<and> length (kq_reserved2 k) = 434"

definition report_body_ok :: "ReportBody \<Rightarrow> bool" where
  "report_body_ok b \<longleftrightarrow> length (rb_cpu_svn b) = 16 \<and> rb_misc_select b < 256 ^ 4 \<and> length (rb_reserved1 b) = 12
     \<and> length (rb_isv_ext_prod_id b) = 16 \<and> attributes_ok (rb_attributes b) \<and> length (rb_mr_enclave b) = 32
     \<and> length (rb_reserved2 b) = 32 \<and> length (rb_mr_signer b) = 32 \<and> length (rb_reserved3 b) = 32 \<and> length (rb_config_id b) = 64
     \<and> rb_isv_prod_id b < 256 ^ 2 \<and> rb_isv_svn b < 256 ^ 2 \<and> rb_config_svn b < 256 ^ 2 \<and> length (rb_reserved4 b) = 42
     \<and> length (rb_isv_family_id b) = 16 \<and> length (rb_report_data b) = 64"

definition report_ok :: "Report \<Rightarrow> bool" where
  "report_ok r \<longleftrightarrow> report_body_ok (rp_body r) \<and> length (rp_key_id r) = 32 \<and> length (rp_mac r) = 16"

lemma length_attributes_bytes [simp]: "length (attributes_bytes a) = 16"
  by (simp add: attributes_bytes_def)

lemma word64_bytes: "of_le (le_bytes 8 (unat (w :: 64 word))) = unat w"
  using unsigned_less [where 'a = nat, of w] by (simp add: of_le_le_bytes)

lemma attributes_roundtrip: "attributes_ok a \<Longrightarrow> attributes_of_bytes (attributes_bytes a) = a"
  by (simp add: attributes_ok_def attributes_bytes_def attributes_of_bytes_def word64_bytes of_le_le_bytes)

lemma length_key_request_bytes: "key_request_ok k \<Longrightarrow> length (key_request_bytes k) = 512"
  by (simp add: key_request_ok_def key_request_bytes_def)

lemma key_request_roundtrip: "key_request_ok k \<Longrightarrow> key_request_of_bytes (key_request_bytes k) = k"
  by (simp add: key_request_ok_def key_request_bytes_def key_request_of_bytes_def of_le_le_bytes word16_bytes attributes_roundtrip)

lemma length_report_body_bytes: "report_body_ok b \<Longrightarrow> length (report_body_bytes b) = 384"
  by (simp add: report_body_ok_def report_body_bytes_def)

lemma length_report_bytes: "report_ok r \<Longrightarrow> length (report_bytes r) = 432"
  by (simp add: report_ok_def report_bytes_def length_report_body_bytes)

text \<open>The fields of a report that a target has, by their places.\<close>

lemma report_fields:
  assumes "report_ok r"
  shows "take 32 (drop 64 (report_bytes r)) = rb_mr_enclave (rp_body r)"
    "take 16 (drop 48 (report_bytes r)) = attributes_bytes (rb_attributes (rp_body r))"
    "take 1 (drop 20 (report_bytes r)) = [hd (rb_reserved1 (rp_body r))]"
    "take 2 (drop 260 (report_bytes r)) = le_bytes 2 (rb_config_svn (rp_body r))"
    "take 4 (drop 16 (report_bytes r)) = le_bytes 4 (rb_misc_select (rp_body r))"
    "take 64 (drop 192 (report_bytes r)) = rb_config_id (rp_body r)"
proof -
  have "take 1 (rb_reserved1 (rp_body r)) = [hd (rb_reserved1 (rp_body r))]"
    using assms by (cases "rb_reserved1 (rp_body r)") (auto simp: report_ok_def report_body_ok_def)
  then show "take 1 (drop 20 (report_bytes r)) = [hd (rb_reserved1 (rp_body r))]"
    using assms by (simp add: report_ok_def report_body_ok_def report_bytes_def report_body_bytes_def)
qed (use assms in \<open>simp_all add: report_ok_def report_body_ok_def report_bytes_def report_body_bytes_def\<close>)

lemma spec_entries:
  "la_is_valid LAV2_PROTO_SPEC"
  "take (ts_count LAV2_PROTO_SPEC) (drop (Suc 0) (la_target_spec LAV2_PROTO_SPEC)) = [0x0405, 0x0304, 0x0140, 0x1041, 0x0102, 0x0C06]"
  by (simp_all add: la_is_valid_def ts_count_def LAV2_PROTO_SPEC_def)

lemma make_target_bytes:
  assumes "length a = 32" "length b = 16" "length e = 2" "length g = 4" "length h = 64"
    and "take 32 (drop 64 f) = a" "take 16 (drop 48 f) = b" "take 1 (drop 20 f) = [c]" "21 \<le> length f" "take 2 (drop 260 f) = e"
    "take 4 (drop 16 f) = g" "take 64 (drop 192 f) = h"
  shows "make_target_loop [0x0405, 0x0304, 0x0140, 0x1041, 0x0102, 0x0C06] 0 f (replicate 512 0)
    = Ok (a @ b @ [c, 0] @ e @ g @ replicate 8 0 @ h @ replicate 384 0)"
  using assms(1-5) by (simp add: assms(6-12) assms(8) [unfolded One_nat_def] min_def Let_def numeral_2_eq_2 [symmetric])

text \<open>
  C19: the target made of a report by the table of offsets and sizes is the target of the enclave: it has the measurement,
  the attributes, the configuration and the selected state of the report. It is what the direct conversion gives, and
  the CET attributes as well, which the conversion leaves out.
\<close>

theorem to_target_exact:
  assumes "report_ok r"
  shows "to_target r = Ok ((target_info_from r)\<lparr>ti_reserved1 := [hd (rb_reserved1 (rp_body r)), 0]\<rparr>)"
proof -
  note f = report_fields [OF assms]
  note b = make_target_bytes [OF _ _ _ _ _ f(1-3) _ f(4-6)]
  show ?thesis
    using assms
    by (simp add: to_target_def make_target_info_def spec_entries b report_ok_def report_body_ok_def target_info_of_bytes_def
        target_info_from_def target_info_default_def attributes_roundtrip of_le_le_bytes length_report_bytes [OF assms] f f(3) [unfolded One_nat_def])
qed

lemma report_default_ok: "report_ok report_default"
  by (simp add: report_ok_def report_body_ok_def report_default_def attributes_default_def attributes_ok_def report_data_default_def)

theorem to_target_exact_witness:
  "to_target (report_default\<lparr>rp_body := (rp_body report_default)\<lparr>rb_config_svn := 7, rb_mr_enclave := replicate 32 5\<rparr>\<rparr>)
   = Ok (target_info_default\<lparr>ti_config_svn := 7, ti_mr_enclave := replicate 32 5\<rparr>)"
  using to_target_exact [of "report_default\<lparr>rp_body := (rp_body report_default)\<lparr>rb_config_svn := 7, rb_mr_enclave := replicate 32 5\<rparr>\<rparr>"] report_default_ok
  by (simp add: report_ok_def report_body_ok_def target_info_from_def report_default_def target_info_default_def numeral_2_eq_2)

section \<open>What is relied on\<close>

text \<open>
  Every enclave satisfies \<open>tse_env_ok\<close>: the stack and what the allocator returns lie in the enclave, and the instructions
  return structures of their sizes. A state is good when the cached report is the one the instruction gives.
\<close>

definition tse_env_ok :: "'w tse_env \<Rightarrow> bool" where
  "tse_env_ok env \<longleftrightarrow> crypto_ok (te_crypto env) \<and> elrange_ok (te_platform env) \<and> in_enclave env (te_stack env) 1024
     \<and> (\<forall>n p w w'. te_alloc env n w = (Some p, w') \<longrightarrow> 0 < n \<longrightarrow> in_enclave env p n)
     \<and> (\<forall>ti rd r. te_ereport env ti rd = Inr r \<longrightarrow> report_ok r)"

text \<open>The allocator has room for a block of a size up to \<open>n\<close>.\<close>

definition enough :: "'w tse_env \<Rightarrow> nat \<Rightarrow> bool" where
  "enough env n \<longleftrightarrow> (\<forall>k w. 0 < k \<and> k \<le> n \<longrightarrow> fst (te_alloc env k w) \<noteq> None)"

lemma enough_mono: "enough env n \<Longrightarrow> k \<le> n \<Longrightarrow> enough env k"
  by (auto simp: enough_def)

definition self_report :: "'w tse_env \<Rightarrow> Report" where
  "self_report env = (case te_ereport env target_info_default report_data_default of Inl _ \<Rightarrow> report_default | Inr r \<Rightarrow> r)"

definition tse_ok :: "'w tse_env \<Rightarrow> 'w tse \<Rightarrow> bool" where
  "tse_ok env s \<longleftrightarrow> (case ts_report s of None \<Rightarrow> True | Some r \<Rightarrow> te_ereport env target_info_default report_data_default = Inr r)"

lemma self_report_ok: "tse_env_ok env \<Longrightarrow> report_ok (self_report env)"
  by (auto simp: self_report_def tse_env_ok_def report_default_ok split: sum.splits)

text \<open>What the operations leave alone: the memory behind C pointers, and the cached report.\<close>

definition calm :: "'w tse_env \<Rightarrow> 'w tse \<Rightarrow> 'w tse \<Rightarrow> bool" where
  "calm env s t \<longleftrightarrow> tse_ok env t \<and> ts_mem t = ts_mem s"

lemma calm_refl: "tse_ok env s \<Longrightarrow> calm env s s"
  by (simp add: calm_def)

lemma calm_trans: "calm env s t \<Longrightarrow> calm env t u \<Longrightarrow> calm env s u"
  by (simp add: calm_def)

lemma calm_ok: "calm env s t \<Longrightarrow> tse_ok env t"
  by (simp add: calm_def)

lemma calm_world [simp]: "calm env s (t\<lparr>ts_world := w\<rparr>) \<longleftrightarrow> calm env s t"
  by (simp add: calm_def tse_ok_def)

lemma in_enclave_sub:
  assumes "tse_env_ok env" "in_enclave env p n" "p \<le> q" "q + k \<le> p + n" "0 < k"
  shows "in_enclave env q k"
proof -
  have e: "elrange_ok (te_platform env)" using assms(1) by (simp add: tse_env_ok_def)
  have n: "0 < n" using assms(3-5) by simp
  have "{q ..< q + k} \<subseteq> {p ..< p + n}" using assms(3,4) by auto
  then show ?thesis using assms(2) is_within_enclave_iff [OF e n] is_within_enclave_iff [OF e assms(5)] by blast
qed

lemma stack_in_enclave: "tse_env_ok env \<Longrightarrow> 0 < k \<Longrightarrow> k \<le> 1024 \<Longrightarrow> in_enclave env (te_stack env) k"
  by (rule in_enclave_sub [of _ "te_stack env" 1024]) (simp_all add: tse_env_ok_def)

text \<open>However often it is asked for, the report of the enclave is the same.\<close>

lemma twp_get_self:
  assumes "tse_ok env s" "\<And>t. calm env s t \<Longrightarrow> P (self_report env) t"
  shows "twp (get_self env) P Q s"
proof (cases "ts_report s")
  case None
  then show ?thesis
    using assms(2) [of s] assms(2) [of "s\<lparr>ts_report := Some (self_report env)\<rparr>"] assms(1)
    by (auto simp: get_self_def report_for_self_def of_sum_def twp tse_ok_def calm_def self_report_def split: sum.splits)
next
  case (Some r)
  then show ?thesis using assms(1) assms(2) [of s]
    by (auto simp: get_self_def twp tse_ok_def calm_def self_report_def)
qed

text \<open>The key of a request: a function of the request, for the same enclave on the same processor.\<close>

definition key_of :: "'w tse_env \<Rightarrow> SgxKeyRequest \<Rightarrow> SgxStatus + key128" where
  "key_of env kr =
     (if kq_reserved1 kr \<noteq> 0 \<or> kq_reserved2 kr \<noteq> replicate 434 0 \<or> \<not> key_policy_is_valid (kq_key_policy kr)
        \<or> and (at_flags (rb_attributes (rp_body (self_report env)))) ATTRIBUTES_KSS = 0
            \<and> (and (kq_key_policy kr) (or KEY_POLICY_KSS KEY_POLICY_NOISVPRODID) \<noteq> 0 \<or> kq_config_svn kr > 0)
      then Inl Sgx_InvalidParameter
      else case te_egetkey env kr of Inl e \<Rightarrow> Inl (egetkey_error e) | Inr key \<Rightarrow> Inr key)"

lemma twp_get_align_key:
  assumes "tse_env_ok env" "tse_ok env s" "in_enclave env p 512"
    and "\<And>t. calm env s t \<Longrightarrow> case key_of env kr of Inl e \<Rightarrow> Q e t | Inr key \<Rightarrow> P key t"
  shows "twp (get_align_key env p kr) P Q s"
proof -
  have "in_enclave env (te_stack env) 512" using assms(1) by (rule stack_in_enclave) simp_all
  moreover have "twp (get_self env) (\<lambda>report. twp
      (seq (ensure (\<not> (and (at_flags (rb_attributes (rp_body report))) ATTRIBUTES_KSS = 0
            \<and> (and (kq_key_policy kr) (or KEY_POLICY_KSS KEY_POLICY_NOISVPRODID) \<noteq> 0 \<or> kq_config_svn kr > 0)))
            Sgx_InvalidParameter)
         (of_sum egetkey_error (te_egetkey env kr))) P Q) Q s"
    if "kq_reserved1 kr = 0" "kq_reserved2 kr = replicate 434 0" "key_policy_is_valid (kq_key_policy kr)"
  proof (rule twp_get_self [OF assms(2)])
    fix t assume "calm env s t"
    from assms(4) [OF this] show "twp (seq (ensure (\<not> (and (at_flags (rb_attributes (rp_body (self_report env)))) ATTRIBUTES_KSS = 0
            \<and> (and (kq_key_policy kr) (or KEY_POLICY_KSS KEY_POLICY_NOISVPRODID) \<noteq> 0 \<or> kq_config_svn kr > 0)))
            Sgx_InvalidParameter) (of_sum egetkey_error (te_egetkey env kr))) P Q t"
      using that by (auto simp: key_of_def of_sum_def twp split: sum.splits if_splits)
  qed
  ultimately show ?thesis
    using assms(4) [OF calm_refl [OF assms(2)]] assms(3)
    by (auto simp: get_align_key_def egetkey_def twp key_of_def)
qed

section \<open>Random bytes are enough\<close>

lemma rdrand_retry_returns: "twp (rdrand_retry env k) (\<lambda>_ _. True) (\<lambda>e _. e = Sgx_Unexpected) w"
proof (induction k arbitrary: w)
  case (Suc k)
  then show ?case by (auto simp: twp split: prod.splits option.splits)
qed (simp add: twp)

lemma rand_fill_returns: "twp (rand_fill env n) (\<lambda>bs _. length bs = n) (\<lambda>e _. e = Sgx_Unexpected) w"
proof (induction n arbitrary: w rule: less_induct)
  case (less n)
  show ?case
  proof (cases "n = 0")
    case False
    have "twp (rdrand env) (\<lambda>r. twp (let copy_len = min n 4 in and_then (rand_fill env (n - copy_len))
        (\<lambda>bs. ret (take copy_len (le_bytes 4 r) @ bs))) (\<lambda>bs _. length bs = n) (\<lambda>e _. e = Sgx_Unexpected)) (\<lambda>e _. e = Sgx_Unexpected) w"
      unfolding rdrand_def Let_def twp_and_then twp_ret
      by (rule twp_conseq [OF rdrand_retry_returns]) (use False in \<open>auto intro!: twp_conseq [OF less.IH]\<close>)
    then show ?thesis by (subst rand_fill.simps) (simp add: False twp_and_then)
  qed (simp add: rand_fill.simps twp)
qed

lemma twp_rand:
  assumes "tse_env_ok env" "tse_ok env s" "\<And>bs t. calm env s t \<Longrightarrow> length bs = 32 \<Longrightarrow> P bs t" "\<And>t. calm env s t \<Longrightarrow> Q Sgx_Unexpected t"
  shows "twp (rand env (te_stack env) 32) P Q s"
  using assms stack_in_enclave [OF assms(1), of 32] calm_refl [OF assms(2)]
  by (auto simp: rand_def on_tse_world_def twp intro!: twp_conseq [OF rand_fill_returns])

end
