(* ===== verification/Tseal.thy ===== *)
theory Tseal
  imports Tse
begin

text \<open>
  Sealing data, \<open>sgx_tseal\<close>: data is encrypted, or only authenticated, under a key that the processor derives for the enclave or its signer;
  the sealed data carries the request for that key. \<open>InnerSealedData\<close> (\<open>internal.rs\<close>) works on bytes, \<open>SealedData\<close> (\<open>seal.rs\<close>) and
  \<open>MacAad\<close> (\<open>aad.rs\<close>) are typed views of it, and \<open>capi.rs\<close> is the C interface. A slice is its address and its bytes.
\<close>

section \<open>Data\<close>

record slice =
  sl_ptr :: usize
  sl_bytes :: "byte list"

abbreviation sl_len :: "slice \<Rightarrow> nat" where
  "sl_len x \<equiv> length (sl_bytes x)"

record Payload =
  pl_len :: nat
  pl_tag :: mac128
  pl_ciphertext :: slice
  pl_aad :: slice

record InnerSealedData =
  sd_key_request :: SgxKeyRequest
  sd_payload :: Payload

record InnerUnsealedData =
  ud_payload_len :: nat
  ud_plaintext :: slice
  ud_aad :: slice

definition U32_MAX :: nat where
  "U32_MAX = 0xFFFFFFFF"

text \<open>\<open>size_of::<CSealedData>()\<close>: the key request, the offset and the header of the payload, with 12 reserved bytes each.\<close>

definition SEALED_HEADER :: nat where
  "SEALED_HEADER = 512 + (4 + 12) + (4 + 12 + 16)"

definition TSEAL_DEFAULT_MISCMASK :: nat where
  "TSEAL_DEFAULT_MISCMASK = U32_MAX - 0x0FFFFFFF"

text \<open>The sizes of the Rust structures, and the place of the payload behind the key request.\<close>

definition SIZE_PAYLOAD :: nat where
  "SIZE_PAYLOAD = 56"

definition SIZE_SEALED :: nat where
  "SIZE_SEALED = 512 + SIZE_PAYLOAD"

definition SIZE_UNSEALED :: nat where
  "SIZE_UNSEALED = 40"

definition slice_enclave_range :: "'w tse_env \<Rightarrow> slice \<Rightarrow> bool" where
  "slice_enclave_range env x = in_enclave env (sl_ptr x) (sl_len x)"

definition slice_host_range :: "'w tse_env \<Rightarrow> slice \<Rightarrow> bool" where
  "slice_host_range env x = in_host env (sl_ptr x) (sl_len x)"

text \<open>A boxed slice: an empty one has no memory and the dangling pointer of its alignment. The enclave aborts when there is no memory left.\<close>

definition boxed :: "'w tse_env \<Rightarrow> byte list \<Rightarrow> ('w tse, SgxStatus, slice) rust" where
  "boxed env bs =
     (if bs = [] then ret \<lparr>sl_ptr = 1, sl_bytes = []\<rparr>
      else and_then (on_tse_world (call (te_alloc env (length bs)))) (\<lambda>r. case r of
        Some p \<Rightarrow> ret \<lparr>sl_ptr = p, sl_bytes = bs\<rparr>
      | None \<Rightarrow> panic))"

definition of_gcm :: "(SgxStatus, 'a) res \<Rightarrow> ('s, SgxStatus, 'a) rust" where
  "of_gcm r = (case r of Ok a \<Rightarrow> ret a | Err e \<Rightarrow> bail e | Panic \<Rightarrow> panic)"

section \<open>Sizes and bytes\<close>

definition raw_sealed_data_size :: "nat \<Rightarrow> nat \<Rightarrow> nat option" where
  "raw_sealed_data_size aad_len plaintext_len =
     (if aad_len > U32_MAX - plaintext_len then None
      else let payload_len = aad_len + plaintext_len in
        if payload_len > U32_MAX - SEALED_HEADER then None
        else Some (SEALED_HEADER + payload_len))"

definition aad_len :: "InnerSealedData \<Rightarrow> nat" where
  "aad_len sd =
     (let data_len = sl_len (pl_aad (sd_payload sd))
      in if data_len > pl_len (sd_payload sd) \<or> data_len \<ge> U32_MAX then U32_MAX else data_len)"

definition ciphertext_len :: "InnerSealedData \<Rightarrow> nat" where
  "ciphertext_len sd =
     (let data_len = sl_len (pl_ciphertext (sd_payload sd))
      in if data_len > pl_len (sd_payload sd) \<or> data_len \<ge> U32_MAX then U32_MAX else data_len)"

text \<open>\<open>raw[a..b].copy_from_slice(src)\<close>: the range must be in the slice and as long as the source.\<close>

definition copy_range :: "byte list \<Rightarrow> nat \<Rightarrow> nat \<Rightarrow> byte list \<Rightarrow> ('s, 'e, byte list) rust" where
  "copy_range raw a b src =
     seq (rassert (a \<le> b \<and> b \<le> length raw)) (seq (rassert (length src = b - a))
         (ret (take a raw @ src @ drop b raw)))"

definition put_field :: "nat \<Rightarrow> byte list \<Rightarrow> byte list \<Rightarrow> byte list" where
  "put_field off bs raw = take off raw @ bs @ drop (off + length bs) raw"

definition to_bytes :: "InnerSealedData \<Rightarrow> ('w tse, SgxStatus, byte list) rust" where
  "to_bytes sd =
     and_then (ok_or (raw_sealed_data_size (aad_len sd) (ciphertext_len sd)) Sgx_Unexpected) (\<lambda>raw_len.
     let raw = replicate raw_len 0; header_len = SEALED_HEADER; clen = sl_len (pl_ciphertext (sd_payload sd)) in
     and_then (copy_range raw header_len (header_len + clen) (sl_bytes (pl_ciphertext (sd_payload sd)))) (\<lambda>raw.
     and_then (if sl_bytes (pl_aad (sd_payload sd)) \<noteq> []
               then copy_range raw (header_len + clen) (length raw) (sl_bytes (pl_aad (sd_payload sd)))
               else ret raw) (\<lambda>raw.
     ret (put_field 544 (pl_tag (sd_payload sd))
         (put_field 528 (le_bytes 4 (pl_len (sd_payload sd)))
         (put_field 512 (le_bytes 4 clen)
         (put_field 0 (key_request_bytes (sd_key_request sd)) raw)))))))"

text \<open>The parts of the sealed data, copied out of bytes whose sizes were checked.\<close>

definition sealed_parts :: "'w tse_env \<Rightarrow> byte list \<Rightarrow> nat \<Rightarrow> nat \<Rightarrow> ('w tse, SgxStatus, InnerSealedData) rust" where
  "sealed_parts env bytes clen payload_size =
     and_then (boxed env (take clen (drop SEALED_HEADER bytes))) (\<lambda>ciphertext.
     and_then (boxed env (drop (SEALED_HEADER + clen) bytes)) (\<lambda>aad.
     ret \<lparr>sd_key_request = key_request_of_bytes (take 512 bytes),
          sd_payload = \<lparr>pl_len = payload_size, pl_tag = take 16 (drop 544 bytes), pl_ciphertext = ciphertext, pl_aad = aad\<rparr>\<rparr>))"

definition from_slice :: "'w tse_env \<Rightarrow> slice \<Rightarrow> ('w tse, SgxStatus, InnerSealedData) rust" where
  "from_slice env raw =
     seq (ensure (slice_enclave_range env raw) Sgx_InvalidParameter)
    (seq (ensure (sl_len raw \<ge> SEALED_HEADER) Sgx_InvalidParameter)
    (let bytes = sl_bytes raw;
         plaintext_offset = of_le (take 4 (drop 512 bytes));
         payload_size = of_le (take 4 (drop 528 bytes))
     in
     seq (ensure (plaintext_offset \<le> payload_size) Sgx_InvalidParameter)
    (let aad_len = payload_size - plaintext_offset; ciphertext_len = plaintext_offset in
     seq (ensure (ciphertext_len + aad_len = payload_size) Sgx_InvalidParameter)
    (and_then (ok_or (raw_sealed_data_size aad_len ciphertext_len) Sgx_InvalidParameter) (\<lambda>raw_len.
     seq (ensure (sl_len raw = raw_len) Sgx_InvalidParameter)
         (sealed_parts env bytes ciphertext_len payload_size))))))"

text \<open>\<open>from_bytes\<close> checks the whole capacity of the vector first.\<close>

definition from_bytes :: "'w tse_env \<Rightarrow> slice \<Rightarrow> nat \<Rightarrow> ('w tse, SgxStatus, InnerSealedData) rust" where
  "from_bytes env raw capacity =
     seq (ensure (in_enclave env (sl_ptr raw) capacity) Sgx_InvalidParameter) (from_slice env raw)"

section \<open>Where the data is\<close>

definition payload_enclave_range :: "'w tse_env \<Rightarrow> usize \<Rightarrow> Payload \<Rightarrow> bool" where
  "payload_enclave_range env p pl \<longleftrightarrow> in_enclave env p SIZE_PAYLOAD
     \<and> (sl_bytes (pl_ciphertext pl) \<noteq> [] \<longrightarrow> slice_enclave_range env (pl_ciphertext pl))
     \<and> (sl_bytes (pl_aad pl) \<noteq> [] \<longrightarrow> slice_enclave_range env (pl_aad pl))"

definition payload_host_range :: "'w tse_env \<Rightarrow> usize \<Rightarrow> Payload \<Rightarrow> bool" where
  "payload_host_range env p pl \<longleftrightarrow> in_host env p SIZE_PAYLOAD
     \<and> (sl_bytes (pl_ciphertext pl) \<noteq> [] \<longrightarrow> slice_host_range env (pl_ciphertext pl))
     \<and> (sl_bytes (pl_aad pl) \<noteq> [] \<longrightarrow> slice_host_range env (pl_aad pl))"

definition sealed_enclave_range :: "'w tse_env \<Rightarrow> usize \<Rightarrow> InnerSealedData \<Rightarrow> bool" where
  "sealed_enclave_range env p sd \<longleftrightarrow> in_enclave env p SIZE_SEALED \<and> payload_enclave_range env (p + 512) (sd_payload sd)"

definition sealed_host_range :: "'w tse_env \<Rightarrow> usize \<Rightarrow> InnerSealedData \<Rightarrow> bool" where
  "sealed_host_range env p sd \<longleftrightarrow> in_host env p SIZE_SEALED \<and> payload_host_range env (p + 512) (sd_payload sd)"

definition inner_unsealed_enclave_range :: "'w tse_env \<Rightarrow> usize \<Rightarrow> InnerUnsealedData \<Rightarrow> bool" where
  "inner_unsealed_enclave_range env p ud \<longleftrightarrow> in_enclave env p SIZE_UNSEALED
     \<and> (sl_bytes (ud_plaintext ud) \<noteq> [] \<longrightarrow> slice_enclave_range env (ud_plaintext ud))
     \<and> (sl_bytes (ud_aad ud) \<noteq> [] \<longrightarrow> slice_enclave_range env (ud_aad ud))"

definition inner_unsealed_host_range :: "'w tse_env \<Rightarrow> usize \<Rightarrow> InnerUnsealedData \<Rightarrow> bool" where
  "inner_unsealed_host_range env p ud \<longleftrightarrow> in_host env p SIZE_UNSEALED
     \<and> (sl_bytes (ud_plaintext ud) \<noteq> [] \<longrightarrow> slice_host_range env (ud_plaintext ud))
     \<and> (sl_bytes (ud_aad ud) \<noteq> [] \<longrightarrow> slice_host_range env (ud_aad ud))"

section \<open>Sealing\<close>

text \<open>What \<open>seal_data_helper\<close> does once it has the key.\<close>

definition seal_under ::
    "'w tse_env \<Rightarrow> key128 \<Rightarrow> slice \<Rightarrow> slice \<Rightarrow> SgxKeyRequest \<Rightarrow> ('w tse, SgxStatus, InnerSealedData) rust" where
  "seal_under env key plaintext aad key_request =
     and_then (of_gcm (gcm_new key nonce_zeroed (sl_bytes aad))) (\<lambda>aes.
     and_then (boxed env (replicate (sl_len plaintext) 0)) (\<lambda>ciphertext.
     case gcm_encrypt (te_crypto env) aes (sl_bytes plaintext) (sl_bytes ciphertext) of (result, dst) \<Rightarrow>
     and_then (of_gcm result) (\<lambda>tag.
     and_then (boxed env (sl_bytes aad)) (\<lambda>aad'.
     ret \<lparr>sd_key_request = key_request,
          sd_payload = \<lparr>pl_len = (sl_len plaintext + sl_len aad) mod 2 ^ 32, pl_tag = tag,
            pl_ciphertext = ciphertext\<lparr>sl_bytes := dst\<rparr>, pl_aad = aad'\<rparr>\<rparr>))))"

definition seal_data_helper ::
    "'w tse_env \<Rightarrow> slice \<Rightarrow> slice \<Rightarrow> SgxKeyRequest \<Rightarrow> ('w tse, SgxStatus, InnerSealedData) rust" where
  "seal_data_helper env plaintext aad key_request =
     and_then (get_align_key env (te_stack env) key_request) (\<lambda>key. seal_under env key plaintext aad key_request)"

text \<open>The request that \<open>seal_with_key_policy\<close> and \<open>mac_with_key_policy\<close> build.\<close>

definition seal_request :: "Report \<Rightarrow> KeyPolicy \<Rightarrow> Attributes \<Rightarrow> nat \<Rightarrow> byte list \<Rightarrow> SgxKeyRequest" where
  "seal_request report key_policy attribute_mask misc_mask key_id =
     key_request_default\<lparr>kq_key_name := KEY_NAME_SEAL, kq_key_policy := key_policy, kq_isv_svn := rb_isv_svn (rp_body report),
       kq_cpu_svn := rb_cpu_svn (rp_body report), kq_attribute_mask := attribute_mask, kq_key_id := key_id,
       kq_misc_mask := misc_mask, kq_config_svn := rb_config_svn (rp_body report)\<rparr>"

text \<open>The checks both make of the policy and the mask.\<close>

definition check_policy :: "KeyPolicy \<Rightarrow> Attributes \<Rightarrow> ('s, SgxStatus, unit) rust" where
  "check_policy key_policy attribute_mask =
     seq (ensure (key_policy_is_valid key_policy) Sgx_InvalidParameter)
    (seq (ensure (and key_policy (or KEY_POLICY_MRENCLAVE KEY_POLICY_MRSIGNER) \<noteq> 0) Sgx_InvalidParameter)
         (ensure (and (at_flags attribute_mask) (or ATTRIBUTES_INITTED ATTRIBUTES_DEBUG) = or ATTRIBUTES_INITTED ATTRIBUTES_DEBUG)
            Sgx_InvalidParameter))"

definition seal_with_key_policy ::
    "'w tse_env \<Rightarrow> KeyPolicy \<Rightarrow> Attributes \<Rightarrow> nat \<Rightarrow> slice \<Rightarrow> slice option \<Rightarrow> ('w tse, SgxStatus, InnerSealedData) rust" where
  "seal_with_key_policy env key_policy attribute_mask misc_mask plaintext aad =
     (let aad_len = (case aad of Some aad \<Rightarrow> sl_len aad | None \<Rightarrow> 0); plaintext_len = sl_len plaintext in
     seq (ensure (aad_len < U32_MAX) Sgx_InvalidParameter)
    (seq (ensure (1 \<le> plaintext_len \<and> plaintext_len < U32_MAX) Sgx_InvalidParameter)
    (seq (ensure (raw_sealed_data_size aad_len plaintext_len \<noteq> None) Sgx_InvalidParameter)
    (seq (check_policy key_policy attribute_mask)
    (seq (ensure (slice_enclave_range env plaintext) Sgx_InvalidParameter)
    (let aad = (case aad of Some aad \<Rightarrow> aad | None \<Rightarrow> \<lparr>sl_ptr = te_stack env, sl_bytes = []\<rparr>) in
     seq (ensure (aad_len > 0 \<longrightarrow> slice_enclave_range env aad \<or> slice_host_range env aad) Sgx_InvalidParameter)
    (and_then (rand env (te_stack env) 32) (\<lambda>key_id.
     and_then (get_self env) (\<lambda>report.
     seal_data_helper env plaintext aad (seal_request report key_policy attribute_mask misc_mask key_id))))))))))"

text \<open>The default policy and mask of \<open>seal\<close> and \<open>mac\<close>.\<close>

definition default_policy :: "Report \<Rightarrow> KeyPolicy" where
  "default_policy report =
     (if and (at_flags (rb_attributes (rp_body report))) ATTRIBUTES_KSS \<noteq> 0 then or KEY_POLICY_MRSIGNER KEY_POLICY_KSS
      else KEY_POLICY_MRSIGNER)"

definition default_mask :: Attributes where
  "default_mask = \<lparr>at_flags = ATTRIBUTES_DEFAULT_MASK, at_xfrm = 0\<rparr>"

definition seal :: "'w tse_env \<Rightarrow> slice \<Rightarrow> slice option \<Rightarrow> ('w tse, SgxStatus, InnerSealedData) rust" where
  "seal env plaintext aad =
     and_then (get_self env) (\<lambda>report.
       seal_with_key_policy env (default_policy report) default_mask TSEAL_DEFAULT_MISCMASK plaintext aad)"

text \<open>Unsealing hides why no key could be had, but for three reasons. The sealed data is at \<open>p\<close>, and the request in it.\<close>

definition unseal_key_error :: "SgxStatus \<Rightarrow> SgxStatus" where
  "unseal_key_error e =
     (if e = Sgx_InvalidCpusvn \<or> e = Sgx_InvalidIsvsvn \<or> e = Sgx_OutOfMemory then e else Sgx_MacMismatch)"

definition unseal_under :: "'w tse_env \<Rightarrow> key128 \<Rightarrow> InnerSealedData \<Rightarrow> ('w tse, SgxStatus, InnerUnsealedData) rust" where
  "unseal_under env key sd =
     and_then (boxed env (replicate (sl_len (pl_ciphertext (sd_payload sd))) 0)) (\<lambda>plaintext.
     and_then (of_gcm (gcm_new key nonce_zeroed (sl_bytes (pl_aad (sd_payload sd))))) (\<lambda>aes.
     case gcm_decrypt (te_crypto env) aes (sl_bytes (pl_ciphertext (sd_payload sd))) (sl_bytes plaintext)
         (pl_tag (sd_payload sd)) of (result, dst) \<Rightarrow>
     seq (of_gcm result)
    (and_then (boxed env (sl_bytes (pl_aad (sd_payload sd)))) (\<lambda>aad.
     ret \<lparr>ud_payload_len = pl_len (sd_payload sd), ud_plaintext = plaintext\<lparr>sl_bytes := dst\<rparr>, ud_aad = aad\<rparr>))))"

definition unseal_data_helper :: "'w tse_env \<Rightarrow> usize \<Rightarrow> InnerSealedData \<Rightarrow> ('w tse, SgxStatus, InnerUnsealedData) rust" where
  "unseal_data_helper env p sd =
     and_then (map_err unseal_key_error (get_align_key env p (sd_key_request sd))) (\<lambda>key. unseal_under env key sd)"

definition unseal :: "'w tse_env \<Rightarrow> usize \<Rightarrow> InnerSealedData \<Rightarrow> ('w tse, SgxStatus, InnerUnsealedData) rust" where
  "unseal env p sd =
     seq (ensure (sealed_enclave_range env p sd) Sgx_InvalidParameter) (unseal_data_helper env p sd)"

section \<open>Authenticating only\<close>

definition mac_under :: "'w tse_env \<Rightarrow> key128 \<Rightarrow> slice \<Rightarrow> SgxKeyRequest \<Rightarrow> ('w tse, SgxStatus, InnerSealedData) rust" where
  "mac_under env key aad key_request =
     and_then (of_gcm (gcm_new key nonce_zeroed (sl_bytes aad))) (\<lambda>aes.
     and_then (of_gcm (gcm_mac (te_crypto env) aes)) (\<lambda>tag.
     and_then (boxed env []) (\<lambda>ciphertext.
     and_then (boxed env (sl_bytes aad)) (\<lambda>aad'.
     ret \<lparr>sd_key_request = key_request,
          sd_payload = \<lparr>pl_len = sl_len aad mod 2 ^ 32, pl_tag = tag, pl_ciphertext = ciphertext, pl_aad = aad'\<rparr>\<rparr>))))"

definition mac_data_helper :: "'w tse_env \<Rightarrow> slice \<Rightarrow> SgxKeyRequest \<Rightarrow> ('w tse, SgxStatus, InnerSealedData) rust" where
  "mac_data_helper env aad key_request =
     and_then (get_align_key env (te_stack env) key_request) (\<lambda>key. mac_under env key aad key_request)"

definition mac_with_key_policy ::
    "'w tse_env \<Rightarrow> KeyPolicy \<Rightarrow> Attributes \<Rightarrow> nat \<Rightarrow> slice \<Rightarrow> ('w tse, SgxStatus, InnerSealedData) rust" where
  "mac_with_key_policy env key_policy attribute_mask misc_mask aad =
     seq (ensure (1 \<le> sl_len aad \<and> sl_len aad < U32_MAX) Sgx_InvalidParameter)
    (seq (ensure (raw_sealed_data_size (sl_len aad) 0 \<noteq> None) Sgx_InvalidParameter)
    (seq (check_policy key_policy attribute_mask)
    (seq (ensure (slice_enclave_range env aad \<or> slice_host_range env aad) Sgx_InvalidParameter)
    (and_then (rand env (te_stack env) 32) (\<lambda>key_id.
     and_then (get_self env) (\<lambda>report.
     mac_data_helper env aad (seal_request report key_policy attribute_mask misc_mask key_id)))))))"

definition mac :: "'w tse_env \<Rightarrow> slice \<Rightarrow> ('w tse, SgxStatus, InnerSealedData) rust" where
  "mac env aad =
     and_then (get_self env) (\<lambda>report.
       mac_with_key_policy env (default_policy report) default_mask TSEAL_DEFAULT_MISCMASK aad)"

definition verify_under :: "'w tse_env \<Rightarrow> key128 \<Rightarrow> InnerSealedData \<Rightarrow> ('w tse, SgxStatus, InnerUnsealedData) rust" where
  "verify_under env key sd =
     and_then (of_gcm (gcm_new key nonce_zeroed (sl_bytes (pl_aad (sd_payload sd))))) (\<lambda>aes.
     seq (of_gcm (gcm_verify_mac (te_crypto env) aes (pl_tag (sd_payload sd))))
    (and_then (boxed env []) (\<lambda>plaintext.
     and_then (boxed env (sl_bytes (pl_aad (sd_payload sd)))) (\<lambda>aad.
     ret \<lparr>ud_payload_len = pl_len (sd_payload sd), ud_plaintext = plaintext, ud_aad = aad\<rparr>))))"

definition verify_data_helper :: "'w tse_env \<Rightarrow> usize \<Rightarrow> InnerSealedData \<Rightarrow> ('w tse, SgxStatus, InnerUnsealedData) rust" where
  "verify_data_helper env p sd =
     and_then (map_err unseal_key_error (get_align_key env p (sd_key_request sd))) (\<lambda>key. verify_under env key sd)"

definition verify :: "'w tse_env \<Rightarrow> usize \<Rightarrow> InnerSealedData \<Rightarrow> ('w tse, SgxStatus, InnerUnsealedData) rust" where
  "verify env p sd =
     seq (ensure (sealed_enclave_range env p sd) Sgx_InvalidParameter) (verify_data_helper env p sd)"

section \<open>Typed views\<close>

text \<open>
  A box of a type: its address, the bytes that are allocated there, and the number of bytes that a value of the type
  takes. \<open>SealedData<T>\<close> and \<open>MacAad<T>\<close> are the bytes with a type; a value of type \<open>T\<close> is passed as the slice of its bytes.
\<close>

record tbox =
  tb_ptr :: usize
  tb_bytes :: "byte list"
  tb_size :: nat

record UnsealedData =
  us_payload_size :: nat
  us_plaintext :: tbox
  us_aad :: slice

definition sealed_data_seal :: "'w tse_env \<Rightarrow> slice \<Rightarrow> slice option \<Rightarrow> ('w tse, SgxStatus, InnerSealedData) rust" where
  "sealed_data_seal env data aad = seq (ensure (sl_len data \<noteq> 0) Sgx_InvalidParameter) (seal env data aad)"

definition sealed_data_seal_with_key_policy ::
    "'w tse_env \<Rightarrow> KeyPolicy \<Rightarrow> Attributes \<Rightarrow> nat \<Rightarrow> slice \<Rightarrow> slice option \<Rightarrow> ('w tse, SgxStatus, InnerSealedData) rust" where
  "sealed_data_seal_with_key_policy env key_policy attribute_mask misc_mask data aad =
     seq (ensure (sl_len data \<noteq> 0) Sgx_InvalidParameter)
         (seal_with_key_policy env key_policy attribute_mask misc_mask data aad)"

text \<open>\<open>SealedData<T>::unseal\<close> for a type of \<open>size\<close> bytes casts the pointer.\<close>

definition sealed_data_unseal :: "'w tse_env \<Rightarrow> nat \<Rightarrow> usize \<Rightarrow> InnerSealedData \<Rightarrow> ('w tse, SgxStatus, UnsealedData) rust" where
  "sealed_data_unseal env size_t p sd =
     and_then (unseal env p sd) (\<lambda>inner.
       ret \<lparr>us_payload_size = ud_payload_len inner,
            us_plaintext = \<lparr>tb_ptr = sl_ptr (ud_plaintext inner), tb_bytes = sl_bytes (ud_plaintext inner), tb_size = size_t\<rparr>,
            us_aad = ud_aad inner\<rparr>)"

text \<open>
  \<open>SealedData<[T]>::unseal\<close> transmutes the boxed slice of bytes: the length, which counts elements, stays the same.
\<close>

definition sealed_slice_unseal :: "'w tse_env \<Rightarrow> nat \<Rightarrow> usize \<Rightarrow> InnerSealedData \<Rightarrow> ('w tse, SgxStatus, UnsealedData) rust" where
  "sealed_slice_unseal env size_t p sd =
     and_then (unseal env p sd) (\<lambda>inner.
       ret \<lparr>us_payload_size = ud_payload_len inner,
            us_plaintext = \<lparr>tb_ptr = sl_ptr (ud_plaintext inner), tb_bytes = sl_bytes (ud_plaintext inner),
              tb_size = sl_len (ud_plaintext inner) * size_t\<rparr>,
            us_aad = ud_aad inner\<rparr>)"

definition unseal_from_bytes ::
    "'w tse_env \<Rightarrow> nat \<Rightarrow> slice \<Rightarrow> nat \<Rightarrow> ('w tse, SgxStatus, UnsealedData) rust" where
  "unseal_from_bytes env size_t data capacity =
     and_then (from_bytes env data capacity) (\<lambda>sd. sealed_data_unseal env size_t (te_stack env) sd)"

definition unseal_from_slice :: "'w tse_env \<Rightarrow> nat \<Rightarrow> slice \<Rightarrow> ('w tse, SgxStatus, UnsealedData) rust" where
  "unseal_from_slice env size_t data =
     and_then (from_slice env data) (\<lambda>sd. sealed_data_unseal env size_t (te_stack env) sd)"

definition unseal_slice_from_bytes ::
    "'w tse_env \<Rightarrow> nat \<Rightarrow> slice \<Rightarrow> nat \<Rightarrow> ('w tse, SgxStatus, UnsealedData) rust" where
  "unseal_slice_from_bytes env size_t data capacity =
     and_then (from_bytes env data capacity) (\<lambda>sd. sealed_slice_unseal env size_t (te_stack env) sd)"

definition unseal_slice_from_slice :: "'w tse_env \<Rightarrow> nat \<Rightarrow> slice \<Rightarrow> ('w tse, SgxStatus, UnsealedData) rust" where
  "unseal_slice_from_slice env size_t data =
     and_then (from_slice env data) (\<lambda>sd. sealed_slice_unseal env size_t (te_stack env) sd)"

definition unsealed_enclave_range :: "'w tse_env \<Rightarrow> usize \<Rightarrow> nat \<Rightarrow> UnsealedData \<Rightarrow> bool" where
  "unsealed_enclave_range env p size_self us \<longleftrightarrow> in_enclave env p size_self
     \<and> in_enclave env (tb_ptr (us_plaintext us)) (tb_size (us_plaintext us))
     \<and> (sl_bytes (us_aad us) \<noteq> [] \<longrightarrow> slice_enclave_range env (us_aad us))"

definition unsealed_host_range :: "'w tse_env \<Rightarrow> usize \<Rightarrow> nat \<Rightarrow> UnsealedData \<Rightarrow> bool" where
  "unsealed_host_range env p size_self us \<longleftrightarrow> in_host env p size_self
     \<and> in_host env (tb_ptr (us_plaintext us)) (tb_size (us_plaintext us))
     \<and> (sl_bytes (us_aad us) \<noteq> [] \<longrightarrow> slice_host_range env (us_aad us))"

definition mac_aad_mac :: "'w tse_env \<Rightarrow> slice \<Rightarrow> ('w tse, SgxStatus, InnerSealedData) rust" where
  "mac_aad_mac env aad = seq (ensure (sl_len aad \<noteq> 0) Sgx_InvalidParameter) (mac env aad)"

definition mac_aad_mac_with_key_policy ::
    "'w tse_env \<Rightarrow> KeyPolicy \<Rightarrow> Attributes \<Rightarrow> nat \<Rightarrow> slice \<Rightarrow> ('w tse, SgxStatus, InnerSealedData) rust" where
  "mac_aad_mac_with_key_policy env key_policy attribute_mask misc_mask aad =
     seq (ensure (sl_len aad \<noteq> 0) Sgx_InvalidParameter)
         (mac_with_key_policy env key_policy attribute_mask misc_mask aad)"

definition mac_aad_unmac :: "'w tse_env \<Rightarrow> nat \<Rightarrow> usize \<Rightarrow> InnerSealedData \<Rightarrow> ('w tse, SgxStatus, tbox) rust" where
  "mac_aad_unmac env size_t p sd =
     and_then (verify env p sd) (\<lambda>inner.
       ret \<lparr>tb_ptr = sl_ptr (ud_aad inner), tb_bytes = sl_bytes (ud_aad inner), tb_size = size_t\<rparr>)"

definition mac_slice_unmac :: "'w tse_env \<Rightarrow> nat \<Rightarrow> usize \<Rightarrow> InnerSealedData \<Rightarrow> ('w tse, SgxStatus, tbox) rust" where
  "mac_slice_unmac env size_t p sd =
     and_then (verify env p sd) (\<lambda>inner.
       ret \<lparr>tb_ptr = sl_ptr (ud_aad inner), tb_bytes = sl_bytes (ud_aad inner), tb_size = sl_len (ud_aad inner) * size_t\<rparr>)"

definition sealed_tag :: "InnerSealedData \<Rightarrow> mac128" where
  "sealed_tag sd = pl_tag (sd_payload sd)"

definition sealed_payload_size :: "InnerSealedData \<Rightarrow> nat" where
  "sealed_payload_size sd = pl_len (sd_payload sd)"

end
