(* ===== verification/Tseal_Props.thy ===== *)
theory Tseal_Props
  imports Tseal
begin

text \<open>
  What sealing promises: sealed data is unsealed to what it was made of, through the bytes it is stored as, under every policy; bytes and
  sealed data correspond; nothing panics; and what the typed views do not check.
\<close>

section \<open>Boxes and sizes\<close>

lemma twp_boxed:
  assumes "tse_env_ok env" "enough env (length bs)" "tse_ok env s"
    and "\<And>p t. calm env s t \<Longrightarrow> (bs \<noteq> [] \<Longrightarrow> in_enclave env p (length bs)) \<Longrightarrow> P \<lparr>sl_ptr = p, sl_bytes = bs\<rparr> t"
  shows "twp (boxed env bs) P Q s"
proof (cases "bs = []")
  case True
  then show ?thesis using assms(4) [OF calm_refl [OF assms(3)]] by (simp add: boxed_def twp)
next
  case False
  obtain r w where "te_alloc env (length bs) (ts_world s) = (r, w)" by fastforce
  moreover have "fst (te_alloc env (length bs) (ts_world s)) \<noteq> None" using assms(2) False by (simp add: enough_def)
  ultimately obtain p where a: "te_alloc env (length bs) (ts_world s) = (Some p, w)" by (cases r) auto
  then have "in_enclave env p (length bs)" using assms(1) False by (auto simp: tse_env_ok_def)
  then show ?thesis using assms(4) [of "s\<lparr>ts_world := w\<rparr>" p] False a calm_refl [OF assms(3)]
    by (simp add: boxed_def on_tse_world_def twp)
qed

lemma raw_size_iff: "raw_sealed_data_size a c = Some n \<longleftrightarrow> n = 560 + a + c \<and> n \<le> U32_MAX"
  by (auto simp: raw_sealed_data_size_def SEALED_HEADER_def U32_MAX_def Let_def)

lemma raw_size_Some: "560 + a + c \<le> U32_MAX \<Longrightarrow> raw_sealed_data_size a c = Some (560 + a + c)"
  by (simp add: raw_size_iff)

section \<open>Sealed data and its bytes\<close>

text \<open>Sealed data is well formed when its parts have the sizes of the header and it fits into 32 bits.\<close>

definition sealed_ok :: "InnerSealedData \<Rightarrow> bool" where
  "sealed_ok sd \<longleftrightarrow> key_request_ok (sd_key_request sd) \<and> length (pl_tag (sd_payload sd)) = 16
     \<and> pl_len (sd_payload sd) = sl_len (pl_ciphertext (sd_payload sd)) + sl_len (pl_aad (sd_payload sd))
     \<and> 560 + pl_len (sd_payload sd) \<le> U32_MAX"

definition sealed_bytes :: "InnerSealedData \<Rightarrow> byte list" where
  "sealed_bytes sd =
     key_request_bytes (sd_key_request sd) @ le_bytes 4 (sl_len (pl_ciphertext (sd_payload sd))) @ replicate 12 0
       @ le_bytes 4 (pl_len (sd_payload sd)) @ replicate 12 0 @ pl_tag (sd_payload sd)
       @ sl_bytes (pl_ciphertext (sd_payload sd)) @ sl_bytes (pl_aad (sd_payload sd))"

text \<open>Two sealed data with the same contents, wherever their boxes are.\<close>

definition same_sealed :: "InnerSealedData \<Rightarrow> InnerSealedData \<Rightarrow> bool" where
  "same_sealed sd sd' \<longleftrightarrow> sd_key_request sd' = sd_key_request sd \<and> pl_len (sd_payload sd') = pl_len (sd_payload sd)
     \<and> pl_tag (sd_payload sd') = pl_tag (sd_payload sd)
     \<and> sl_bytes (pl_ciphertext (sd_payload sd')) = sl_bytes (pl_ciphertext (sd_payload sd))
     \<and> sl_bytes (pl_aad (sd_payload sd')) = sl_bytes (pl_aad (sd_payload sd))"

definition boxes_ok :: "'w tse_env \<Rightarrow> InnerSealedData \<Rightarrow> bool" where
  "boxes_ok env sd \<longleftrightarrow> (sl_bytes (pl_ciphertext (sd_payload sd)) \<noteq> [] \<longrightarrow> slice_enclave_range env (pl_ciphertext (sd_payload sd)))
     \<and> (sl_bytes (pl_aad (sd_payload sd)) \<noteq> [] \<longrightarrow> slice_enclave_range env (pl_aad (sd_payload sd)))"

lemma sealed_lens:
  assumes "sealed_ok sd"
  shows "aad_len sd = sl_len (pl_aad (sd_payload sd))" "ciphertext_len sd = sl_len (pl_ciphertext (sd_payload sd))"
    "raw_sealed_data_size (aad_len sd) (ciphertext_len sd) = Some (560 + pl_len (sd_payload sd))"
proof -
  show a: "aad_len sd = sl_len (pl_aad (sd_payload sd))" "ciphertext_len sd = sl_len (pl_ciphertext (sd_payload sd))"
    using assms by (auto simp: sealed_ok_def aad_len_def ciphertext_len_def U32_MAX_def)
  show "raw_sealed_data_size (aad_len sd) (ciphertext_len sd) = Some (560 + pl_len (sd_payload sd))"
    using assms by (simp add: a raw_size_iff sealed_ok_def)
qed

lemma put_fields:
  assumes "length kr = 512" "length a = 4" "length b = 4" "length tag = 16"
  shows "put_field 544 tag (put_field 528 b (put_field 512 a (put_field 0 kr (replicate 560 0 @ rest))))
    = kr @ a @ replicate 12 0 @ b @ replicate 12 0 @ tag @ rest"
  using assms by (simp add: put_field_def)

lemma to_bytes_eq:
  assumes "sealed_ok sd"
  shows "to_bytes sd s = (Ok (sealed_bytes sd), s)"
proof -
  let ?c = "sl_bytes (pl_ciphertext (sd_payload sd))" and ?a = "sl_bytes (pl_aad (sd_payload sd))"
  have n: "pl_len (sd_payload sd) = length ?c + length ?a" using assms by (simp add: sealed_ok_def)
  have kr: "length (key_request_bytes (sd_key_request sd)) = 512" "length (pl_tag (sd_payload sd)) = 16"
    using assms length_key_request_bytes by (auto simp: sealed_ok_def)
  have "to_bytes sd s = (Ok (put_field 544 (pl_tag (sd_payload sd)) (put_field 528 (le_bytes 4 (pl_len (sd_payload sd)))
      (put_field 512 (le_bytes 4 (length ?c)) (put_field 0 (key_request_bytes (sd_key_request sd)) (replicate 560 0 @ ?c @ ?a))))), s)"
    using n by (simp add: to_bytes_def sealed_lens(3) [OF assms] copy_range_def rust_defs SEALED_HEADER_def Let_def)
  then show ?thesis using kr by (simp add: put_fields sealed_bytes_def)
qed

lemma sealed_bytes_fields:
  assumes "sealed_ok sd"
  shows "take 512 (sealed_bytes sd) = key_request_bytes (sd_key_request sd)"
    "take 4 (drop 512 (sealed_bytes sd)) = le_bytes 4 (sl_len (pl_ciphertext (sd_payload sd)))"
    "take 4 (drop 528 (sealed_bytes sd)) = le_bytes 4 (pl_len (sd_payload sd))"
    "take 16 (drop 544 (sealed_bytes sd)) = pl_tag (sd_payload sd)"
    "drop 560 (sealed_bytes sd) = sl_bytes (pl_ciphertext (sd_payload sd)) @ sl_bytes (pl_aad (sd_payload sd))"
    "length (sealed_bytes sd) = 560 + pl_len (sd_payload sd)"
  using assms length_key_request_bytes [of "sd_key_request sd"] by (auto simp: sealed_ok_def sealed_bytes_def)

lemma twp_from_slice_bytes:
  assumes "tse_env_ok env" "tse_ok env s" "sealed_ok sd" "slice_enclave_range env raw" "sl_bytes raw = sealed_bytes sd" "enough env (sl_len raw)"
  shows "twp (from_slice env raw) (\<lambda>sd' t. calm env s t \<and> same_sealed sd sd' \<and> boxes_ok env sd') (\<lambda>_ _. False) s"
proof -
  let ?c = "pl_ciphertext (sd_payload sd)" and ?a = "pl_aad (sd_payload sd)"
  have b: "sl_len ?c < 256 ^ 4" "pl_len (sd_payload sd) < 256 ^ 4" "key_request_ok (sd_key_request sd)"
      "pl_len (sd_payload sd) = sl_len ?c + sl_len ?a"
      "raw_sealed_data_size (sl_len ?a) (sl_len ?c) = Some (560 + pl_len (sd_payload sd))"
    using assms(3) sealed_lens [OF assms(3)] by (auto simp: sealed_ok_def U32_MAX_def)
  note f = sealed_bytes_fields [OF assms(3), folded assms(5)]
  have d: "drop (560 + sl_len ?c) (sl_bytes raw) = sl_bytes ?a"
    using arg_cong [OF f(5), of "drop (sl_len ?c)"] by (simp add: add.commute)
  have "twp (boxed env (sl_bytes ?c)) (\<lambda>ciphertext. twp (and_then (boxed env (sl_bytes ?a)) (\<lambda>aad.
       ret \<lparr>sd_key_request = sd_key_request sd, sd_payload = \<lparr>pl_len = pl_len (sd_payload sd), pl_tag = pl_tag (sd_payload sd),
            pl_ciphertext = ciphertext, pl_aad = aad\<rparr>\<rparr>))
       (\<lambda>sd' t. calm env s t \<and> same_sealed sd sd' \<and> boxes_ok env sd') (\<lambda>_ _. False)) (\<lambda>_ _. False) s"
    unfolding twp_and_then twp_ret
    by (rule twp_boxed [OF assms(1) _ assms(2)], rule enough_mono [OF assms(6)], use b f(6) in simp,
        rule twp_boxed [OF assms(1) enough_mono [OF assms(6)]])
       (use b f(6) in \<open>auto simp: same_sealed_def boxes_ok_def slice_enclave_range_def dest: calm_ok calm_trans\<close>)
  then have "twp (sealed_parts env (sl_bytes raw) (sl_len ?c) (pl_len (sd_payload sd)))
      (\<lambda>sd' t. calm env s t \<and> same_sealed sd sd' \<and> boxes_ok env sd') (\<lambda>_ _. False) s"
    using b f by (simp add: sealed_parts_def twp_and_then key_request_roundtrip d SEALED_HEADER_def)
  then show ?thesis
    using b assms(4) f by (simp add: from_slice_def twp Let_def SEALED_HEADER_def of_le_le_bytes)
qed

text \<open>Conversely, every 512 bytes are a key request.\<close>

lemma take_le_bound: "of_le (take k bs) < 256 ^ k"
proof -
  have "256 ^ length (take k bs) \<le> (256 :: nat) ^ k" by (rule power_increasing) simp_all
  then show ?thesis using of_le_bound [of "take k bs"] by (rule less_le_trans [rotated])
qed

lemma of_nat_le_word:
  assumes "length bs = 512"
  shows "unat (of_nat (of_le (take 2 (drop 2 bs))) :: 16 word) = of_le (take 2 (drop 2 bs))"
    "unat (of_nat (of_le (take 8 (take 16 (drop 24 bs)))) :: 64 word) = of_le (take 8 (take 16 (drop 24 bs)))"
  using take_le_bound [of 2 "drop 2 bs"] take_le_bound [of 8 "take 16 (drop 24 bs)"]
  by (simp_all add: unat_of_nat del: take_take)

lemma attributes_of_bytes_ok:
  assumes "length bs = 16"
  shows "attributes_ok (attributes_of_bytes bs)" "attributes_bytes (attributes_of_bytes bs) = bs"
proof -
  have "unat (of_nat (of_le (take 8 bs)) :: 64 word) = of_le (take 8 bs)"
    using take_le_bound [of 8 bs] by (simp add: unat_of_nat)
  then show "attributes_bytes (attributes_of_bytes bs) = bs"
    using assms le_bytes_of_take [of 0 8 bs] le_bytes_of_take [of 8 8 bs]
    by (simp add: attributes_bytes_def attributes_of_bytes_def)
  show "attributes_ok (attributes_of_bytes bs)"
    using take_le_bound [of 8 "drop 8 bs"] by (simp add: attributes_ok_def attributes_of_bytes_def)
qed

lemma key_request_of_bytes_ok:
  assumes "length bs = 512"
  shows "key_request_ok (key_request_of_bytes bs)" "key_request_bytes (key_request_of_bytes bs) = bs"
proof -
  have "length (take 16 (drop 24 bs)) = 16" using assms by simp
  note a = attributes_of_bytes_ok [OF this]
  show "key_request_ok (key_request_of_bytes bs)"
    using assms a(1) take_le_bound [of 2 bs] take_le_bound [of 2 "drop 4 bs"] take_le_bound [of 2 "drop 6 bs"]
      take_le_bound [of 4 "drop 72 bs"] take_le_bound [of 2 "drop 76 bs"]
    by (simp add: key_request_ok_def key_request_of_bytes_def)
  have p: "take k (drop n bs) @ drop (n + k) bs = drop n bs" for n k
    using append_take_drop_id [of k "drop n bs"] by (simp add: add.commute)
  have "key_request_bytes (key_request_of_bytes bs) = take 2 bs @ take 2 (drop 2 bs) @ take 2 (drop 4 bs) @ take 2 (drop 6 bs)
      @ take 16 (drop 8 bs) @ take 16 (drop 24 bs) @ take 32 (drop 40 bs) @ take 4 (drop 72 bs) @ take 2 (drop 76 bs) @ drop 78 bs"
    using assms le_bytes_of_take [of 0 2 bs]
    by (simp add: key_request_bytes_def key_request_of_bytes_def a(2) le_bytes_of_take of_nat_le_word)
  also have "\<dots> = bs"
    using p [of 2 76] p [of 4 72] p [of 16 24] p [of 32 40] p [of 16 8] p [of 2 6] p [of 2 4] p [of 2 2] p [of 2 0]
    by simp
  finally show "key_request_bytes (key_request_of_bytes bs) = bs" .
qed

text \<open>Sealed data read from bytes: they are its bytes, but for the reserved ones of the header.\<close>

definition reads :: "byte list \<Rightarrow> InnerSealedData \<Rightarrow> bool" where
  "reads bs sd \<longleftrightarrow> length (sealed_bytes sd) = length bs \<and> take 516 (sealed_bytes sd) = take 516 bs
     \<and> take 4 (drop 528 (sealed_bytes sd)) = take 4 (drop 528 bs) \<and> drop 544 (sealed_bytes sd) = drop 544 bs"

lemma reads_parts:
  assumes "length bs = 560 + n" "of_le (take 4 (drop 528 bs)) = n" "of_le (take 4 (drop 512 bs)) = c" "c \<le> n" "560 + n \<le> U32_MAX"
    and "sd = \<lparr>sd_key_request = key_request_of_bytes (take 512 bs), sd_payload = \<lparr>pl_len = n, pl_tag = take 16 (drop 544 bs),
        pl_ciphertext = \<lparr>sl_ptr = p, sl_bytes = take c (drop 560 bs)\<rparr>, pl_aad = \<lparr>sl_ptr = q, sl_bytes = drop (560 + c) bs\<rparr>\<rparr>\<rparr>"
  shows "sealed_ok sd" "reads bs sd"
proof -
  have "length (take 512 bs) = 512" using assms(1) by simp
  note kr = key_request_of_bytes_ok [OF this]
  show ok: "sealed_ok sd" using assms(1,4,5) kr(1) by (simp add: sealed_ok_def assms(6))
  have c: "le_bytes 4 c = take 4 (drop 512 bs)" "le_bytes 4 n = take 4 (drop 528 bs)"
    using assms(1-3) le_bytes_of_take [of 512 4 bs] le_bytes_of_take [of 528 4 bs] by simp_all
  have t: "take 512 bs @ take 4 (drop 512 bs) = take 516 bs" using take_add [of 512 4 bs] by simp
  have d: "take 16 (drop 544 bs) @ take c (drop 560 bs) @ drop (560 + c) bs = drop 544 bs"
    using append_take_drop_id [of c "drop 560 bs"] append_take_drop_id [of 16 "drop 544 bs"] by (simp add: add.commute)
  have "sealed_bytes sd = (take 512 bs @ take 4 (drop 512 bs)) @ replicate 12 0 @ take 4 (drop 528 bs) @ replicate 12 0
      @ (take 16 (drop 544 bs) @ take c (drop 560 bs) @ drop (560 + c) bs)"
    using assms(1,4) by (simp add: sealed_bytes_def assms(6) kr(2) c)
  then have "sealed_bytes sd = take 516 bs @ replicate 12 0 @ take 4 (drop 528 bs) @ replicate 12 0 @ drop 544 bs"
    unfolding t d .
  then show "reads bs sd" using assms(1) by (simp add: reads_def)
qed

lemma twp_from_slice:
  assumes "tse_env_ok env" "tse_ok env s" "enough env (sl_len raw)"
  shows "twp (from_slice env raw) (\<lambda>sd t. calm env s t \<and> sealed_ok sd \<and> boxes_ok env sd \<and> reads (sl_bytes raw) sd)
    (\<lambda>e t. e = Sgx_InvalidParameter \<and> calm env s t) s"
proof -
  let ?c = "of_le (take 4 (drop 512 (sl_bytes raw)))" and ?n = "of_le (take 4 (drop 528 (sl_bytes raw)))"
  let ?P = "\<lambda>sd t. calm env s t \<and> sealed_ok sd \<and> boxes_ok env sd \<and> reads (sl_bytes raw) sd" and ?Q = "\<lambda>e t. e = Sgx_InvalidParameter \<and> calm env s t"
  have h: "SEALED_HEADER = 560" by (simp add: SEALED_HEADER_def)
  have parts: "twp (sealed_parts env (sl_bytes raw) ?c ?n) ?P ?Q s"
    if n: "sl_len raw = 560 + ?n" "?c \<le> ?n" "560 + ?n \<le> U32_MAX"
    unfolding sealed_parts_def twp_and_then twp_ret h
    by (rule twp_boxed [OF assms(1) enough_mono [OF assms(3)] assms(2)], simp, rule twp_boxed [OF assms(1) enough_mono [OF assms(3)]])
       (auto simp: boxes_ok_def slice_enclave_range_def dest: calm_ok calm_trans intro!: reads_parts [OF n(1) refl refl n(2,3) refl])
  have s: "?Q Sgx_InvalidParameter s" using calm_refl [OF assms(2)] by simp
  have "case raw_sealed_data_size (?n - ?c) ?c of Some k \<Rightarrow> if sl_len raw = k then twp (sealed_parts env (sl_bytes raw) ?c ?n) ?P ?Q s
      else ?Q Sgx_InvalidParameter s | None \<Rightarrow> ?Q Sgx_InvalidParameter s" if "?c \<le> ?n"
  proof (cases "raw_sealed_data_size (?n - ?c) ?c")
    case (Some k)
    then have k: "k = 560 + ?n" "560 + ?n \<le> U32_MAX" using that by (auto simp: raw_size_iff)
    show ?thesis unfolding Some option.case k(1)
      using parts [OF _ that k(2)] s by (rule if_bool_eq_conj [THEN iffD2, OF conjI, OF impI impI])
  qed (use s in simp)
  then show ?thesis using s
    unfolding from_slice_def Let_def twp_seq twp_ensure twp_and_then twp_ok_or by simp
qed

section \<open>Sealing and unsealing\<close>

text \<open>Sealed data made of a plain text and associated data, and data that was authenticated only.\<close>

definition sealed_as :: "'w tse_env \<Rightarrow> byte list \<Rightarrow> byte list \<Rightarrow> InnerSealedData \<Rightarrow> bool" where
  "sealed_as env plain ad sd \<longleftrightarrow> sealed_ok sd \<and> sl_bytes (pl_aad (sd_payload sd)) = ad \<and> length ad < I32_MAX \<and> length plain < I32_MAX
     \<and> (\<exists>key. key_of env (sd_key_request sd) = Inr key \<and> rijndael128GCM_encrypt (te_crypto env) key plain nonce_zeroed ad
          = (Sgx_Success, sl_bytes (pl_ciphertext (sd_payload sd)), pl_tag (sd_payload sd)))"

definition maced_as :: "'w tse_env \<Rightarrow> byte list \<Rightarrow> InnerSealedData \<Rightarrow> bool" where
  "maced_as env ad sd \<longleftrightarrow> sealed_ok sd \<and> sl_bytes (pl_aad (sd_payload sd)) = ad \<and> sl_bytes (pl_ciphertext (sd_payload sd)) = [] \<and> ad \<noteq> []
     \<and> length ad < I32_MAX
     \<and> (\<exists>key dst. key_of env (sd_key_request sd) = Inr key \<and> rijndael128GCM_encrypt (te_crypto env) key [] nonce_zeroed ad
          = (Sgx_Success, dst, pl_tag (sd_payload sd)))"

lemma sealed_as_same: "sealed_as env plain ad sd \<Longrightarrow> same_sealed sd sd' \<Longrightarrow> sealed_as env plain ad sd'"
  by (auto simp: sealed_as_def same_sealed_def sealed_ok_def)

lemma maced_as_same: "maced_as env ad sd \<Longrightarrow> same_sealed sd sd' \<Longrightarrow> maced_as env ad sd'"
  by (auto simp: maced_as_def same_sealed_def sealed_ok_def)

lemma twp_ret_all: "twp (ret a) P Q = P a"
  by (simp add: fun_eq_iff twp_ret)

lemma twp_and_then_all: "twp (and_then m f) P Q = twp m (\<lambda>a. twp (f a) P Q) Q"
  by (simp add: fun_eq_iff twp_and_then)

lemma twp_of_gcm: "twp (of_gcm r) P Q s \<longleftrightarrow> (case r of Ok a \<Rightarrow> P a s | Err e \<Rightarrow> Q e s | Panic \<Rightarrow> False)"
  by (simp add: of_gcm_def twp split: res.splits)

lemma twp_gcm_new: "twp (of_gcm (gcm_new key iv aad)) P Q s \<longleftrightarrow>
    (if length aad < I32_MAX then P \<lparr>gcm_key = key, gcm_iv = iv, gcm_aad = aad\<rparr> s else Q Sgx_InvalidParameter s)"
  by (simp add: gcm_new_def twp_of_gcm)

lemma gcm_encrypt_cases:
  assumes "crypto_ok c" "gcm_encrypt c aes src (replicate (length src) 0) = (result, dst)"
  shows "result \<noteq> Panic \<and> length dst = length src \<and> (\<forall>tag. result = Ok tag \<longrightarrow> length src < I32_MAX \<and> length tag = 16
    \<and> rijndael128GCM_encrypt c (gcm_key aes) src (gcm_iv aes) (gcm_aad aes) = (Sgx_Success, dst, tag)) \<and> result \<noteq> Err Sgx_Success"
proof -
  obtain st d tag where e: "rijndael128GCM_encrypt c (gcm_key aes) src (gcm_iv aes) (gcm_aad aes) = (st, d, tag)" by (rule prod_cases3)
  from crypto_okD(1) [OF assms(1) e] assms(2) show ?thesis
    by (auto simp: gcm_encrypt_def e sgx_is_success_def split: if_splits)
qed

lemma key_of_error: "key_of env kr = Inl e \<Longrightarrow> e \<noteq> Sgx_Success"
  by (auto simp: key_of_def egetkey_error_def split: if_splits sum.splits)

lemma twp_seal_under:
  assumes "tse_env_ok env" "tse_ok env s" "key_request_ok kr" "560 + sl_len plain + sl_len ad \<le> U32_MAX" "key_of env kr = Inr key"
    and "enough env (sl_len plain + sl_len ad)"
  shows "twp (seal_under env key plain ad kr) (\<lambda>sd t. calm env s t \<and> boxes_ok env sd \<and> sealed_as env (sl_bytes plain) (sl_bytes ad) sd)
    (\<lambda>e t. calm env s t \<and> e \<noteq> Sgx_Success) s" (is "twp _ ?P ?Q s")
proof (cases "sl_len ad < I32_MAX")
  case True
  let ?aes = "\<lparr>gcm_key = key, gcm_iv = nonce_zeroed, gcm_aad = sl_bytes ad\<rparr>"
  have c: "crypto_ok (te_crypto env)" using assms(1) by (simp add: tse_env_ok_def)
  obtain result dst where e: "gcm_encrypt (te_crypto env) ?aes (sl_bytes plain) (replicate (sl_len plain) 0) = (result, dst)" by fastforce
  note g = gcm_encrypt_cases [OF c e]
  show ?thesis
    unfolding seal_under_def twp_and_then twp_gcm_new if_P [OF True]
  proof (rule twp_boxed [OF assms(1) enough_mono [OF assms(6)] assms(2)])
    fix p t assume t: "calm env s t" "replicate (sl_len plain) (0 :: byte) \<noteq> [] \<Longrightarrow> in_enclave env p (length (replicate (sl_len plain) (0 :: byte)))"
    have "twp (boxed env (sl_bytes ad)) (\<lambda>aad'. ?P \<lparr>sd_key_request = kr, sd_payload = \<lparr>pl_len = (sl_len plain + sl_len ad) mod 2 ^ 32,
        pl_tag = tag, pl_ciphertext = \<lparr>sl_ptr = p, sl_bytes = dst\<rparr>, pl_aad = aad'\<rparr>\<rparr>) ?Q t" if "result = Ok tag" for tag
      by (rule twp_boxed [OF assms(1) enough_mono [OF assms(6)] calm_ok [OF t(1)]])
         (use that g t(2) True assms(3-5) calm_trans [OF t(1)] in
           \<open>auto simp: boxes_ok_def slice_enclave_range_def sealed_as_def sealed_ok_def U32_MAX_def simp flip: length_greater_0_conv\<close>)
    then show "twp (case gcm_encrypt (te_crypto env) ?aes (sl_bytes plain) (sl_bytes \<lparr>sl_ptr = p, sl_bytes = replicate (sl_len plain) 0\<rparr>) of
         (result, dst) \<Rightarrow> and_then (of_gcm result) (\<lambda>tag. and_then (boxed env (sl_bytes ad)) (\<lambda>aad'.
           ret \<lparr>sd_key_request = kr, sd_payload = \<lparr>pl_len = (sl_len plain + sl_len ad) mod 2 ^ 32, pl_tag = tag,
             pl_ciphertext = \<lparr>sl_ptr = p, sl_bytes = replicate (sl_len plain) 0\<rparr>\<lparr>sl_bytes := dst\<rparr>, pl_aad = aad'\<rparr>\<rparr>))) ?P ?Q t"
      using t(1) g by (cases result) (auto simp: e twp_and_then twp_of_gcm twp_ret_all)
  qed simp
qed (use assms(2) in \<open>simp add: seal_under_def twp_and_then twp_gcm_new calm_refl\<close>)

lemma twp_seal_data_helper:
  assumes "tse_env_ok env" "tse_ok env s" "key_request_ok kr" "560 + sl_len plain + sl_len ad \<le> U32_MAX"
    and "enough env (sl_len plain + sl_len ad)"
  shows "twp (seal_data_helper env plain ad kr) (\<lambda>sd t. calm env s t \<and> boxes_ok env sd \<and> sealed_as env (sl_bytes plain) (sl_bytes ad) sd)
    (\<lambda>e t. calm env s t \<and> e \<noteq> Sgx_Success) s"
  unfolding seal_data_helper_def twp_and_then
proof (rule twp_get_align_key [OF assms(1,2)])
  fix t assume t: "calm env s t"
  show "case key_of env kr of Inl e \<Rightarrow> calm env s t \<and> e \<noteq> Sgx_Success | Inr key \<Rightarrow> twp (seal_under env key plain ad kr)
      (\<lambda>sd t. calm env s t \<and> boxes_ok env sd \<and> sealed_as env (sl_bytes plain) (sl_bytes ad) sd) (\<lambda>e t. calm env s t \<and> e \<noteq> Sgx_Success) t"
    using t calm_trans [OF t] key_of_error [of env kr] by (auto split: sum.split intro: twp_conseq [OF twp_seal_under [OF assms(1) calm_ok [OF t] assms(3,4) _ assms(5)]])
qed (use stack_in_enclave [OF assms(1)] in simp)

lemma self_request_ok:
  assumes "tse_env_ok env" "attributes_ok attr" "misc < 256 ^ 4" "length key_id = 32"
  shows "key_request_ok (seal_request (self_report env) policy attr misc key_id)"
  using self_report_ok [OF assms(1)] assms(2-4)
  by (simp add: seal_request_def key_request_ok_def key_request_default_def report_ok_def report_body_ok_def KEY_NAME_SEAL_def)

text \<open>The bytes of associated data that may be missing.\<close>

definition aad_bytes :: "slice option \<Rightarrow> byte list" where
  "aad_bytes aad = (case aad of Some a \<Rightarrow> sl_bytes a | None \<Rightarrow> [])"

lemma twp_seal_with_key_policy:
  assumes "tse_env_ok env" "tse_ok env s" "attributes_ok attr" "misc < 256 ^ 4" "enough env (sl_len plain + length (aad_bytes aad))"
  shows "twp (seal_with_key_policy env policy attr misc plain aad)
    (\<lambda>sd t. calm env s t \<and> boxes_ok env sd \<and> sealed_as env (sl_bytes plain) (aad_bytes aad) sd) (\<lambda>e t. calm env s t \<and> e \<noteq> Sgx_Success) s"
proof -
  let ?P = "\<lambda>sd t. calm env s t \<and> boxes_ok env sd \<and> sealed_as env (sl_bytes plain) (aad_bytes aad) sd"
  define ad where "ad = (case aad of Some aad \<Rightarrow> aad | None \<Rightarrow> \<lparr>sl_ptr = te_stack env, sl_bytes = []\<rparr>)"
  have ad: "(case aad of Some aad \<Rightarrow> sl_len aad | None \<Rightarrow> 0) = sl_len ad" "aad_bytes aad = sl_bytes ad"
    by (simp_all add: ad_def aad_bytes_def split: option.splits)
  have "twp (rand env (te_stack env) 32) (\<lambda>key_id. twp (get_self env) (\<lambda>report. twp
      (seal_data_helper env plain ad (seal_request report policy attr misc key_id)) ?P (\<lambda>e t. calm env s t \<and> e \<noteq> Sgx_Success)) (\<lambda>e t. calm env s t \<and> e \<noteq> Sgx_Success)) (\<lambda>e t. calm env s t \<and> e \<noteq> Sgx_Success) s"
    if n: "560 + sl_len plain + sl_len ad \<le> U32_MAX"
  proof (rule twp_rand [OF assms(1,2)])
    fix key_id t assume t: "calm env s t" "length (key_id :: byte list) = 32"
    show "twp (get_self env) (\<lambda>report. twp (seal_data_helper env plain ad (seal_request report policy attr misc key_id)) ?P (\<lambda>e t. calm env s t \<and> e \<noteq> Sgx_Success))
        (\<lambda>e t. calm env s t \<and> e \<noteq> Sgx_Success) t"
    proof (rule twp_get_self [OF calm_ok [OF t(1)]])
      fix u assume "calm env t u"
      then have u: "calm env s u" using t(1) calm_trans by blast
      show "twp (seal_data_helper env plain ad (seal_request (self_report env) policy attr misc key_id)) ?P (\<lambda>e t. calm env s t \<and> e \<noteq> Sgx_Success) u"
        using twp_seal_data_helper [OF assms(1) calm_ok [OF u] self_request_ok [OF assms(1,3,4) t(2)] n assms(5) [unfolded ad(2)]]
        by (rule twp_conseq) (use calm_trans [OF u] ad(2) in auto)
    qed
  qed simp
  moreover have "calm env s s" using assms(2) by (rule calm_refl)
  ultimately show ?thesis
    unfolding seal_with_key_policy_def Let_def ad_def [symmetric] ad(1)
    by (auto simp: twp twp_and_then_all check_policy_def raw_size_iff)
qed

text \<open>What unsealing returns: the associated data as it is, and a plain text as long as the cipher text.\<close>

definition unsealed_of :: "'w tse_env \<Rightarrow> InnerSealedData \<Rightarrow> byte list \<Rightarrow> InnerUnsealedData \<Rightarrow> bool" where
  "unsealed_of env sd plain ud \<longleftrightarrow> ud_payload_len ud = pl_len (sd_payload sd) \<and> sl_bytes (ud_plaintext ud) = plain
     \<and> sl_bytes (ud_aad ud) = sl_bytes (pl_aad (sd_payload sd))
     \<and> (plain \<noteq> [] \<longrightarrow> slice_enclave_range env (ud_plaintext ud)) \<and> (sl_bytes (ud_aad ud) \<noteq> [] \<longrightarrow> slice_enclave_range env (ud_aad ud))"

lemma twp_unseal_under:
  assumes "tse_env_ok env" "tse_ok env s"
    and "gcm_decrypt (te_crypto env) \<lparr>gcm_key = key, gcm_iv = nonce_zeroed, gcm_aad = sl_bytes (pl_aad (sd_payload sd))\<rparr>
      (sl_bytes (pl_ciphertext (sd_payload sd))) (replicate (sl_len (pl_ciphertext (sd_payload sd))) 0) (pl_tag (sd_payload sd)) = (result, dst)"
    and "enough env (sl_len (pl_ciphertext (sd_payload sd)) + sl_len (pl_aad (sd_payload sd)))"
  shows "twp (unseal_under env key sd) (\<lambda>ud t. calm env s t \<and> unsealed_of env sd dst ud \<and> result = Ok () \<and> sl_len (pl_aad (sd_payload sd)) < I32_MAX)
    (\<lambda>e t. calm env s t \<and> (result = Err e \<or> \<not> sl_len (pl_aad (sd_payload sd)) < I32_MAX)) s" (is "twp _ ?P ?Q s")
proof -
  have c: "crypto_ok (te_crypto env)" using assms(1) by (simp add: tse_env_ok_def)
  have len: "length dst = sl_len (pl_ciphertext (sd_payload sd))" "result \<noteq> Panic"
    using gcm_ops_total(2) [OF c assms(3)] by simp_all
  show ?thesis
    unfolding unseal_under_def twp_and_then
  proof (rule twp_boxed [OF assms(1) enough_mono [OF assms(4)] assms(2)])
    fix p t assume t: "calm env s t" "replicate (sl_len (pl_ciphertext (sd_payload sd))) (0 :: byte) \<noteq> [] \<Longrightarrow>
        in_enclave env p (length (replicate (sl_len (pl_ciphertext (sd_payload sd))) (0 :: byte)))"
    have "twp (boxed env (sl_bytes (pl_aad (sd_payload sd)))) (\<lambda>aad. ?P \<lparr>ud_payload_len = pl_len (sd_payload sd),
        ud_plaintext = \<lparr>sl_ptr = p, sl_bytes = dst\<rparr>, ud_aad = aad\<rparr>) ?Q t" if "result = Ok ()" "sl_len (pl_aad (sd_payload sd)) < I32_MAX"
      by (rule twp_boxed [OF assms(1) enough_mono [OF assms(4)] calm_ok [OF t(1)]])
         (use that len t(2) calm_trans [OF t(1)] in \<open>auto simp: unsealed_of_def slice_enclave_range_def simp flip: length_greater_0_conv\<close>)
    then show "twp (of_gcm (gcm_new key nonce_zeroed (sl_bytes (pl_aad (sd_payload sd))))) (\<lambda>aes. twp
        (case gcm_decrypt (te_crypto env) aes (sl_bytes (pl_ciphertext (sd_payload sd)))
            (sl_bytes \<lparr>sl_ptr = p, sl_bytes = replicate (sl_len (pl_ciphertext (sd_payload sd))) 0\<rparr>) (pl_tag (sd_payload sd)) of (result, dst) \<Rightarrow>
         seq (of_gcm result) (and_then (boxed env (sl_bytes (pl_aad (sd_payload sd)))) (\<lambda>aad.
           ret \<lparr>ud_payload_len = pl_len (sd_payload sd), ud_plaintext = \<lparr>sl_ptr = p, sl_bytes = replicate (sl_len (pl_ciphertext (sd_payload sd))) 0\<rparr>
             \<lparr>sl_bytes := dst\<rparr>, ud_aad = aad\<rparr>))) ?P ?Q) ?Q t"
      unfolding twp_gcm_new using t(1) len(2)
      by (cases "sl_len (pl_aad (sd_payload sd)) < I32_MAX"; cases result)
         (simp_all add: assms(3) twp_seq twp_of_gcm twp_and_then_all twp_ret_all)
  qed simp
qed

lemma sealed_range: "sealed_enclave_range env p sd \<Longrightarrow> tse_env_ok env \<Longrightarrow> in_enclave env p 512"
  by (rule in_enclave_sub [of env p SIZE_SEALED]) (simp_all add: sealed_enclave_range_def SIZE_SEALED_def)

lemma twp_unseal_sealed:
  assumes "tse_env_ok env" "tse_ok env s" "gcm_correct (te_crypto env)" "sealed_as env plain ad sd" "sealed_enclave_range env p sd"
    and "enough env (sl_len (pl_ciphertext (sd_payload sd)) + sl_len (pl_aad (sd_payload sd)))"
  shows "twp (unseal env p sd) (\<lambda>ud t. calm env s t \<and> unsealed_of env sd plain ud) (\<lambda>_ _. False) s"
proof -
  obtain key where k: "key_of env (sd_key_request sd) = Inr key"
      "rijndael128GCM_encrypt (te_crypto env) key plain nonce_zeroed ad = (Sgx_Success, sl_bytes (pl_ciphertext (sd_payload sd)), pl_tag (sd_payload sd))"
      "sl_bytes (pl_aad (sd_payload sd)) = ad" "length ad < I32_MAX" "length plain < I32_MAX"
    using assms(4) by (auto simp: sealed_as_def)
  note d = gcm_correctD [OF assms(3) k(2)]
  have "gcm_decrypt (te_crypto env) \<lparr>gcm_key = key, gcm_iv = nonce_zeroed, gcm_aad = sl_bytes (pl_aad (sd_payload sd))\<rparr>
      (sl_bytes (pl_ciphertext (sd_payload sd))) (replicate (sl_len (pl_ciphertext (sd_payload sd))) 0) (pl_tag (sd_payload sd)) = (Ok (), plain)"
    using d k(3,5) by (simp add: gcm_decrypt_def sgx_is_success_def)
  note u = twp_unseal_under [OF assms(1) _ this assms(6)]
  show ?thesis
    unfolding unseal_def unseal_data_helper_def twp_seq twp_ensure if_P [OF assms(5)] twp_and_then twp_map_err
  proof (rule twp_get_align_key [OF assms(1,2) sealed_range [OF assms(5,1)]])
    fix t assume t: "calm env s t"
    show "case key_of env (sd_key_request sd) of Inl e \<Rightarrow> False | Inr key \<Rightarrow> twp (unseal_under env key sd)
        (\<lambda>ud t. calm env s t \<and> unsealed_of env sd plain ud) (\<lambda>_ _. False) t"
      unfolding k(1) sum.case by (rule twp_conseq [OF u [OF calm_ok [OF t]]]) (use calm_trans [OF t] k(3,4) in auto)
  qed
qed

text \<open>Unsealing anything else returns as well.\<close>

lemma twp_unseal:
  assumes "tse_env_ok env" "tse_ok env s" "enough env (sl_len (pl_ciphertext (sd_payload sd)) + sl_len (pl_aad (sd_payload sd)))"
  shows "twp (unseal env p sd) (\<lambda>ud t. calm env s t \<and> (\<exists>plain. length plain = sl_len (pl_ciphertext (sd_payload sd)) \<and> unsealed_of env sd plain ud))
    (\<lambda>_. calm env s) s"
proof (cases "sealed_enclave_range env p sd")
  case True
  have c: "crypto_ok (te_crypto env)" using assms(1) by (simp add: tse_env_ok_def)
  show ?thesis
    unfolding unseal_def unseal_data_helper_def twp_seq twp_ensure if_P [OF True] twp_and_then twp_map_err
  proof (rule twp_get_align_key [OF assms(1,2) sealed_range [OF True assms(1)]])
    fix t assume t: "calm env s t"
    have "twp (unseal_under env key sd) (\<lambda>ud t. calm env s t \<and> (\<exists>plain. length plain = sl_len (pl_ciphertext (sd_payload sd))
        \<and> unsealed_of env sd plain ud)) (\<lambda>_. calm env s) t" for key
    proof -
      obtain result dst where d: "gcm_decrypt (te_crypto env) \<lparr>gcm_key = key, gcm_iv = nonce_zeroed, gcm_aad = sl_bytes (pl_aad (sd_payload sd))\<rparr>
          (sl_bytes (pl_ciphertext (sd_payload sd))) (replicate (sl_len (pl_ciphertext (sd_payload sd))) 0) (pl_tag (sd_payload sd)) = (result, dst)"
        by fastforce
      show ?thesis using twp_unseal_under [OF assms(1) calm_ok [OF t] d assms(3)]
        by (rule twp_conseq) (use calm_trans [OF t] gcm_ops_total(2) [OF c d] in auto)
    qed
    then show "case key_of env (sd_key_request sd) of Inl e \<Rightarrow> calm env s t | Inr key \<Rightarrow> twp (unseal_under env key sd)
        (\<lambda>ud t. calm env s t \<and> (\<exists>plain. length plain = sl_len (pl_ciphertext (sd_payload sd)) \<and> unsealed_of env sd plain ud)) (\<lambda>_. calm env s) t"
      using t by (simp split: sum.split)
  qed
qed (use assms(2) in \<open>simp add: unseal_def twp_seq twp_ensure calm_refl\<close>)

section \<open>Codes\<close>

lemma twp_mac_under:
  assumes "tse_env_ok env" "tse_ok env s" "key_request_ok kr" "560 + sl_len ad \<le> U32_MAX" "key_of env kr = Inr key" "enough env (sl_len ad)"
  shows "twp (mac_under env key ad kr) (\<lambda>sd t. calm env s t \<and> boxes_ok env sd \<and> maced_as env (sl_bytes ad) sd) (\<lambda>_. calm env s) s" (is "twp _ ?P ?Q s")
proof (cases "sl_len ad < I32_MAX")
  case True
  let ?aes = "\<lparr>gcm_key = key, gcm_iv = nonce_zeroed, gcm_aad = sl_bytes ad\<rparr>"
  have c: "crypto_ok (te_crypto env)" using assms(1) by (simp add: tse_env_ok_def)
  have "twp (boxed env []) (\<lambda>ciphertext. twp (boxed env (sl_bytes ad)) (\<lambda>aad'. ?P \<lparr>sd_key_request = kr, sd_payload = \<lparr>pl_len = sl_len ad mod 2 ^ 32,
        pl_tag = tag, pl_ciphertext = ciphertext, pl_aad = aad'\<rparr>\<rparr>) ?Q) ?Q s" if tag: "gcm_mac (te_crypto env) ?aes = Ok tag" for tag
  proof -
    obtain dst where d: "sl_bytes ad \<noteq> []" "rijndael128GCM_encrypt (te_crypto env) key [] nonce_zeroed (sl_bytes ad) = (Sgx_Success, dst, tag)"
      using tag by (auto simp: gcm_mac_def sgx_is_success_def split: if_splits prod.splits)
    show ?thesis
      by (rule twp_boxed [OF assms(1) enough_mono [OF assms(6)] assms(2)], simp, rule twp_boxed [OF assms(1,6)])
         (use d True assms(3-5) gcm_ops_total(4) [OF c tag] in
           \<open>auto simp: boxes_ok_def slice_enclave_range_def maced_as_def sealed_ok_def U32_MAX_def dest: calm_ok calm_trans\<close>)
  qed
  then show ?thesis
    unfolding mac_under_def twp_and_then twp_gcm_new if_P [OF True]
    using gcm_ops_total(3) [OF c, of ?aes] calm_refl [OF assms(2)]
    by (cases "gcm_mac (te_crypto env) ?aes") (simp_all add: twp_of_gcm twp_and_then_all twp_ret_all)
qed (use assms(2) in \<open>simp add: mac_under_def twp_and_then twp_gcm_new calm_refl\<close>)

lemma twp_mac_with_key_policy:
  assumes "tse_env_ok env" "tse_ok env s" "attributes_ok attr" "misc < 256 ^ 4" "enough env (sl_len ad)"
  shows "twp (mac_with_key_policy env policy attr misc ad) (\<lambda>sd t. calm env s t \<and> boxes_ok env sd \<and> maced_as env (sl_bytes ad) sd)
    (\<lambda>_. calm env s) s"
proof -
  let ?P = "\<lambda>sd t. calm env s t \<and> boxes_ok env sd \<and> maced_as env (sl_bytes ad) sd" and ?Q = "\<lambda>_. calm env s"
  have "twp (rand env (te_stack env) 32) (\<lambda>key_id. twp (get_self env) (\<lambda>report. twp
      (mac_data_helper env ad (seal_request report policy attr misc key_id)) ?P ?Q) ?Q) ?Q s"
    if n: "560 + sl_len ad \<le> U32_MAX"
  proof (rule twp_rand [OF assms(1,2)])
    fix key_id t assume t: "calm env s t" "length (key_id :: byte list) = 32"
    let ?kr = "seal_request (self_report env) policy attr misc key_id"
    show "twp (get_self env) (\<lambda>report. twp (mac_data_helper env ad (seal_request report policy attr misc key_id)) ?P ?Q) ?Q t"
      unfolding mac_data_helper_def twp_and_then_all
    proof (rule twp_get_self [OF calm_ok [OF t(1)]], rule twp_get_align_key [OF assms(1)])
      fix u v assume "calm env t u" "calm env u v"
      then have v: "calm env s v" using t(1) calm_trans by blast
      show "case key_of env ?kr of Inl e \<Rightarrow> calm env s v | Inr key \<Rightarrow> twp (mac_under env key ad ?kr) ?P ?Q v"
        using v calm_trans [OF v] by (auto split: sum.split intro!: twp_conseq [OF twp_mac_under [OF assms(1) calm_ok [OF v]
            self_request_ok [OF assms(1,3,4) t(2)] n _ assms(5)]])
    qed (use stack_in_enclave [OF assms(1)] in \<open>auto dest: calm_ok\<close>)
  qed
  moreover have "calm env s s" using assms(2) by (rule calm_refl)
  ultimately show ?thesis
    unfolding mac_with_key_policy_def by (auto simp: twp twp_and_then_all check_policy_def raw_size_iff)
qed

lemma twp_verify:
  assumes "tse_env_ok env" "tse_ok env s" "enough env (sl_len (pl_aad (sd_payload sd)))"
  shows "twp (verify env p sd) (\<lambda>ud t. calm env s t \<and> unsealed_of env sd [] ud) (\<lambda>_. calm env s) s"
proof (cases "sealed_enclave_range env p sd")
  case True
  have c: "crypto_ok (te_crypto env)" using assms(1) by (simp add: tse_env_ok_def)
  have b: "twp (boxed env []) (\<lambda>plaintext. twp (boxed env (sl_bytes (pl_aad (sd_payload sd)))) (\<lambda>aad t. calm env s t \<and> unsealed_of env sd []
      \<lparr>ud_payload_len = pl_len (sd_payload sd), ud_plaintext = plaintext, ud_aad = aad\<rparr>) (\<lambda>_. calm env s)) (\<lambda>_. calm env s) t" if t: "calm env s t" for t
    by (rule twp_boxed [OF assms(1) enough_mono [OF assms(3)] calm_ok [OF t]], simp, rule twp_boxed [OF assms(1,3)])
       (use calm_trans [OF t] in \<open>auto simp: unsealed_of_def slice_enclave_range_def dest: calm_ok calm_trans\<close>)
  show ?thesis
    unfolding verify_def verify_data_helper_def twp_seq twp_ensure if_P [OF True] twp_and_then twp_map_err
  proof (rule twp_get_align_key [OF assms(1,2) sealed_range [OF True assms(1)]])
    fix t assume t: "calm env s t"
    have "twp (verify_under env key sd) (\<lambda>ud t. calm env s t \<and> unsealed_of env sd [] ud) (\<lambda>_. calm env s) t" for key
      unfolding verify_under_def twp_and_then twp_gcm_new
      using t b [OF t] gcm_ops_total(5) [OF c] by (simp add: twp_seq twp_of_gcm twp_and_then_all twp_ret_all split: res.split)
    then show "case key_of env (sd_key_request sd) of Inl e \<Rightarrow> calm env s t | Inr key \<Rightarrow> twp (verify_under env key sd)
        (\<lambda>ud t. calm env s t \<and> unsealed_of env sd [] ud) (\<lambda>_. calm env s) t"
      using t by (simp split: sum.split)
  qed
qed (use assms(2) in \<open>simp add: verify_def twp_seq twp_ensure calm_refl\<close>)

lemma twp_verify_maced:
  assumes "tse_env_ok env" "tse_ok env s" "gcm_correct (te_crypto env)" "maced_as env ad sd" "sealed_enclave_range env p sd" "enough env (length ad)"
  shows "twp (verify env p sd) (\<lambda>ud t. calm env s t \<and> unsealed_of env sd [] ud) (\<lambda>_ _. False) s"
proof -
  obtain key dst where k: "key_of env (sd_key_request sd) = Inr key"
      "rijndael128GCM_encrypt (te_crypto env) key [] nonce_zeroed ad = (Sgx_Success, dst, pl_tag (sd_payload sd))"
      "sl_bytes (pl_aad (sd_payload sd)) = ad" "length ad < I32_MAX" "ad \<noteq> []"
    using assms(4) by (auto simp: maced_as_def)
  have v: "gcm_verify_mac (te_crypto env) \<lparr>gcm_key = key, gcm_iv = nonce_zeroed, gcm_aad = ad\<rparr> (pl_tag (sd_payload sd)) = Ok ()"
    using gcm_correctD [OF assms(3) k(2)] k(5) by (simp add: gcm_verify_mac_def sgx_is_success_def)
  have b: "twp (boxed env []) (\<lambda>plaintext. twp (boxed env ad) (\<lambda>aad t. calm env s t \<and> unsealed_of env sd []
      \<lparr>ud_payload_len = pl_len (sd_payload sd), ud_plaintext = plaintext, ud_aad = aad\<rparr>) (\<lambda>_ _. False)) (\<lambda>_ _. False) t" if t: "calm env s t" for t
    by (rule twp_boxed [OF assms(1) enough_mono [OF assms(6)] calm_ok [OF t]], simp, rule twp_boxed [OF assms(1,6)])
       (use calm_trans [OF t] k(3) in \<open>auto simp: unsealed_of_def slice_enclave_range_def dest: calm_ok calm_trans\<close>)
  show ?thesis
    unfolding verify_def verify_data_helper_def twp_seq twp_ensure if_P [OF assms(5)] twp_and_then twp_map_err
  proof (rule twp_get_align_key [OF assms(1,2) sealed_range [OF assms(5,1)]])
    fix t assume t: "calm env s t"
    show "case key_of env (sd_key_request sd) of Inl e \<Rightarrow> False | Inr key \<Rightarrow> twp (verify_under env key sd)
        (\<lambda>ud t. calm env s t \<and> unsealed_of env sd [] ud) (\<lambda>_ _. False) t"
      unfolding k(1) sum.case verify_under_def twp_and_then twp_gcm_new
      using t b [OF t] k(3,4) v by (simp add: twp_seq twp_of_gcm twp_and_then_all twp_ret_all)
  qed
qed

section \<open>Through storage\<close>

lemma stack_range:
  assumes "tse_env_ok env" "boxes_ok env sd"
  shows "sealed_enclave_range env (te_stack env) sd"
proof -
  have "in_enclave env (te_stack env + 512) SIZE_PAYLOAD"
    by (rule in_enclave_sub [OF assms(1), of "te_stack env" 1024]) (use assms(1) in \<open>simp_all add: tse_env_ok_def SIZE_PAYLOAD_def\<close>)
  then show ?thesis using assms stack_in_enclave [OF assms(1), of SIZE_SEALED]
    by (simp add: sealed_enclave_range_def payload_enclave_range_def boxes_ok_def SIZE_SEALED_def SIZE_PAYLOAD_def)
qed

text \<open>
  What storing relies on, for both ways of making sealed data: made data is well formed, it depends on its contents and not on where they are,
  and opening it in the enclave gives what it was made of. Then it can be stored as bytes and opened later.
\<close>

locale stored_data =
  fixes made :: "'w tse_env \<Rightarrow> byte list \<Rightarrow> byte list \<Rightarrow> InnerSealedData \<Rightarrow> bool"
    and opens :: "'w tse_env \<Rightarrow> usize \<Rightarrow> InnerSealedData \<Rightarrow> ('w tse, SgxStatus, InnerUnsealedData) rust"
  assumes made_env: "made env plain ad sd \<Longrightarrow> tse_env_ok env"
    and made_ok: "made env plain ad sd \<Longrightarrow> sealed_ok sd"
    and made_same: "made env plain ad sd \<Longrightarrow> same_sealed sd sd' \<Longrightarrow> made env plain ad sd'"
    and made_parts: "made env plain ad sd \<Longrightarrow> sl_bytes (pl_aad (sd_payload sd)) = ad \<and> pl_len (sd_payload sd) = length plain + length ad"
    and made_opens: "made env plain ad sd \<Longrightarrow> tse_ok env s \<Longrightarrow> sealed_enclave_range env p sd \<Longrightarrow>
      enough env (sl_len (pl_ciphertext (sd_payload sd)) + sl_len (pl_aad (sd_payload sd))) \<Longrightarrow>
      twp (opens env p sd) (\<lambda>ud t. calm env s t \<and> unsealed_of env sd plain ud) (\<lambda>_ _. False) s"
begin

lemma stored:
  assumes "made env plain ad sd" "tse_ok env u" "slice_enclave_range env data" "sl_bytes data = sealed_bytes sd" "enough env (sl_len data)"
  shows "\<exists>sd' ud v w. from_slice env data u = (Ok sd', v) \<and> opens env (te_stack env) sd' v = (Ok ud, w) \<and> calm env u w
    \<and> sl_bytes (ud_plaintext ud) = plain \<and> sl_bytes (ud_aad ud) = ad \<and> ud_payload_len ud = length plain + length ad"
proof -
  have env: "tse_env_ok env" and ok: "sealed_ok sd" using assms(1) by (rule made_env, rule made_ok)
  obtain sd' v where v: "from_slice env data u = (Ok sd', v)" "calm env u v" "same_sealed sd sd'" "boxes_ok env sd'"
    using twp_from_slice_bytes [OF env assms(2) ok assms(3-5)] by (auto elim!: twpE)
  have sd': "made env plain ad sd'" using assms(1) v(3) by (rule made_same)
  have n: "sl_len data = 560 + sl_len (pl_ciphertext (sd_payload sd')) + sl_len (pl_aad (sd_payload sd'))"
    using sealed_bytes_fields(6) [OF ok] ok v(3) assms(4) by (simp add: sealed_ok_def same_sealed_def)
  obtain ud w where w: "opens env (te_stack env) sd' v = (Ok ud, w)" "calm env v w" "unsealed_of env sd' plain ud"
    using made_opens [OF sd' calm_ok [OF v(2)] stack_range [OF env v(4)] enough_mono [OF assms(5)]] n by (auto elim!: twpE)
  then show ?thesis using v calm_trans [OF v(2) w(2)] made_parts [OF sd'] by (auto simp: unsealed_of_def)
qed

end

text \<open>Both ways fulfil it.\<close>

definition sealed_made :: "'w tse_env \<Rightarrow> byte list \<Rightarrow> byte list \<Rightarrow> InnerSealedData \<Rightarrow> bool" where
  "sealed_made env plain ad sd \<longleftrightarrow> tse_env_ok env \<and> gcm_correct (te_crypto env) \<and> sealed_as env plain ad sd"

definition mac_made :: "'w tse_env \<Rightarrow> byte list \<Rightarrow> byte list \<Rightarrow> InnerSealedData \<Rightarrow> bool" where
  "mac_made env plain ad sd \<longleftrightarrow> tse_env_ok env \<and> gcm_correct (te_crypto env) \<and> plain = [] \<and> maced_as env ad sd"

lemma made_oks: "sealed_as env plain ad sd \<Longrightarrow> sealed_ok sd" "maced_as env ad sd \<Longrightarrow> sealed_ok sd"
  by (simp_all add: sealed_as_def maced_as_def)

interpretation seals: stored_data sealed_made unseal
proof
  show "sl_bytes (pl_aad (sd_payload sd)) = ad \<and> pl_len (sd_payload sd) = length plain + length ad" if "sealed_made env plain ad sd"
    for env :: "'w tse_env" and plain ad sd
    using that gcm_correctD(1) [of "te_crypto env"] by (auto simp: sealed_made_def sealed_as_def sealed_ok_def)
qed (auto simp: sealed_made_def dest: made_oks intro: sealed_as_same twp_unseal_sealed)

interpretation macs: stored_data mac_made verify
proof
  show "sl_bytes (pl_aad (sd_payload sd)) = ad \<and> pl_len (sd_payload sd) = length plain + length ad" if "mac_made env plain ad sd"
    for env :: "'w tse_env" and plain ad sd
    using that by (auto simp: mac_made_def maced_as_def sealed_ok_def)
  show "twp (verify env p sd) (\<lambda>ud t. calm env s t \<and> unsealed_of env sd plain ud) (\<lambda>_ _. False) s"
    if "mac_made env plain ad sd" "tse_ok env s" "sealed_enclave_range env p sd"
      "enough env (sl_len (pl_ciphertext (sd_payload sd)) + sl_len (pl_aad (sd_payload sd)))" for env :: "'w tse_env" and plain ad sd s p
    using that twp_verify_maced [of env s ad sd p] by (auto simp: mac_made_def maced_as_def)
qed (auto simp: mac_made_def dest: made_oks intro: maced_as_same)

lemma sealed_and_stored:
  assumes "tse_env_ok env" "gcm_correct (te_crypto env)" "tse_ok env s" "attributes_ok attr" "misc < 256 ^ 4"
    and "seal_with_key_policy env policy attr misc plain aad s = (Ok sd, t)" "to_bytes sd t = (Ok raw, t')"
    and "sl_bytes data = raw" "enough env (560 + sl_len plain + length (aad_bytes aad))"
  shows "sealed_as env (sl_bytes plain) (aad_bytes aad) sd" "sl_bytes data = sealed_bytes sd" "enough env (sl_len data)"
proof -
  have "enough env (sl_len plain + length (aad_bytes aad))" using assms(9) by (rule enough_mono) simp
  from twp_seal_with_key_policy [OF assms(1,3-5) this, of policy] show sd: "sealed_as env (sl_bytes plain) (aad_bytes aad) sd"
    by (simp add: twp_def assms(6))
  then show raw: "sl_bytes data = sealed_bytes sd" using to_bytes_eq [of sd t] assms(7,8) by (simp add: sealed_as_def)
  have "length (sealed_bytes sd) = 560 + sl_len plain + length (aad_bytes aad)"
    using sd sealed_bytes_fields(6) [of sd] gcm_correctD(1) [OF assms(2)] by (auto simp: sealed_as_def sealed_ok_def)
  then show "enough env (sl_len data)" using assms(9) raw by simp
qed

text \<open>
  C13: sealing is undone by unsealing: what was sealed under any policy and stored as bytes is unsealed, by the same enclave at any later time, to the same
  plain text and the same associated data.
\<close>

theorem seal_unseal_roundtrip:
  assumes "tse_env_ok env" "gcm_correct (te_crypto env)" "tse_ok env s" "attributes_ok attr" "misc < 256 ^ 4"
    and "seal_with_key_policy env policy attr misc plain aad s = (Ok sd, t)" "to_bytes sd t = (Ok raw, t')"
    and "slice_enclave_range env data" "sl_bytes data = raw" "tse_ok env u" "enough env (560 + sl_len plain + length (aad_bytes aad))"
  shows "\<exists>us v. unseal_from_slice env (sl_len plain) data u = (Ok us, v) \<and> tb_bytes (us_plaintext us) = sl_bytes plain
    \<and> tb_size (us_plaintext us) = sl_len plain \<and> sl_bytes (us_aad us) = aad_bytes aad
    \<and> us_payload_size us = sl_len plain + length (aad_bytes aad)"
proof -
  have sd: "sealed_as env (sl_bytes plain) (aad_bytes aad) sd" "sl_bytes data = sealed_bytes sd" "enough env (sl_len data)"
    by (rule sealed_and_stored [OF assms(1-7,9,11)])+
  from seals.stored [OF _ assms(10,8) sd(2,3), of "sl_bytes plain" "aad_bytes aad"] assms(1,2) sd(1) show ?thesis
    by (auto simp: sealed_made_def unseal_from_slice_def sealed_data_unseal_def rust_defs)
qed

text \<open>
  C17: the same for data that is authenticated only: a code made under any policy and stored with its data verifies later and gives the data back.
\<close>

theorem mac_unmac_roundtrip:
  assumes "tse_env_ok env" "gcm_correct (te_crypto env)" "tse_ok env s" "attributes_ok attr" "misc < 256 ^ 4"
    and "mac_with_key_policy env policy attr misc ad s = (Ok sd, t)" "to_bytes sd t = (Ok raw, t')"
    and "slice_enclave_range env data" "sl_bytes data = raw" "tse_ok env u" "enough env (560 + sl_len ad)"
  shows "\<exists>sd' v b w. from_slice env data u = (Ok sd', v) \<and> mac_aad_unmac env (sl_len ad) (te_stack env) sd' v = (Ok b, w)
    \<and> tb_bytes b = sl_bytes ad \<and> tb_size b = sl_len ad"
proof -
  have "enough env (sl_len ad)" using assms(11) by (rule enough_mono) simp
  from twp_mac_with_key_policy [OF assms(1,3-5) this, of policy] have sd: "maced_as env (sl_bytes ad) sd"
    by (simp add: twp_def assms(6))
  then have raw: "sl_bytes data = sealed_bytes sd" using to_bytes_eq [of sd t] assms(7,9) by (simp add: maced_as_def)
  have "length (sealed_bytes sd) = 560 + sl_len ad"
    using sd sealed_bytes_fields(6) [of sd] by (auto simp: maced_as_def sealed_ok_def)
  then have "enough env (sl_len data)" using assms(11) raw by simp
  from macs.stored [OF _ assms(10,8) raw this, of "[]" "sl_bytes ad"] assms(1,2) sd show ?thesis
    by (auto simp: mac_made_def mac_aad_unmac_def rust_defs)
qed

text \<open>
  C16: sealed data and bytes correspond: well-formed sealed data is written to exactly \<open>raw_sealed_data_size\<close> bytes and read back from them;
  whatever else is given as bytes is refused, or read as well-formed sealed data that has these bytes, but for the 24 reserved bytes of the header.
\<close>

theorem sealed_bytes_exact:
  assumes "tse_env_ok env" "tse_ok env s" "enough env (sl_len raw)"
  shows "(sealed_ok sd \<longrightarrow> to_bytes sd s = (Ok (sealed_bytes sd), s)
      \<and> raw_sealed_data_size (sl_len (pl_aad (sd_payload sd))) (sl_len (pl_ciphertext (sd_payload sd))) = Some (length (sealed_bytes sd))
      \<and> (slice_enclave_range env raw \<and> sl_bytes raw = sealed_bytes sd \<longrightarrow> (\<exists>sd' t. from_slice env raw s = (Ok sd', t) \<and> same_sealed sd sd')))
    \<and> (\<exists>r t. from_slice env raw s = (r, t) \<and> (r = Err Sgx_InvalidParameter \<or> (\<exists>sd. r = Ok sd \<and> sealed_ok sd \<and> reads (sl_bytes raw) sd)))"
proof (intro conjI impI)
  assume ok: "sealed_ok sd"
  show "to_bytes sd s = (Ok (sealed_bytes sd), s)" using ok by (rule to_bytes_eq)
  show "raw_sealed_data_size (sl_len (pl_aad (sd_payload sd))) (sl_len (pl_ciphertext (sd_payload sd))) = Some (length (sealed_bytes sd))"
    using sealed_lens [OF ok] sealed_bytes_fields(6) [OF ok] by simp
  assume "slice_enclave_range env raw \<and> sl_bytes raw = sealed_bytes sd"
  then show "\<exists>sd' t. from_slice env raw s = (Ok sd', t) \<and> same_sealed sd sd'"
    using twp_from_slice_bytes [OF assms(1,2) ok _ _ assms(3)] by (auto elim!: twpE)
next
  show "\<exists>r t. from_slice env raw s = (r, t) \<and> (r = Err Sgx_InvalidParameter \<or> (\<exists>sd. r = Ok sd \<and> sealed_ok sd \<and> reads (sl_bytes raw) sd))"
    using twp_from_slice [OF assms] by (auto elim!: twpE)
qed

text \<open>
  C18: the typed views do not check sizes. Unsealing gives a box of the type asked for whatever was sealed: a value of a bigger type reaches behind its
  memory, and a slice of elements of more than one byte always does, as its length is still the number of bytes.
\<close>

theorem typed_unseal_overruns:
  assumes "tse_env_ok env" "gcm_correct (te_crypto env)" "tse_ok env s" "attributes_ok attr" "misc < 256 ^ 4"
    and "seal_with_key_policy env policy attr misc plain aad s = (Ok sd, t)" "to_bytes sd t = (Ok raw, t')"
    and "slice_enclave_range env data" "sl_bytes data = raw" "tse_ok env u" "enough env (560 + sl_len plain + length (aad_bytes aad))"
  shows "(sl_len plain < n \<longrightarrow> (\<exists>us v. unseal_from_slice env n data u = (Ok us, v) \<and> length (tb_bytes (us_plaintext us)) < tb_size (us_plaintext us)))
    \<and> (1 < n \<longrightarrow> (\<exists>us v. unseal_slice_from_slice env n data u = (Ok us, v) \<and> length (tb_bytes (us_plaintext us)) < tb_size (us_plaintext us)))"
proof -
  have sd: "sealed_as env (sl_bytes plain) (aad_bytes aad) sd" "sl_bytes data = sealed_bytes sd" "enough env (sl_len data)"
    by (rule sealed_and_stored [OF assms(1-7,9,11)])+
  moreover have "0 < sl_len plain"
    using assms(6) by (auto simp: seal_with_key_policy_def rust_defs Let_def split: if_splits)
  ultimately show ?thesis using seals.stored [OF _ assms(10,8) sd(2,3), of "sl_bytes plain" "aad_bytes aad"] assms(1,2) sd(1)
    by (auto simp: sealed_made_def unseal_from_slice_def unseal_slice_from_slice_def sealed_data_unseal_def sealed_slice_unseal_def rust_defs)
qed

end
