(* ===== verification/Tseal_Capi.thy ===== *)
theory Tseal_Capi
  imports Tseal_Props
begin

text \<open>
  The C interface of sealing, \<open>sgx_tseal/src/capi.rs\<close>, on memory: pointers are addresses, 0 is the null pointer, and what a
  pointer refers to is read when the code reads it. Differences of \<open>u32\<close> wrap around as in a release build.
\<close>

section \<open>Functions\<close>

definition load_u32 :: "usize \<Rightarrow> ('w tse, 'e, nat) rust" where
  "load_u32 p = and_then (load p 4) (\<lambda>bs. ret (of_le bs))"

definition load_slice :: "usize \<Rightarrow> nat \<Rightarrow> ('w tse, 'e, slice) rust" where
  "load_slice p n = and_then (load p n) (\<lambda>bs. ret \<lparr>sl_ptr = p, sl_bytes = bs\<rparr>)"

definition sgx_calc_sealed_data_size :: "nat \<Rightarrow> nat \<Rightarrow> nat" where
  "sgx_calc_sealed_data_size aad_size encrypt_size =
     (case raw_sealed_data_size aad_size encrypt_size of Some n \<Rightarrow> n | None \<Rightarrow> U32_MAX)"

definition sgx_get_add_mac_txt_len :: "usize \<Rightarrow> ('w tse, 'e, nat) rust" where
  "sgx_get_add_mac_txt_len c_sealed_data =
     (if c_sealed_data = 0 then ret U32_MAX
      else and_then (load_u32 (c_sealed_data + 528)) (\<lambda>payload_size.
        and_then (load_u32 (c_sealed_data + 512)) (\<lambda>plaintext_offset.
        let data_size = (payload_size + 2 ^ 32 - plaintext_offset) mod 2 ^ 32
        in ret (if data_size > payload_size then U32_MAX else data_size))))"

definition sgx_get_encrypt_txt_len :: "usize \<Rightarrow> ('w tse, 'e, nat) rust" where
  "sgx_get_encrypt_txt_len c_sealed_data =
     (if c_sealed_data = 0 then ret U32_MAX else load_u32 (c_sealed_data + 512))"

text \<open>The checks of the output that the sealing functions share.\<close>

definition check_sealed_out :: "'w tse_env \<Rightarrow> nat \<Rightarrow> nat \<Rightarrow> usize \<Rightarrow> ('s, SgxStatus, unit) rust" where
  "check_sealed_out env raw_size sealed_data_size c_sealed_data =
     seq (ensure (\<not> (raw_size = U32_MAX \<or> raw_size \<noteq> sealed_data_size)) Sgx_InvalidParameter)
    (seq (ensure (c_sealed_data \<noteq> 0) Sgx_InvalidParameter)
         (ensure (in_enclave env c_sealed_data raw_size) Sgx_InvalidParameter))"

definition sgx_seal_data ::
    "'w tse_env \<Rightarrow> nat \<Rightarrow> usize \<Rightarrow> nat \<Rightarrow> usize \<Rightarrow> nat \<Rightarrow> usize \<Rightarrow> ('w tse, SgxStatus, SgxStatus) rust" where
  "sgx_seal_data env aad_size aad encrypt_size encrypt_txt sealed_data_size c_sealed_data = c_status (
     seq (check_sealed_out env (sgx_calc_sealed_data_size aad_size encrypt_size) sealed_data_size c_sealed_data)
    (seq (ensure (\<not> (aad_size > 0 \<and> aad = 0)) Sgx_InvalidParameter)
    (seq (ensure (\<not> (encrypt_size = 0 \<or> encrypt_txt = 0)) Sgx_InvalidParameter)
    (and_then (if aad_size \<noteq> 0 then and_then (load_slice aad aad_size) (\<lambda>x. ret (Some x)) else ret None) (\<lambda>aad.
     and_then (load_slice encrypt_txt encrypt_size) (\<lambda>plaintext.
     and_then (sealed_data_seal env plaintext aad) (\<lambda>sealed_data.
     and_then (to_bytes sealed_data) (\<lambda>bytes.
     store c_sealed_data (take sealed_data_size bytes)))))))))"

definition sgx_seal_data_ex ::
    "'w tse_env \<Rightarrow> KeyPolicy \<Rightarrow> Attributes \<Rightarrow> nat \<Rightarrow> nat \<Rightarrow> usize \<Rightarrow> nat \<Rightarrow> usize \<Rightarrow> nat \<Rightarrow> usize
      \<Rightarrow> ('w tse, SgxStatus, SgxStatus) rust" where
  "sgx_seal_data_ex env key_policy attribute_mask misc_mask aad_size aad encrypt_size encrypt_txt sealed_data_size c_sealed_data = c_status (
     seq (check_sealed_out env (sgx_calc_sealed_data_size aad_size encrypt_size) sealed_data_size c_sealed_data)
    (seq (ensure (key_policy_is_valid key_policy) Sgx_InvalidParameter)
    (seq (ensure (\<not> (aad_size > 0 \<and> aad = 0)) Sgx_InvalidParameter)
    (seq (ensure (\<not> (encrypt_size = 0 \<or> encrypt_txt = 0)) Sgx_InvalidParameter)
    (and_then (if aad_size \<noteq> 0 then and_then (load_slice aad aad_size) (\<lambda>x. ret (Some x)) else ret None) (\<lambda>aad.
     and_then (load_slice encrypt_txt encrypt_size) (\<lambda>plaintext.
     and_then (sealed_data_seal_with_key_policy env key_policy attribute_mask misc_mask plaintext aad) (\<lambda>sealed_data.
     and_then (to_bytes sealed_data) (\<lambda>bytes.
     store c_sealed_data (take sealed_data_size bytes))))))))))"

text \<open>\<open>slice.fill(0); slice.copy_from_slice(src)\<close> on a slice at a pointer.\<close>

definition fill_copy :: "usize \<Rightarrow> nat \<Rightarrow> byte list \<Rightarrow> ('w tse, SgxStatus, unit) rust" where
  "fill_copy p n src = seq (store p (replicate n 0)) (seq (rassert (length src = n)) (store p src))"

text \<open>The last part of \<open>sgx_unseal_data\<close>, after its checks.\<close>

definition unseal_out ::
    "'w tse_env \<Rightarrow> usize \<Rightarrow> nat \<Rightarrow> nat \<Rightarrow> nat \<Rightarrow> usize \<Rightarrow> usize \<Rightarrow> usize \<Rightarrow> usize \<Rightarrow> ('w tse, SgxStatus, unit) rust" where
  "unseal_out env c_sealed_data raw_size clen alen aad aad_size decrypt_txt decrypt_size =
     and_then (load_slice c_sealed_data raw_size) (\<lambda>raw_slice.
     and_then (from_slice env raw_slice) (\<lambda>sealed_data.
     and_then (unseal env (te_stack env) sealed_data) (\<lambda>unsealed_data.
     seq (fill_copy decrypt_txt clen (sl_bytes (ud_plaintext unsealed_data)))
    (seq (store decrypt_size (le_bytes 4 clen))
         (if alen > 0
          then seq (fill_copy aad alen (sl_bytes (ud_aad unsealed_data))) (store aad_size (le_bytes 4 alen))
          else ret ())))))"

definition sgx_unseal_data ::
    "'w tse_env \<Rightarrow> usize \<Rightarrow> usize \<Rightarrow> usize \<Rightarrow> usize \<Rightarrow> usize \<Rightarrow> ('w tse, SgxStatus, SgxStatus) rust" where
  "sgx_unseal_data env c_sealed_data aad aad_size decrypt_txt decrypt_size = c_status (
     seq (ensure (c_sealed_data \<noteq> 0) Sgx_InvalidParameter)
    (and_then (sgx_get_encrypt_txt_len c_sealed_data) (\<lambda>cipher_len.
     and_then (sgx_get_add_mac_txt_len c_sealed_data) (\<lambda>mac_len.
     seq (ensure (\<not> (cipher_len = U32_MAX \<or> mac_len = U32_MAX)) Sgx_InvalidParameter)
    (let raw_size = sgx_calc_sealed_data_size mac_len cipher_len in
     seq (ensure (raw_size \<noteq> U32_MAX) Sgx_InvalidParameter)
    (seq (ensure (\<not> (mac_len > 0 \<and> (aad = 0 \<or> aad_size = 0))) Sgx_InvalidParameter)
    (seq (ensure (\<not> (cipher_len < 1 \<or> decrypt_txt = 0 \<or> decrypt_size = 0)) Sgx_InvalidParameter)
    (seq (ensure (in_enclave env decrypt_size 4) Sgx_InvalidParameter)
    (and_then (load_u32 decrypt_size) (\<lambda>input_decrypt_size.
     seq (ensure (\<not> input_decrypt_size < cipher_len) Sgx_InvalidParameter)
    (seq (ensure (in_enclave env decrypt_txt input_decrypt_size) Sgx_InvalidParameter)
    (seq (ensure (aad_size = 0 \<or> in_enclave env aad_size 4 \<or> in_host env aad_size 4) Sgx_InvalidParameter)
    (and_then (if aad_size \<noteq> 0 then load_u32 aad_size else ret 0) (\<lambda>input_aad_size.
     seq (ensure (\<not> input_aad_size < mac_len) Sgx_InvalidParameter)
    (seq (ensure (\<not> (mac_len > 0 \<and> \<not> (in_enclave env aad input_aad_size \<or> in_host env aad input_aad_size))) Sgx_InvalidParameter)
         (unseal_out env c_sealed_data raw_size cipher_len mac_len aad aad_size decrypt_txt decrypt_size))))))))))))))))"

definition sgx_mac_aadata :: "'w tse_env \<Rightarrow> nat \<Rightarrow> usize \<Rightarrow> nat \<Rightarrow> usize \<Rightarrow> ('w tse, SgxStatus, SgxStatus) rust" where
  "sgx_mac_aadata env aad_size aad sealed_data_size c_sealed_data = c_status (
     seq (check_sealed_out env (sgx_calc_sealed_data_size aad_size 0) sealed_data_size c_sealed_data)
    (seq (ensure (\<not> (aad_size = 0 \<or> aad = 0)) Sgx_InvalidParameter)
    (and_then (load_slice aad aad_size) (\<lambda>aad.
     and_then (mac_aad_mac env aad) (\<lambda>mac_aad.
     and_then (to_bytes mac_aad) (\<lambda>bytes.
     store c_sealed_data (take sealed_data_size bytes)))))))"

definition sgx_mac_aadata_ex ::
    "'w tse_env \<Rightarrow> KeyPolicy \<Rightarrow> Attributes \<Rightarrow> nat \<Rightarrow> nat \<Rightarrow> usize \<Rightarrow> nat \<Rightarrow> usize \<Rightarrow> ('w tse, SgxStatus, SgxStatus) rust" where
  "sgx_mac_aadata_ex env key_policy attribute_mask misc_mask aad_size aad sealed_data_size c_sealed_data = c_status (
     seq (check_sealed_out env (sgx_calc_sealed_data_size aad_size 0) sealed_data_size c_sealed_data)
    (seq (ensure (key_policy_is_valid key_policy) Sgx_InvalidParameter)
    (seq (ensure (\<not> (aad_size = 0 \<or> aad = 0)) Sgx_InvalidParameter)
    (and_then (load_slice aad aad_size) (\<lambda>aad.
     and_then (mac_aad_mac_with_key_policy env key_policy attribute_mask misc_mask aad) (\<lambda>mac_aad.
     and_then (to_bytes mac_aad) (\<lambda>bytes.
     store c_sealed_data (take sealed_data_size bytes))))))))"

definition unmac_out :: "'w tse_env \<Rightarrow> usize \<Rightarrow> nat \<Rightarrow> nat \<Rightarrow> usize \<Rightarrow> usize \<Rightarrow> ('w tse, SgxStatus, unit) rust" where
  "unmac_out env c_sealed_data raw_size alen aad aad_size =
     and_then (load_slice c_sealed_data raw_size) (\<lambda>raw_slice.
     and_then (from_slice env raw_slice) (\<lambda>sealed_data.
     and_then (verify env (te_stack env) sealed_data) (\<lambda>unsealed_data.
     seq (fill_copy aad alen (sl_bytes (ud_aad unsealed_data)))
         (store aad_size (le_bytes 4 alen)))))"

definition sgx_unmac_aadata :: "'w tse_env \<Rightarrow> usize \<Rightarrow> usize \<Rightarrow> usize \<Rightarrow> ('w tse, SgxStatus, SgxStatus) rust" where
  "sgx_unmac_aadata env c_sealed_data aad aad_size = c_status (
     and_then (sgx_get_encrypt_txt_len c_sealed_data) (\<lambda>cipher_len.
     seq (ensure (cipher_len = 0) Sgx_InvalidParameter)
    (and_then (sgx_get_add_mac_txt_len c_sealed_data) (\<lambda>mac_len.
     seq (ensure (\<not> (mac_len = U32_MAX \<or> mac_len = 0)) Sgx_InvalidParameter)
    (let raw_size = sgx_calc_sealed_data_size mac_len cipher_len in
     seq (ensure (raw_size \<noteq> U32_MAX) Sgx_InvalidParameter)
    (seq (ensure (\<not> (aad = 0 \<or> aad_size = 0)) Sgx_InvalidParameter)
    (seq (ensure (in_enclave env aad_size 4 \<or> in_host env aad_size 4) Sgx_InvalidParameter)
    (and_then (load_u32 aad_size) (\<lambda>input_aad_size.
     seq (ensure (\<not> input_aad_size < mac_len) Sgx_InvalidParameter)
    (seq (ensure (in_enclave env aad input_aad_size \<or> in_host env aad input_aad_size) Sgx_InvalidParameter)
         (unmac_out env c_sealed_data raw_size mac_len aad aad_size)))))))))))"

section \<open>Memory\<close>

lemma length_read_mem [simp]: "length (read_mem p n m) = n"
  by (simp add: read_mem_def)

lemma read_mem_Nil [simp]: "read_mem p n m = [] \<longleftrightarrow> n = 0"
  by (simp add: read_mem_def)

lemma read_mem_part: "off + k \<le> n \<Longrightarrow> take k (drop off (read_mem p n m)) = read_mem (p + off) k m"
  by (rule nth_equalityI) (simp_all add: read_mem_def add.assoc)

lemma write_read_mem: "read_mem p (length bs) (write_mem p bs m) = bs"
  by (rule nth_equalityI) (simp_all add: read_mem_def write_mem_def)

lemma read_write_apart:
  assumes "p + n \<le> q \<or> q + length bs \<le> p"
  shows "read_mem p n (write_mem q bs m) = read_mem p n m"
  using assms by (auto simp: read_mem_def write_mem_def)

text \<open>Memory that changed at most in some places.\<close>

definition only_in :: "usize set \<Rightarrow> (usize \<Rightarrow> byte) \<Rightarrow> (usize \<Rightarrow> byte) \<Rightarrow> bool" where
  "only_in A m m' \<longleftrightarrow> (\<forall>a. a \<notin> A \<longrightarrow> m' a = m a)"

lemma only_in_refl [simp]: "only_in A m m"
  by (simp add: only_in_def)

lemma only_in_write: "only_in A m m' \<Longrightarrow> {p ..< p + length bs} \<subseteq> A \<Longrightarrow> only_in A m (write_mem p bs m')"
  by (auto simp: only_in_def write_mem_def subset_iff)

abbreviation u32_at :: "usize \<Rightarrow> (usize \<Rightarrow> byte) \<Rightarrow> nat" where
  "u32_at p m \<equiv> of_le (read_mem p 4 m)"

lemma u32_bound: "u32_at p m < 2 ^ 32"
  using of_le_bound [of "read_mem p 4 m"] by simp

lemma twp_load_u32: "twp (load_u32 p) P Q s \<longleftrightarrow> P (u32_at p (ts_mem s)) s"
  by (simp add: load_u32_def load_def twp)

lemma twp_load_slice: "twp (load_slice p n) P Q s \<longleftrightarrow> P \<lparr>sl_ptr = p, sl_bytes = read_mem p n (ts_mem s)\<rparr> s"
  by (simp add: load_slice_def load_def twp)

lemma twp_store: "twp (store p bs) P Q s \<longleftrightarrow> P () (s\<lparr>ts_mem := write_mem p bs (ts_mem s)\<rparr>)"
  by (simp add: store_def twp)

lemma write_mem_over: "length as = length bs \<Longrightarrow> write_mem p bs (write_mem p as m) = write_mem p bs m"
  by (rule ext) (simp add: write_mem_def)

lemma twp_fill_copy: "length src = n \<Longrightarrow> twp (fill_copy p n src) P Q s \<longleftrightarrow> P () (s\<lparr>ts_mem := write_mem p src (ts_mem s)\<rparr>)"
  by (simp add: fill_copy_def twp twp_store write_mem_over)

text \<open>The size of the associated data, as the header has it.\<close>

lemma mac_txt_len:
  assumes "c \<noteq> 0"
  shows "twp (sgx_get_add_mac_txt_len c) P Q s \<longleftrightarrow>
    P (if u32_at (c + 512) (ts_mem s) \<le> u32_at (c + 528) (ts_mem s) then u32_at (c + 528) (ts_mem s) - u32_at (c + 512) (ts_mem s) else U32_MAX) s"
proof -
  let ?n = "u32_at (c + 528) (ts_mem s)" and ?o = "u32_at (c + 512) (ts_mem s)"
  have e: "(if (?n + 2 ^ 32 - ?o) mod 2 ^ 32 > ?n then U32_MAX else (?n + 2 ^ 32 - ?o) mod 2 ^ 32) = (if ?o \<le> ?n then ?n - ?o else U32_MAX)"
  proof (cases "?o \<le> ?n")
    case True
    then have "?n + 2 ^ 32 - ?o = ?n - ?o + 2 ^ 32" by simp
    then have "(?n + 2 ^ 32 - ?o) mod 2 ^ 32 = ?n - ?o"
      using u32_bound [of "c + 528" "ts_mem s"] by (simp only: mod_add_self2) (simp add: mod_less)
    then show ?thesis using True by auto
  next
    case False
    then have "(?n + 2 ^ 32 - ?o) mod 2 ^ 32 = ?n + 2 ^ 32 - ?o" by (intro mod_less) simp
    moreover have "?n + 2 ^ 32 - ?o > ?n" using u32_bound [of "c + 512" "ts_mem s"] by simp
    ultimately show ?thesis using False by simp
  qed
  show ?thesis
    unfolding sgx_get_add_mac_txt_len_def if_not_P [OF assms] twp_and_then twp_load_u32 Let_def twp_ret by (simp only: e)
qed

lemma calc_size: "sgx_calc_sealed_data_size a c \<noteq> U32_MAX \<Longrightarrow> sgx_calc_sealed_data_size a c = 560 + a + c \<and> 560 + a + c < U32_MAX"
  using raw_size_iff [of a c] by (auto simp: sgx_calc_sealed_data_size_def split: option.splits)

section \<open>Unsealing in memory\<close>

definition unseal_writes :: "byte list \<Rightarrow> byte list \<Rightarrow> usize \<Rightarrow> usize \<Rightarrow> usize \<Rightarrow> usize \<Rightarrow> (usize \<Rightarrow> byte) \<Rightarrow> usize \<Rightarrow> byte" where
  "unseal_writes plain ad aad aad_size txt txt_size m =
     (let m' = write_mem txt_size (le_bytes 4 (length plain)) (write_mem txt plain m)
      in if ad = [] then m' else write_mem aad_size (le_bytes 4 (length ad)) (write_mem aad ad m'))"

lemma reads_sizes:
  assumes "reads (read_mem c (560 + alen + clen) m) sd" "sealed_ok sd" "clen = u32_at (c + 512) m"
  shows "sl_len (pl_ciphertext (sd_payload sd)) = clen" "sl_len (pl_aad (sd_payload sd)) = alen"
proof -
  let ?raw = "read_mem c (560 + alen + clen) m"
  have "take 4 (drop 512 (take 516 (sealed_bytes sd))) = take 4 (drop 512 (take 516 ?raw))" using assms(1) by (simp add: reads_def)
  then have "le_bytes 4 (sl_len (pl_ciphertext (sd_payload sd))) = read_mem (c + 512) 4 m"
    using sealed_bytes_fields(2) [OF assms(2)] read_mem_part [of 512 4 "560 + alen + clen" c m] by (simp add: drop_take)
  moreover have "sl_len (pl_ciphertext (sd_payload sd)) < 256 ^ 4" using assms(2) by (simp add: sealed_ok_def U32_MAX_def)
  ultimately show c: "sl_len (pl_ciphertext (sd_payload sd)) = clen" using assms(3) of_le_le_bytes by metis
  have "length (sealed_bytes sd) = 560 + alen + clen" using assms(1) by (simp add: reads_def)
  then show "sl_len (pl_aad (sd_payload sd)) = alen" using sealed_bytes_fields(6) [OF assms(2)] assms(2) c by (simp add: sealed_ok_def)
qed

lemma twp_unseal_out:
  assumes "tse_env_ok env" "tse_ok env s" "clen = u32_at (c + 512) (ts_mem s)" "enough env (560 + alen + clen)"
  shows "twp (unseal_out env c (560 + alen + clen) clen alen aad aad_size txt txt_size)
    (\<lambda>_ t. tse_ok env t \<and> (\<exists>plain ad. length plain = clen \<and> length ad = alen \<and> ts_mem t = unseal_writes plain ad aad aad_size txt txt_size (ts_mem s)))
    (\<lambda>_. calm env s) s" (is "twp _ ?P ?Q s")
proof -
  let ?raw = "\<lparr>sl_ptr = c, sl_bytes = read_mem c (560 + alen + clen) (ts_mem s)\<rparr>"
  let ?out = "\<lambda>ud. seq (fill_copy txt clen (sl_bytes (ud_plaintext ud))) (seq (store txt_size (le_bytes 4 clen))
      (if alen > 0 then seq (fill_copy aad alen (sl_bytes (ud_aad ud))) (store aad_size (le_bytes 4 alen)) else ret ()))"
  have u: "twp (unseal env (te_stack env) sd) (\<lambda>ud. twp (?out ud) ?P ?Q) ?Q t"
    if t: "calm env s t" "sealed_ok sd" "reads (sl_bytes ?raw) sd" for sd t
  proof -
    have n: "sl_len (pl_ciphertext (sd_payload sd)) = clen" "sl_len (pl_aad (sd_payload sd)) = alen"
      using reads_sizes [OF _ t(2) assms(3)] t(3) by auto
    have "twp (?out ud) ?P ?Q v" if v: "calm env t v" and ud: "length plain = clen" "unsealed_of env sd plain ud" for ud v plain
    proof -
      have "length (sl_bytes (ud_plaintext ud)) = clen" "length (sl_bytes (ud_aad ud)) = alen" using ud n by (simp_all add: unsealed_of_def)
      moreover have "tse_ok env v" "ts_mem v = ts_mem s" using v t(1) by (auto simp: calm_def)
      ultimately show ?thesis
        by (simp add: twp_seq twp_fill_copy twp_store twp_ret twp_if tse_ok_def)
           (intro conjI impI exI [of _ "sl_bytes (ud_plaintext ud)"] exI [of _ "sl_bytes (ud_aad ud)"]; auto simp: unseal_writes_def Let_def)
    qed
    then show ?thesis
      by (intro twp_conseq [OF twp_unseal [OF assms(1) calm_ok [OF t(1)] enough_mono [OF assms(4)]]]) (use n calm_trans [OF t(1)] in auto)
  qed
  have "twp (from_slice env ?raw) (\<lambda>sd. twp (unseal env (te_stack env) sd) (\<lambda>ud. twp (?out ud) ?P ?Q) ?Q) ?Q s"
    by (rule twp_conseq [OF twp_from_slice [OF assms(1,2)]]) (use u assms(4) in \<open>simp, blast+\<close>)
  then show ?thesis by (simp add: unseal_out_def twp_and_then twp_load_slice twp_and_then_all)
qed

text \<open>One step of a C function at a time.\<close>

lemma step_check: "(b \<Longrightarrow> twp m P Q s) \<Longrightarrow> (\<not> b \<Longrightarrow> Q e s) \<Longrightarrow> twp (seq (ensure b e) m) P Q s"
  by (simp add: twp_seq twp_ensure)

lemma step_checks: "(b \<Longrightarrow> twp (seq m n) P Q s) \<Longrightarrow> (\<not> b \<Longrightarrow> Q e s) \<Longrightarrow> twp (seq (seq (ensure b e) m) n) P Q s"
  by (simp add: twp_seq twp_ensure)

lemma step_opt_slice:
  "twp (f (if n \<noteq> 0 then Some \<lparr>sl_ptr = p, sl_bytes = read_mem p n (ts_mem s)\<rparr> else None)) P Q s \<Longrightarrow>
    twp (and_then (if n \<noteq> 0 then and_then (load_slice p n) (\<lambda>x. ret (Some x)) else ret None) f) P Q s"
  by (cases "n = 0") (simp_all add: twp_and_then twp_load_slice twp_ret)

lemma step_load: "twp (f (u32_at p (ts_mem s))) P Q s \<Longrightarrow> twp (and_then (load_u32 p) f) P Q s"
  by (simp add: twp_and_then twp_load_u32)

lemma step_load_if: "twp (f (if p \<noteq> 0 then u32_at p (ts_mem s) else 0)) P Q s \<Longrightarrow> twp (and_then (if p \<noteq> 0 then load_u32 p else ret 0) f) P Q s"
  by (cases "p = 0") (simp_all add: twp_and_then twp_load_u32 twp_ret)

lemma step_slice: "twp (f \<lparr>sl_ptr = p, sl_bytes = read_mem p n (ts_mem s)\<rparr>) P Q s \<Longrightarrow> twp (and_then (load_slice p n) f) P Q s"
  by (simp add: twp_and_then twp_load_slice)

lemma step_encrypt_len: "c \<noteq> 0 \<Longrightarrow> twp (f (u32_at (c + 512) (ts_mem s))) P Q s \<Longrightarrow> twp (and_then (sgx_get_encrypt_txt_len c) f) P Q s"
  by (simp add: sgx_get_encrypt_txt_len_def twp_and_then twp_load_u32)

lemma step_mac_len:
  assumes "c \<noteq> 0" "u32_at (c + 512) (ts_mem s) \<le> u32_at (c + 528) (ts_mem s) \<Longrightarrow> twp (f (u32_at (c + 528) (ts_mem s) - u32_at (c + 512) (ts_mem s))) P Q s"
    and "twp (f U32_MAX) P Q s"
  shows "twp (and_then (sgx_get_add_mac_txt_len c) f) P Q s"
  using assms by (simp add: twp_and_then mac_txt_len)

lemma c_status_twp:
  assumes "twp m (\<lambda>_. P Sgx_Success) P s"
  shows "twp (c_status m) P Q s"
  using assms by (simp add: c_status_def twp_and_then twp_attempt twp_ret_all)

lemma only_in_unseal:
  assumes "length plain \<le> n" "ad \<noteq> [] \<Longrightarrow> length ad \<le> k"
  shows "only_in ({txt ..< txt + n} \<union> {txt_size ..< txt_size + 4} \<union> {aad ..< aad + k} \<union> {aad_size ..< aad_size + 4}) m
    (unseal_writes plain ad aad aad_size txt txt_size m)"
  using assms by (auto simp: unseal_writes_def Let_def intro!: only_in_write)

text \<open>
  C15: \<open>sgx_unseal_data\<close> returns a status, whatever the sealed data and the pointers are; it does not panic. A call that fails leaves the memory as it was, and
  one that succeeds has written at most to the two buffers, as long as the caller said they are, and to their sizes.
\<close>

theorem unseal_data_writes:
  assumes "tse_env_ok env" "tse_ok env s" "enough env (560 + u32_at (c + 528) (ts_mem s))"
  shows "\<exists>status t. sgx_unseal_data env c aad aad_size txt txt_size s = (Ok status, t) \<and> (status \<noteq> Sgx_Success \<longrightarrow> ts_mem t = ts_mem s)
    \<and> only_in ({txt ..< txt + u32_at txt_size (ts_mem s)} \<union> {txt_size ..< txt_size + 4}
        \<union> {aad ..< aad + u32_at aad_size (ts_mem s)} \<union> {aad_size ..< aad_size + 4}) (ts_mem s) (ts_mem t)"
proof -
  let ?A = "{txt ..< txt + u32_at txt_size (ts_mem s)} \<union> {txt_size ..< txt_size + 4}
        \<union> {aad ..< aad + u32_at aad_size (ts_mem s)} \<union> {aad_size ..< aad_size + 4}"
  let ?P = "\<lambda>status t. (status \<noteq> Sgx_Success \<longrightarrow> ts_mem t = ts_mem s) \<and> only_in ?A (ts_mem s) (ts_mem t)"
  have q: "?P e s" for e by simp
  have out: "twp (unseal_out env c (sgx_calc_sealed_data_size alen clen) clen alen aad aad_size txt txt_size) (\<lambda>_. ?P Sgx_Success) ?P s"
    if "clen = u32_at (c + 512) (ts_mem s)" "sgx_calc_sealed_data_size alen clen \<noteq> U32_MAX" "clen \<le> u32_at txt_size (ts_mem s)"
      "0 < alen \<Longrightarrow> alen \<le> u32_at aad_size (ts_mem s)" "clen + alen \<le> u32_at (c + 528) (ts_mem s)" for clen alen
    unfolding conjunct1 [OF calc_size [OF that(2)]]
    by (rule twp_conseq [OF twp_unseal_out [OF assms(1,2) that(1) enough_mono [OF assms(3)]]])
       (use that(3-5) in \<open>auto simp: calm_def intro!: only_in_unseal\<close>)
  have "twp (sgx_unseal_data env c aad aad_size txt txt_size) ?P (\<lambda>_ _. False) s"
    unfolding sgx_unseal_data_def Let_def
    by (rule c_status_twp, intro step_check step_encrypt_len step_mac_len step_load step_load_if out q) (auto split: if_splits)
  then show ?thesis by (auto elim!: twpE)
qed

section \<open>Sealing in memory\<close>

lemma default_mask_ok: "attributes_ok default_mask" "TSEAL_DEFAULT_MISCMASK < 256 ^ 4"
  by (simp_all add: attributes_ok_def default_mask_def TSEAL_DEFAULT_MISCMASK_def U32_MAX_def)

lemma twp_sealed_data_seal:
  assumes "tse_env_ok env" "tse_ok env s" "enough env (sl_len plain + length (aad_bytes aad))"
  shows "twp (sealed_data_seal env plain aad) (\<lambda>sd t. calm env s t \<and> sealed_as env (sl_bytes plain) (aad_bytes aad) sd)
    (\<lambda>e t. calm env s t \<and> e \<noteq> Sgx_Success) s"
  unfolding sealed_data_seal_def seal_def
proof (rule step_check)
  show "twp (and_then (get_self env) (\<lambda>report. seal_with_key_policy env (default_policy report) default_mask TSEAL_DEFAULT_MISCMASK plain aad))
      (\<lambda>sd t. calm env s t \<and> sealed_as env (sl_bytes plain) (aad_bytes aad) sd) (\<lambda>e t. calm env s t \<and> e \<noteq> Sgx_Success) s"
    unfolding twp_and_then
  proof (rule twp_get_self [OF assms(2)])
    fix t assume t: "calm env s t"
    show "twp (seal_with_key_policy env (default_policy (self_report env)) default_mask TSEAL_DEFAULT_MISCMASK plain aad)
        (\<lambda>sd t. calm env s t \<and> sealed_as env (sl_bytes plain) (aad_bytes aad) sd) (\<lambda>e t. calm env s t \<and> e \<noteq> Sgx_Success) t"
      by (rule twp_conseq [OF twp_seal_with_key_policy [OF assms(1) calm_ok [OF t] default_mask_ok assms(3)]]) (use calm_trans [OF t] in auto)
  qed
qed (use calm_refl [OF assms(2)] in simp)

text \<open>What is in memory after a call of \<open>sgx_seal_data\<close> that succeeds.\<close>

lemma seal_data_success:
  assumes "tse_env_ok env" "tse_ok env s" "sgx_seal_data env alen aad plen txt sealed_size c s = (Ok Sgx_Success, t)"
    and "enough env (560 + alen + plen)"
  shows "\<exists>sd. sealed_as env (read_mem txt plen (ts_mem s)) (read_mem aad alen (ts_mem s)) sd \<and> read_mem c sealed_size (ts_mem t) = sealed_bytes sd
    \<and> c \<noteq> 0 \<and> in_enclave env c sealed_size \<and> 0 < plen \<and> sealed_size = 560 + alen + plen \<and> sealed_size < U32_MAX"
proof -
  let ?plain = "read_mem txt plen (ts_mem s)" and ?ad = "read_mem aad alen (ts_mem s)"
  let ?P = "\<lambda>status t. status = Sgx_Success \<longrightarrow> (\<exists>sd. sealed_as env ?plain ?ad sd \<and> read_mem c sealed_size (ts_mem t) = sealed_bytes sd
    \<and> c \<noteq> 0 \<and> in_enclave env c sealed_size \<and> 0 < plen \<and> sealed_size = 560 + alen + plen \<and> sealed_size < U32_MAX)"
  let ?rest = "\<lambda>aad. and_then (sealed_data_seal env \<lparr>sl_ptr = txt, sl_bytes = ?plain\<rparr> aad) (\<lambda>sealed_data.
     and_then (to_bytes sealed_data) (\<lambda>bytes. store c (take sealed_size bytes)))"
  have rest: "twp (?rest ad) (\<lambda>_. ?P Sgx_Success) ?P s"
    if c: "c \<noteq> 0" "in_enclave env c sealed_size" "0 < plen" "sealed_size = 560 + alen + plen" "sealed_size < U32_MAX" and ad: "aad_bytes ad = ?ad" for ad
    unfolding twp_and_then_all
  proof (rule twp_conseq [OF twp_sealed_data_seal [OF assms(1,2) enough_mono [OF assms(4)]]])
    fix sd t assume sd: "calm env s t \<and> sealed_as env (sl_bytes \<lparr>sl_ptr = txt, sl_bytes = ?plain\<rparr>) (aad_bytes ad) sd"
    then have ok: "sealed_ok sd" and as: "sealed_as env ?plain ?ad sd" using ad by (auto simp: sealed_as_def)
    obtain key where "rijndael128GCM_encrypt (te_crypto env) key ?plain nonce_zeroed ?ad
        = (Sgx_Success, sl_bytes (pl_ciphertext (sd_payload sd)), pl_tag (sd_payload sd))" using as by (auto simp: sealed_as_def)
    from crypto_okD(1) [OF _ this] have "sl_len (pl_ciphertext (sd_payload sd)) = plen" using assms(1) by (simp add: tse_env_ok_def)
    then have n: "length (sealed_bytes sd) = sealed_size"
      using sealed_bytes_fields(6) [OF ok] c(4) as ok by (simp add: sealed_as_def sealed_ok_def)
    then show "twp (to_bytes sd) (\<lambda>bytes. twp (store c (take sealed_size bytes)) (\<lambda>_. ?P Sgx_Success) ?P) ?P t"
      using write_read_mem [of c "sealed_bytes sd" "ts_mem t"] as c
      by (auto simp: twp_def [of "to_bytes sd"] to_bytes_eq [OF ok] twp_store)
  qed (use ad in auto)
  have sz: "sealed_size = 560 + alen + plen \<and> sealed_size < U32_MAX"
    if "\<not> (sgx_calc_sealed_data_size alen plen = U32_MAX \<or> sgx_calc_sealed_data_size alen plen \<noteq> sealed_size)"
    using that calc_size [of alen plen] by auto
  have "twp (sgx_seal_data env alen aad plen txt sealed_size c) ?P (\<lambda>_ _. False) s"
    unfolding sgx_seal_data_def check_sealed_out_def
    by (rule c_status_twp, intro step_checks step_check step_opt_slice step_slice, rule rest) (use sz in \<open>simp_all add: aad_bytes_def read_mem_def\<close>)
  then show ?thesis using assms(3) by (simp add: twp_def)
qed

text \<open>Sealed data in memory: its header is read, and it unseals.\<close>

lemma sealed_in_memory:
  assumes "sealed_as env plain ad sd" "gcm_correct (te_crypto env)" "read_mem c (560 + length ad + length plain) m = sealed_bytes sd"
  shows "u32_at (c + 512) m = length plain" "u32_at (c + 528) m = length plain + length ad"
proof -
  have ok: "sealed_ok sd" using assms(1) by (simp add: sealed_as_def)
  obtain key where "rijndael128GCM_encrypt (te_crypto env) key plain nonce_zeroed ad
      = (Sgx_Success, sl_bytes (pl_ciphertext (sd_payload sd)), pl_tag (sd_payload sd))" using assms(1) by (auto simp: sealed_as_def)
  from gcm_correctD(1) [OF assms(2) this] have n: "sl_len (pl_ciphertext (sd_payload sd)) = length plain" "pl_len (sd_payload sd) = length plain + length ad"
    using assms(1) ok by (simp_all add: sealed_as_def sealed_ok_def)
  have b: "length plain < 256 ^ 4" "length plain + length ad < 256 ^ 4" using ok n by (auto simp: sealed_ok_def U32_MAX_def)
  show "u32_at (c + 512) m = length plain" "u32_at (c + 528) m = length plain + length ad"
    using sealed_bytes_fields(2,3) [OF ok, folded assms(3)] read_mem_part [of 512 4 _ c m] read_mem_part [of 528 4 _ c m] n b
    by (simp_all add: of_le_le_bytes)
qed

text \<open>Output buffers that do not overlap.\<close>

definition apart :: "(usize \<times> nat) list \<Rightarrow> bool" where
  "apart rs \<longleftrightarrow> (\<forall>i < length rs. \<forall>j < i. fst (rs ! i) + snd (rs ! i) \<le> fst (rs ! j) \<or> fst (rs ! j) + snd (rs ! j) \<le> fst (rs ! i))"

lemma apart_four:
  "apart [(a, i), (b, j), (c, k), (d, l)] \<longleftrightarrow> (b + j \<le> a \<or> a + i \<le> b) \<and> (c + k \<le> a \<or> a + i \<le> c) \<and> (d + l \<le> a \<or> a + i \<le> d)
    \<and> (c + k \<le> b \<or> b + j \<le> c) \<and> (d + l \<le> b \<or> b + j \<le> d) \<and> (d + l \<le> c \<or> c + k \<le> d)"
  by (auto simp: apart_def All_less_Suc numeral_eq_Suc)

lemma unseal_writes_read:
  fixes m :: "usize \<Rightarrow> byte"
  assumes "apart [(txt, length plain), (txt_size, 4), (aad, length ad), (aad_size, 4)]" "length plain < 256 ^ 4" "length ad < 256 ^ 4"
  defines "m' \<equiv> unseal_writes plain ad aad aad_size txt txt_size m"
  shows "read_mem txt (length plain) m' = plain" "u32_at txt_size m' = length plain" "read_mem aad (length ad) m' = ad"
    "ad \<noteq> [] \<Longrightarrow> u32_at aad_size m' = length ad"
proof -
  have a: "txt_size + 4 \<le> txt \<or> txt + length plain \<le> txt_size" "aad + length ad \<le> txt \<or> txt + length plain \<le> aad"
      "aad_size + 4 \<le> txt \<or> txt + length plain \<le> aad_size" "aad + length ad \<le> txt_size \<or> txt_size + 4 \<le> aad"
      "aad_size + 4 \<le> txt_size \<or> txt_size + 4 \<le> aad_size" "aad_size + 4 \<le> aad \<or> aad + length ad \<le> aad_size"
    using assms(1) by (simp_all add: apart_four)
  have w: "read_mem p 4 (write_mem p (le_bytes 4 n) x) = le_bytes 4 n" for p n x
    using write_read_mem [of p "le_bytes 4 n" x] by simp
  show "read_mem txt (length plain) m' = plain" "u32_at txt_size m' = length plain" "read_mem aad (length ad) m' = ad"
    "ad \<noteq> [] \<Longrightarrow> u32_at aad_size m' = length ad"
    using a assms(2,3)
    by (auto simp: m'_def unseal_writes_def Let_def read_write_apart write_read_mem w of_le_le_bytes read_mem_def [of aad 0])
qed

text \<open>
  C14: in memory as well, unsealing undoes sealing: when \<open>sgx_seal_data\<close> succeeded and the sealed data is in the enclave, \<open>sgx_unseal_data\<close> into separate buffers that are big enough
  succeeds and writes the plain text, the associated data and their sizes.
\<close>

theorem seal_data_unseal_data:
  assumes "tse_env_ok env" "gcm_correct (te_crypto env)" "tse_ok env s" "sgx_seal_data env alen aad plen txt sealed_size c s = (Ok Sgx_Success, t)"
    and "tse_ok env u" "read_mem c sealed_size (ts_mem u) = read_mem c sealed_size (ts_mem t)"
    and "out \<noteq> 0" "out_size \<noteq> 0" "in_enclave env out_size 4" "plen \<le> u32_at out_size (ts_mem u)" "in_enclave env out (u32_at out_size (ts_mem u))"
    and "ad_out \<noteq> 0" "ad_size \<noteq> 0" "in_enclave env ad_size 4" "alen \<le> u32_at ad_size (ts_mem u)" "in_enclave env ad_out (u32_at ad_size (ts_mem u))"
    and "apart [(out, plen), (out_size, 4), (ad_out, alen), (ad_size, 4)]" "enough env (560 + alen + plen)"
  shows "\<exists>v. sgx_unseal_data env c ad_out ad_size out out_size u = (Ok Sgx_Success, v)
    \<and> read_mem out plen (ts_mem v) = read_mem txt plen (ts_mem s) \<and> u32_at out_size (ts_mem v) = plen
    \<and> read_mem ad_out alen (ts_mem v) = read_mem aad alen (ts_mem s) \<and> (0 < alen \<longrightarrow> u32_at ad_size (ts_mem v) = alen)"
proof -
  let ?plain = "read_mem txt plen (ts_mem s)" and ?ad = "read_mem aad alen (ts_mem s)"
  obtain sd where sd: "sealed_as env ?plain ?ad sd" "read_mem c sealed_size (ts_mem u) = sealed_bytes sd"
      "c \<noteq> 0" "in_enclave env c sealed_size" "0 < plen" "sealed_size = 560 + alen + plen" "sealed_size < U32_MAX"
    using seal_data_success [OF assms(1,3,4,18)] assms(6) by metis
  have h: "u32_at (c + 512) (ts_mem u) = plen" "u32_at (c + 528) (ts_mem u) = plen + alen"
    using sealed_in_memory [OF sd(1) assms(2), of c "ts_mem u"] sd(2,6) by simp_all
  have z: "sgx_calc_sealed_data_size alen plen = sealed_size"
    using sd(6,7) raw_size_iff [of alen plen "560 + alen + plen"] by (simp add: sgx_calc_sealed_data_size_def)
  let ?raw = "\<lparr>sl_ptr = c, sl_bytes = read_mem c sealed_size (ts_mem u)\<rparr>"
  have r: "slice_enclave_range env ?raw" "enough env (sl_len ?raw)" using sd(4,6) assms(18) by (simp_all add: slice_enclave_range_def)
  obtain sd' ud v w where v: "from_slice env ?raw u = (Ok sd', v)" "unseal env (te_stack env) sd' v = (Ok ud, w)" "calm env u w"
      "sl_bytes (ud_plaintext ud) = ?plain" "sl_bytes (ud_aad ud) = ?ad"
    using seals.stored [OF _ assms(5) r(1) _ r(2), of ?plain ?ad sd] assms(1,2) sd(1,2) by (auto simp: sealed_made_def)
  let ?m = "unseal_writes ?plain ?ad ad_out ad_size out out_size (ts_mem u)"
  have "unseal_out env c sealed_size plen alen ad_out ad_size out out_size u = (Ok (), w\<lparr>ts_mem := ?m\<rparr>)"
    using v by (auto simp: unseal_out_def load_slice_def load_def rust_defs fill_copy_def store_def write_mem_over calm_def unseal_writes_def Let_def
        length_0_conv [symmetric] simp del: length_0_conv)
  then have "twp (sgx_unseal_data env c ad_out ad_size out out_size) (\<lambda>r t. r = Sgx_Success \<and> t = w\<lparr>ts_mem := ?m\<rparr>) (\<lambda>_ _. False) u"
    unfolding sgx_unseal_data_def Let_def
    using assms(7-16) sd(3,5,6,7) h z
    by (intro c_status_twp) (simp add: twp_seq twp_ensure twp_and_then sgx_get_encrypt_txt_len_def mac_txt_len twp_load_u32
        twp_def [of "unseal_out _ _ _ _ _ _ _ _ _"])
  moreover have "plen < 256 ^ 4" "alen < 256 ^ 4" using sd(6,7) by (simp_all add: U32_MAX_def)
  ultimately show ?thesis using unseal_writes_read [of out ?plain out_size ad_out ?ad ad_size "ts_mem u"] assms(17)
    by (auto elim!: twpE)
qed

end
