(* ===== verification/Tseal_Trials.thy ===== *)
theory Tseal_Trials
  imports Tseal_Capi
begin

text \<open>
  Concrete runs of sealing: an enclave with a stack and a heap of one page, a random number generator that returns zeros, and the cipher
  of the other trials. They show that what the theorems assume can hold.
\<close>

definition demo_tse :: "log_event list tse_env" where
  "demo_tse =
     \<lparr>te_platform = demo_platform True, te_crypto = demo_crypto, te_ereport = (\<lambda>ti rd. Inr report_default),
      te_egetkey = (\<lambda>kr. Inr (replicate 16 7)), te_everify_report2 = (\<lambda>r. 0), te_rdrand = (\<lambda>w. (Some 0, w)),
      te_alloc = (\<lambda>n w. (if n \<le> 0x1000 then Some 0x14000 else None, w)), te_stack = 0x12000, te_self_report = 0x13000\<rparr>"

definition demo_tse_state :: "log_event list tse" where
  "demo_tse_state = \<lparr>ts_world = [], ts_report = Some report_default,
     ts_mem = (\<lambda>a. if a = 0x15000 \<or> a = 0x15100 then 8 else if 0x16000 \<le> a \<and> a < 0x16003 then of_nat (a - 0x15FFF) else 0)\<rparr>"

lemma demo_tse_fields:
  "te_platform demo_tse = demo_platform True" "te_crypto demo_tse = demo_crypto" "te_ereport demo_tse ti rd = Inr report_default"
  "te_egetkey demo_tse kr = Inr (replicate 16 7)" "te_rdrand demo_tse w = (Some 0, w)" "te_stack demo_tse = 0x12000"
  "te_alloc demo_tse n w = (if n \<le> 0x1000 then Some 0x14000 else None, w)"
  by (simp_all add: demo_tse_def)

lemma demo_in_enclave: "0 < n \<Longrightarrow> in_enclave demo_tse p n \<longleftrightarrow> 0x10000 \<le> p \<and> p + n \<le> 0x20000"
  using is_within_enclave_iff [OF demo_elrange_ok [of True], of n p]
  by (auto simp: demo_tse_fields elrange_def elrange_base_def elrange_size_def demo_platform_def demo_global_def)

lemma demo_tse_ok: "tse_env_ok demo_tse" "tse_ok demo_tse demo_tse_state" "gcm_correct (te_crypto demo_tse)" "n \<le> 0x1000 \<Longrightarrow> enough demo_tse n"
proof -
  show "tse_env_ok demo_tse"
    using report_default_ok demo_elrange_ok [of True]
    by (auto simp: tse_env_ok_def demo_in_enclave demo_tse_fields(2-) crypto_ok_def demo_crypto_def demo_mac_def
        simp flip: demo_tse_fields(1) split: if_splits)
  show "tse_ok demo_tse demo_tse_state" by (simp add: tse_ok_def demo_tse_state_def demo_tse_fields)
  show "gcm_correct (te_crypto demo_tse)" by (auto simp: gcm_correct_def demo_tse_fields demo_crypto_def demo_mac_def)
  show "n \<le> 0x1000 \<Longrightarrow> enough demo_tse n" by (simp add: enough_def demo_tse_fields)
qed

lemma demo_rand: "rand demo_tse (te_stack demo_tse) 32 s = (Ok (replicate 32 0), s)"
proof -
  have n: "RDRAND_RETRY_TIMES = Suc 9" by (simp add: RDRAND_RETRY_TIMES_def)
  have r: "rdrand demo_tse w = (Ok 0, w)" for w
    unfolding rdrand_def n rdrand_retry.simps by (simp add: rust_defs call_def demo_tse_fields)
  have z: "le_bytes k 0 = replicate k 0" for k by (induction k) simp_all
  have "rand_fill demo_tse n w = (Ok (replicate n 0), w)" for n w
  proof (induction n arbitrary: w rule: less_induct)
    case (less n)
    show ?case
    proof (cases "n = 0")
      case False
      have "replicate (min n 4) 0 @ replicate (n - min n 4) (0 :: byte) = replicate n 0" by (simp flip: replicate_add)
      then show ?thesis using False less.IH [of "n - min n 4" w]
        by (subst rand_fill.simps) (simp add: r z and_then_def ret_def Let_def)
    qed (simp add: rand_fill.simps [of _ 0] ret_def)
  qed
  then show ?thesis by (simp add: rand_def on_tse_world_def rust_defs demo_in_enclave demo_tse_fields(6))
qed

text \<open>Three bytes sealed with the default policy, and where they are put.\<close>

definition demo_plain :: slice where
  "demo_plain = \<lparr>sl_ptr = 0x16000, sl_bytes = [1, 2, 3]\<rparr>"

definition demo_request :: SgxKeyRequest where
  "demo_request = seal_request report_default KEY_POLICY_MRSIGNER default_mask TSEAL_DEFAULT_MISCMASK (replicate 32 0)"

definition demo_sealed :: InnerSealedData where
  "demo_sealed = \<lparr>sd_key_request = demo_request, sd_payload = \<lparr>pl_len = 3, pl_tag = demo_mac (replicate 16 7) [1, 2, 3] [],
     pl_ciphertext = \<lparr>sl_ptr = 0x14000, sl_bytes = [1, 2, 3]\<rparr>, pl_aad = \<lparr>sl_ptr = 1, sl_bytes = []\<rparr>\<rparr>\<rparr>"

lemma demo_self: "get_self demo_tse demo_tse_state = (Ok report_default, demo_tse_state)"
  by (simp add: get_self_def rust_defs demo_tse_state_def)

lemma demo_report: "rb_isv_svn (rp_body report_default) = 0" "rb_config_svn (rp_body report_default) = 0"
  "at_flags (rb_attributes (rp_body report_default)) = 0"
  by (simp_all add: report_default_def attributes_default_def)

lemma demo_key: "get_align_key demo_tse (te_stack demo_tse) demo_request demo_tse_state
    = (Ok (replicate 16 7), demo_tse_state)"
  by (simp add: get_align_key_def egetkey_def rust_defs demo_self demo_in_enclave demo_tse_fields(4,6) of_sum_def demo_request_def seal_request_def
      key_request_default_def key_policy_is_valid_def KEY_POLICY_MRSIGNER_def KEY_POLICY_ALL_def KEY_POLICY_KSS_def KEY_POLICY_NOISVPRODID_def
      demo_report)

lemma demo_policy: "check_policy KEY_POLICY_MRSIGNER default_mask s = (Ok (), s)"
  by (simp add: check_policy_def rust_defs key_policy_is_valid_def KEY_POLICY_MRSIGNER_def KEY_POLICY_MRENCLAVE_def KEY_POLICY_ALL_def
      default_mask_def ATTRIBUTES_DEFAULT_MASK_def ATTRIBUTES_INITTED_def ATTRIBUTES_DEBUG_def)

lemma demo_seals:
  "seal_with_key_policy demo_tse KEY_POLICY_MRSIGNER default_mask TSEAL_DEFAULT_MISCMASK demo_plain None demo_tse_state
    = (Ok demo_sealed, demo_tse_state)"
proof -
  have r: "raw_sealed_data_size 0 (Suc (Suc (Suc 0))) = Some 563" by (simp add: raw_sealed_data_size_def Let_def U32_MAX_def SEALED_HEADER_def)
  have u: "seal_under demo_tse (replicate 16 7) \<lparr>sl_ptr = 0x16000, sl_bytes = [1, 2, 3]\<rparr> \<lparr>sl_ptr = te_stack demo_tse, sl_bytes = []\<rparr> demo_request
      demo_tse_state = (Ok demo_sealed, demo_tse_state)"
    by (simp add: seal_under_def of_gcm_def gcm_new_def I32_MAX_def and_then_def ret_def boxed_def on_tse_world_def zoom_def call_def
        demo_tse_fields(2,7) gcm_encrypt_def demo_crypto_def sgx_is_success_def demo_sealed_def demo_tse_state_def)
  show ?thesis
    by (simp add: r u seal_with_key_policy_def Let_def seq_def and_then_def ensure_def ret_def demo_policy demo_plain_def slice_enclave_range_def demo_in_enclave
        U32_MAX_def demo_rand demo_self seal_data_helper_def demo_request_def [symmetric] demo_key)
qed

lemma demo_sealed_ok: "sealed_ok demo_sealed" "length (sealed_bytes demo_sealed) = 563"
proof -
  show ok: "sealed_ok demo_sealed"
    using self_request_ok [OF demo_tse_ok(1) default_mask_ok, of "replicate 32 0" KEY_POLICY_MRSIGNER]
    by (simp add: sealed_ok_def demo_sealed_def demo_request_def self_report_def demo_tse_fields demo_mac_def U32_MAX_def)
  show "length (sealed_bytes demo_sealed) = 563" using sealed_bytes_fields(6) [OF ok] by (simp add: demo_sealed_def)
qed

definition demo_stored :: slice where
  "demo_stored = \<lparr>sl_ptr = 0x17000, sl_bytes = sealed_bytes demo_sealed\<rparr>"

lemma demo_stored_ok: "slice_enclave_range demo_tse demo_stored" "sl_bytes demo_stored = sealed_bytes demo_sealed"
  by (simp_all add: slice_enclave_range_def demo_stored_def demo_in_enclave demo_sealed_ok)

theorem seal_unseal_roundtrip_witness:
  "\<exists>us v. unseal_from_slice demo_tse (sl_len demo_plain) demo_stored demo_tse_state = (Ok us, v) \<and> tb_bytes (us_plaintext us) = [1, 2, 3]
    \<and> sl_bytes (us_aad us) = [] \<and> us_payload_size us = 3"
  using seal_unseal_roundtrip [OF demo_tse_ok(1,3,2) default_mask_ok demo_seals to_bytes_eq [OF demo_sealed_ok(1)] demo_stored_ok demo_tse_ok(2)]
    demo_tse_ok(4)
  by (auto simp: demo_plain_def aad_bytes_def numeral_3_eq_3)

theorem sealed_bytes_exact_witness:
  "to_bytes demo_sealed demo_tse_state = (Ok (sealed_bytes demo_sealed), demo_tse_state)
    \<and> (\<exists>sd' t. from_slice demo_tse demo_stored demo_tse_state = (Ok sd', t) \<and> same_sealed demo_sealed sd')"
proof -
  have "enough demo_tse (sl_len demo_stored)" using demo_tse_ok(4) by (simp add: demo_stored_ok demo_sealed_ok)
  from sealed_bytes_exact [OF demo_tse_ok(1,2) this, of demo_sealed] demo_sealed_ok demo_stored_ok show ?thesis by simp
qed

theorem typed_unseal_overruns_witness:
  "\<exists>us v. unseal_slice_from_slice demo_tse 4 demo_stored demo_tse_state = (Ok us, v) \<and> length (tb_bytes (us_plaintext us)) < tb_size (us_plaintext us)"
  using typed_unseal_overruns [OF demo_tse_ok(1,3,2) default_mask_ok demo_seals to_bytes_eq [OF demo_sealed_ok(1)] demo_stored_ok demo_tse_ok(2), of 4]
    demo_tse_ok(4)
  by (simp add: demo_plain_def aad_bytes_def)

text \<open>The same bytes, authenticated only.\<close>

definition demo_maced :: InnerSealedData where
  "demo_maced = \<lparr>sd_key_request = demo_request, sd_payload = \<lparr>pl_len = 3, pl_tag = demo_mac (replicate 16 7) [] [1, 2, 3],
     pl_ciphertext = \<lparr>sl_ptr = 1, sl_bytes = []\<rparr>, pl_aad = \<lparr>sl_ptr = 0x14000, sl_bytes = [1, 2, 3]\<rparr>\<rparr>\<rparr>"

lemma demo_mac_made:
  "mac_with_key_policy demo_tse KEY_POLICY_MRSIGNER default_mask TSEAL_DEFAULT_MISCMASK demo_plain demo_tse_state = (Ok demo_maced, demo_tse_state)"
proof -
  have r: "raw_sealed_data_size (Suc (Suc (Suc 0))) 0 = Some 563" by (simp add: raw_sealed_data_size_def Let_def U32_MAX_def SEALED_HEADER_def)
  have u: "mac_under demo_tse (replicate 16 7) \<lparr>sl_ptr = 0x16000, sl_bytes = [1, 2, 3]\<rparr> demo_request demo_tse_state = (Ok demo_maced, demo_tse_state)"
    by (simp add: mac_under_def of_gcm_def gcm_new_def I32_MAX_def and_then_def ret_def boxed_def on_tse_world_def zoom_def call_def
        demo_tse_fields(2,7) gcm_mac_def demo_crypto_def sgx_is_success_def demo_maced_def demo_tse_state_def)
  show ?thesis
    by (simp add: r u mac_with_key_policy_def seq_def and_then_def ensure_def ret_def demo_policy demo_plain_def slice_enclave_range_def demo_in_enclave
        U32_MAX_def demo_rand demo_self mac_data_helper_def demo_request_def [symmetric] demo_key)
qed

lemma demo_maced_ok: "sealed_ok demo_maced" "length (sealed_bytes demo_maced) = 563"
proof -
  show ok: "sealed_ok demo_maced"
    using demo_sealed_ok(1) by (simp add: sealed_ok_def demo_sealed_def demo_maced_def demo_mac_def)
  show "length (sealed_bytes demo_maced) = 563" using sealed_bytes_fields(6) [OF ok] by (simp add: demo_maced_def)
qed

theorem mac_unmac_roundtrip_witness:
  "\<exists>sd' v b w. from_slice demo_tse \<lparr>sl_ptr = 0x17000, sl_bytes = sealed_bytes demo_maced\<rparr> demo_tse_state = (Ok sd', v)
    \<and> mac_aad_unmac demo_tse (sl_len demo_plain) (te_stack demo_tse) sd' v = (Ok b, w) \<and> tb_bytes b = [1, 2, 3]"
proof -
  have d: "slice_enclave_range demo_tse \<lparr>sl_ptr = 0x17000, sl_bytes = sealed_bytes demo_maced\<rparr>"
    by (simp add: slice_enclave_range_def demo_in_enclave demo_maced_ok)
  have "enough demo_tse (560 + sl_len demo_plain)" using demo_tse_ok(4) by (simp add: demo_plain_def)
  from mac_unmac_roundtrip [OF demo_tse_ok(1,3,2) default_mask_ok demo_mac_made to_bytes_eq [OF demo_maced_ok(1)] d _ demo_tse_ok(2) this] show ?thesis
    by (auto simp: demo_plain_def)
qed

section \<open>In memory\<close>

lemma demo_u32: "u32_at 0x15000 (ts_mem demo_tse_state) = 8" "u32_at 0x15100 (ts_mem demo_tse_state) = 8" "u32_at 0x17210 (ts_mem demo_tse_state) = 0"
  by (simp_all add: read_mem_def demo_tse_state_def upt_rec)

theorem unseal_data_writes_witness:
  "\<exists>status t. sgx_unseal_data demo_tse 0x17000 0x18100 0x15100 0x18000 0x15000 demo_tse_state = (Ok status, t)
    \<and> only_in ({0x18000 ..< 0x18008} \<union> {0x15000 ..< 0x15004} \<union> {0x18100 ..< 0x18108} \<union> {0x15100 ..< 0x15104}) (ts_mem demo_tse_state) (ts_mem t)"
  using unseal_data_writes [OF demo_tse_ok(1,2), of "0x17000" "0x18100" "0x15100" "0x18000" "0x15000"]
    demo_tse_ok(4) [of 560] demo_u32 by auto

lemma demo_seal_data:
  "sgx_seal_data demo_tse 0 0 3 0x16000 563 0x17000 demo_tse_state
    = (Ok Sgx_Success, demo_tse_state\<lparr>ts_mem := write_mem 0x17000 (sealed_bytes demo_sealed) (ts_mem demo_tse_state)\<rparr>)"
proof -
  have m: "\<lparr>sl_ptr = 0x16000, sl_bytes = read_mem 0x16000 3 (ts_mem demo_tse_state)\<rparr> = demo_plain"
    by (simp add: read_mem_def demo_tse_state_def demo_plain_def upt_rec)
  have d: "default_policy report_default = KEY_POLICY_MRSIGNER" by (simp add: default_policy_def demo_report)
  have r: "sgx_calc_sealed_data_size 0 3 = 563" by (simp add: sgx_calc_sealed_data_size_def raw_sealed_data_size_def Let_def U32_MAX_def SEALED_HEADER_def)
  have "sealed_data_seal demo_tse demo_plain None demo_tse_state = (Ok demo_sealed, demo_tse_state)"
    using demo_seals by (simp add: sealed_data_seal_def seal_def rust_defs demo_self d) (simp add: demo_plain_def)
  then show ?thesis
    by (simp add: sgx_seal_data_def check_sealed_out_def c_status_def rust_defs r demo_in_enclave U32_MAX_def load_slice_def load_def m
        to_bytes_eq demo_sealed_ok store_def)
qed

theorem seal_data_unseal_data_witness:
  "\<exists>t v. sgx_seal_data demo_tse 0 0 3 0x16000 563 0x17000 demo_tse_state = (Ok Sgx_Success, t)
    \<and> sgx_unseal_data demo_tse 0x17000 0x18100 0x15100 0x18000 0x15000 t = (Ok Sgx_Success, v)
    \<and> read_mem 0x18000 3 (ts_mem v) = [1, 2, 3] \<and> u32_at 0x15000 (ts_mem v) = 3"
proof -
  let ?t = "demo_tse_state\<lparr>ts_mem := write_mem 0x17000 (sealed_bytes demo_sealed) (ts_mem demo_tse_state)\<rparr>"
  have m: "read_mem 0x16000 3 (ts_mem demo_tse_state) = [1, 2, 3]" by (simp add: read_mem_def demo_tse_state_def upt_rec)
  have t: "tse_ok demo_tse ?t" using demo_tse_ok(2) by (simp add: tse_ok_def)
  have u: "u32_at 0x15000 (ts_mem ?t) = 8" "u32_at 0x15100 (ts_mem ?t) = 8"
    using demo_u32 by (simp_all add: read_write_apart demo_sealed_ok)
  have a: "apart [(0x18000, 3), (0x15000, 4), (0x18100, 0), (0x15100, 4)]" by (simp add: apart_four)
  show ?thesis
    using seal_data_unseal_data [OF demo_tse_ok(1,3,2) demo_seal_data t refl, of "0x18000" "0x15000" "0x18100" "0x15100"] u m a demo_tse_ok(4) [of 563]
      demo_seal_data by (auto simp: demo_in_enclave)
qed

end
