(* ===== verification/Spec2Isabelle.thy ===== *)
theory Spec2Isabelle
  imports Rsrv_Props Pfs_Trials Tseal_Trials
begin

text \<open>
  Verification of the trusted core of the Rust SGX SDK: the memory of an enclave, the protected file system, and reports, keys and sealing.

  \<^bold>\<open>The parts and how they work together.\<close>
  An enclave has a range of addresses (ELRANGE) whose layout the loader fixes. The trusted runtime (\<open>sgx_trts\<close>) checks pointers against that range and adds,
  protects and trims pages at run time, with instructions of the processor and calls to the untrusted host. The crate
  \<open>sgx_rsrvmm\<close> manages one region of that memory: an area manager records what is mapped, the reserved memory commits pages through the
  runtime, and mapping handles, an allocator and a C interface are built on it. The protected file system
  (\<open>sgx_protected_fs\<close>) keeps the nodes of a file in a cache in the enclave and encrypts them into host files, with AES-GCM
  of \<open>sgx_crypto\<close> under keys that come from the user or from the processor. \<open>sgx_tse\<close> gives reports and keys of the processor to
  \<open>sgx_tseal\<close>, which seals data under them.

  \<^bold>\<open>The model.\<close>
  A computation maps a state to a result, \<open>Ok\<close>, \<open>Err\<close> or \<open>Panic\<close>, and a new state (type \<open>rust\<close> of \<open>Prelude\<close>); one with loops that
  need not end yields an option of that, where \<open>None\<close> means that it does not return (type \<open>prog\<close> of \<open>Loops\<close>). Early returns, \<open>?\<close> and
  panics are branches of these types. Structures are records, enumerations datatypes, and a definition has the
  name of the function it models, with a prefix where several share it. There is no fuel: a loop with a bound that does not depend on the host or the cache is a
  terminating function, every other loop is a \<open>partial_function (option)\<close> (\<open>shrink_cache\<close>, \<open>bump_parents\<close>, \<open>mark_parents\<close>, \<open>fill_zeros\<close>,
  \<open>drain_cache\<close> and \<open>drop_nodes\<close>), and that it returns is a theorem wherever it holds.

  \<^item> Integers. \<open>usize\<close> and \<open>u64\<close> are natural numbers below \<open>2 ^ 64\<close>. The model is of a release build: sums, differences and products that can leave
    the range wrap around, as the position of a file does at the end of a write. Flag sets and bytes are words.
  \<^item> Debug assertions are not modelled. An index out of bounds, \<open>unwrap\<close> of nothing, a failing \<open>assert\<close> and \<open>copy_from_slice\<close> of different lengths panic.
  \<^item> Memory. The list of the cache has an explicit heap, where a pointer to freed memory gives \<open>None\<close>; file nodes are indices of a store that
    only grows; C pointers are addresses of a memory of bytes. Structures written to disk as their memory are taken apart into bytes. A byte
    outside the enumeration of encryption flags, undefined behaviour in Rust, is a value of its own.
  \<^item> Other code. The processor, the C cryptography, randomness, the host and user code behind \<open>dyn Map\<close> are fields of the records \<open>platform\<close>,
    \<open>crypto_sys\<close>, \<open>host_calls\<close>, \<open>fs_env\<close>, \<open>tse_env\<close> and \<open>map_ops\<close>. Nothing is assumed of the host. What the enclave relies on is in named
    hypotheses: \<open>elrange_ok\<close> and \<open>rsrv_layout_ok\<close> (the loader's data is consistent), \<open>gcm_correct\<close> (decryption inverts encryption), \<open>env_ok\<close> and \<open>tse_env_ok\<close> (sizes of
    outputs, no panics, and blocks and stack inside the enclave).
    The theorems with such hypotheses are tried on concrete functions (\<open>demo_platform\<close>, \<open>demo_crypto\<close>, \<open>demo_env\<close>).
  \<^item> Concurrency. Every operation of the reserved memory and of a file holds one lock, so calls are a sequence; a panic poisons the lock of a file.

  \<^bold>\<open>Shared theories.\<close> \<open>Prelude\<close> has results, computations, weakest preconditions, machine arithmetic and the page macros; \<open>Loops\<close> the computations that
  may not return with their weakest preconditions \<open>twp\<close>, \<open>pwp\<close> and \<open>gwp\<close>; \<open>Status\<close> the error codes of \<open>sgx_types/src/error\<close>.

  \<^bold>\<open>Memory of the enclave.\<close>
  \<^item> \<open>Enclave_Mem\<close> (\<open>sgx_trts/src/arch.rs\<close>, \<open>enclave/mem.rs\<close>, \<open>edmm/layout.rs\<close>): layout table, bases and sizes, dynamic ranges. The two range checks decide
    inclusion in and disjointness from the ELRANGE for every address and length, wrap-around included.
  \<^item> \<open>Edmm\<close> (\<open>edmm/epc.rs\<close>, \<open>perm.rs\<close>, \<open>trim.rs\<close>, \<open>mem.rs\<close>, \<open>call/ocall.rs\<close>): page ranges, EACCEPT and EMODPE loops, permission and trim calls. Extending a range accepts
    each of its pages once; committing a trim sends the wrong addresses.
  \<^item> \<open>Mm_Range\<close>, \<open>Mm_Area\<close>, \<open>Mm_Manager\<close> (\<open>sgx_rsrvmm/src/rsrvmm/range.rs\<close>, \<open>area.rs\<close>, \<open>manager.rs\<close>, \<open>map.rs\<close>): ranges denote sets of addresses and the manager is a vector of areas between two
    guards. \<open>Mm_Invariant\<close>, \<open>Mm_Free_Range\<close> and \<open>Mm_Split\<close> show that its operations keep the areas ordered, disjoint and aligned, that the search is best fit, and that splitting
    and merging keep the set of mapped addresses. \<open>Mm_Region\<close> states this contract as the locale \<open>region_manager\<close> and interprets it on \<open>MmManager\<close>.
  \<^item> \<open>Rsrv_Mem\<close> (\<open>rsrvmm/mod.rs\<close>, \<open>map.rs\<close>, \<open>alloc.rs\<close>, \<open>capi.rs\<close>): \<open>mmap\<close>, \<open>munmap\<close>, \<open>mprotect\<close>, \<open>msync\<close>, handles, allocator and C interface. \<open>Rsrv_Props\<close> shows over
    the locale what each does to the mapped addresses, and the invariant of every reachable state.

  \<^bold>\<open>Protected files\<close> (\<open>sgx_protected_fs/tfs/src/sys\<close>, the paths below are under it).
  \<^item> \<open>Linked_List\<close> (\<open>cache/list.rs\<close>) and \<open>Lru_Cache\<close> (\<open>cache/mod.rs\<close>): the pointer operations implement operations on sequences, and the cache satisfies the locale \<open>node_cache\<close> that the
    file relies on.
  \<^item> \<open>Aes_Gcm\<close> (\<open>sgx_crypto/src/aes/gcm.rs\<close>, \<open>mac/cmac.rs\<close>), \<open>Pfs_Host\<close> (\<open>error.rs\<close>, \<open>host\<close>), \<open>Pfs_Keys\<close> (\<open>keys.rs\<close>), \<open>Pfs_Node\<close> (\<open>node.rs\<close>), \<open>Pfs_Metadata\<close> (\<open>metadata.rs\<close>),
    \<open>Pfs_File\<close> (\<open>file/node.rs\<close>, \<open>file/flush.rs\<close>), \<open>Pfs_Ops\<close> (\<open>file/read.rs\<close>, \<open>write.rs\<close>, \<open>other.rs\<close>, \<open>close.rs\<close>) and \<open>Pfs_Open\<close> (\<open>file/open.rs\<close>, \<open>file/mod.rs\<close>) hold the definitions.
  \<^item> \<open>Pfs_Layout\<close> and \<open>Pfs_Crypt\<close>: node numbers never collide, and what was encrypted is decrypted under restored keys.
  \<^item> \<open>Pfs_Wf\<close> defines well-formed files (\<open>file_ok\<close>), \<open>Pfs_Flush\<close> announced changes (\<open>dirty_ok\<close>: while a cached node waits to be written, the file and its root are marked and the file is longer than the 3072
    bytes in the metadata). \<open>Pfs_Flush\<close>, \<open>Pfs_Tree\<close>, \<open>Pfs_Safe\<close>, \<open>Pfs_Write\<close> and \<open>Pfs_Handle\<close> show that each operation keeps files well formed and does not panic whatever the host answers, and
    returns while changes are announced. \<open>Pfs_Contents\<close> shows what reads and writes do to the contents.
  \<^item> \<open>Pfs_Props\<close> has the resulting properties of calls and files, \<open>Pfs_Faults\<close> the error paths and where the code does not do what it means to, \<open>Pfs_Trials\<close> concrete runs.

  \<^bold>\<open>Reports, keys and sealing.\<close>
  \<^item> \<open>Tse\<close> (\<open>sgx_trts/src/se\<close>, \<open>rand.rs\<close>, \<open>sgx_tse\<close>): reports, targets, keys and the C interface; the two ways from a report to its target agree but for the CET attributes.
  \<^item> \<open>Tseal\<close> (\<open>sgx_tseal/src/internal.rs\<close>, \<open>seal.rs\<close>, \<open>aad.rs\<close>) and \<open>Tseal_Capi\<close> (\<open>capi.rs\<close>): sealed data as bytes, sealing and unsealing, codes, typed views and C pointers. \<open>Tseal_Props\<close> shows the round trips,
    sealing and codes as the two interpretations of the locale \<open>stored_data\<close>; \<open>Tseal_Capi\<close> what the C functions read and write; \<open>Tseal_Trials\<close> concrete runs.

  \<^bold>\<open>Not modelled.\<close> Entering and leaving the enclave, its initialisation, threads, exceptions and the instructions themselves (assembly, the processor's state and atomic operations); the
  untrusted runtime and the host side of files; the C and Rust interfaces of files, which convert paths, flags and pointers around the calls on the handle; the rest of the
  cryptography and the attestation protocols, wrappers of C libraries; the adapted standard library and general purpose crates; samples, tests and build scripts. In files, of the linked list \<open>drain_filter\<close>, mutable iteration and comparison,
  which nothing uses, and of nodes the borrow flags, since no borrow is held across another access to the same node.
\<close>

end
